(* ===== verification/Prelude.thy ===== *)
theory Prelude
  imports Main "HOL-Library.Word"
begin

text \<open>
  Shared vocabulary of the development: bytes and machine integers, the result
  type of fallible operations, the sequencing combinator of operations that run
  on fuel, and the list and word facts that several components use.

  \<^item> \<open>byte\<close>, \<open>bytes\<close>, \<open>u64\<close>, \<open>u256\<close> name Go's \<^verbatim>\<open>byte\<close>, \<^verbatim>\<open>[]byte\<close>,
    \<^verbatim>\<open>uint64\<close> and the 256 bit integers of \<^verbatim>\<open>holiman/uint256\<close>.
  \<^item> An operation that returns \<^verbatim>\<open>(T, error)\<close> has the result type \<open>'e + 'a\<close>, with
    \<open>Inl\<close> the error; a Go panic is a constructor of the component's error type.
  \<^item> A recursion with no structural measure takes fuel and returns an \<open>option\<close> of
    that sum, \<open>None\<close> meaning that the fuel ran out. Each such recursion has a lemma
    saying how much fuel is enough.
\<close>

unbundle bit_operations_syntax

type_synonym byte = "8 word"
type_synonym bytes = "8 word list"
type_synonym u64 = "64 word"
type_synonym u256 = "256 word"

named_theorems res_simps \<open>unfolding of the sequencing combinators\<close>

subsection \<open>Sequencing\<close>

definition rbind :: "'e + 'a \<Rightarrow> ('a \<Rightarrow> 'e + 'b) \<Rightarrow> 'e + 'b" where
  "rbind r k = (case r of Inl e \<Rightarrow> Inl e | Inr a \<Rightarrow> k a)"

definition fbind :: "('e + 'a) option \<Rightarrow> ('a \<Rightarrow> ('e + 'b) option) \<Rightarrow> ('e + 'b) option" where
  "fbind r k = (case r of None \<Rightarrow> None | Some (Inl e) \<Rightarrow> Some (Inl e) | Some (Inr a) \<Rightarrow> k a)"

lemma rbind_simps [simp, res_simps]:
  "rbind (Inl e) k = Inl e"
  "rbind (Inr a) k = k a"
  by (simp_all add: rbind_def)

lemma fbind_simps [simp, res_simps]:
  "fbind None k = None"
  "fbind (Some (Inl e)) k = Some (Inl e)"
  "fbind (Some (Inr a)) k = k a"
  by (simp_all add: fbind_def)

lemma rbind_eq_Inr [res_simps]: "rbind r k = Inr b \<longleftrightarrow> (\<exists>a. r = Inr a \<and> k a = Inr b)"
  by (cases r) auto

lemma rbind_eq_Inl [res_simps]:
  "rbind r k = Inl e \<longleftrightarrow> r = Inl e \<or> (\<exists>a. r = Inr a \<and> k a = Inl e)"
  by (cases r) auto

lemma fbind_eq_Inr [res_simps]:
  "fbind r k = Some (Inr b) \<longleftrightarrow> (\<exists>a. r = Some (Inr a) \<and> k a = Some (Inr b))"
  by (simp add: fbind_def split: option.split sum.split)

lemma fbind_eq_Inl [res_simps]:
  "fbind r k = Some (Inl e) \<longleftrightarrow>
     r = Some (Inl e) \<or> (\<exists>a. r = Some (Inr a) \<and> k a = Some (Inl e))"
  by (auto simp: fbind_def split: option.split sum.split)

lemma fbind_eq_None [res_simps]:
  "fbind r k = None \<longleftrightarrow> r = None \<or> (\<exists>a. r = Some (Inr a) \<and> k a = None)"
  by (auto simp: fbind_def split: option.split sum.split)

subsection \<open>Lists\<close>

lemma butlast_last_induct_step:
  "xs \<noteq> [] \<Longrightarrow> butlast xs @ [last xs] = xs"
  by simp

lemma take_eq_prefix: "take (length p) xs = p \<longleftrightarrow> (\<exists>ys. xs = p @ ys)"
proof
  assume "take (length p) xs = p"
  then show "\<exists>ys. xs = p @ ys" by (metis append_take_drop_id)
qed auto

lemma nth_update_cases:
  "i < length xs \<Longrightarrow> (xs[i := x]) ! j = (if i = j then x else xs ! j)"
  by simp

subsection \<open>Big-endian byte strings\<close>

text \<open>
  \<open>be_bytes n x\<close> is the \<open>n\<close> byte big-endian form of \<open>x\<close>, truncated on the left when it
  does not fit; \<open>from_be\<close> reads a byte string back.
\<close>

primrec be_bytes :: "nat \<Rightarrow> nat \<Rightarrow> bytes" where
  "be_bytes 0 x = []"
| "be_bytes (Suc n) x = be_bytes n (x div 256) @ [of_nat x]"

definition from_be :: "bytes \<Rightarrow> nat" where
  "from_be bs = foldl (\<lambda>a b. a * 256 + unat b) 0 bs"

lemma length_be_bytes [simp]: "length (be_bytes n x) = n"
  by (induction n arbitrary: x) auto

lemma from_be_Nil [simp]: "from_be [] = 0"
  by (simp add: from_be_def)

lemma from_be_snoc [simp]: "from_be (bs @ [b]) = from_be bs * 256 + unat b"
  by (simp add: from_be_def)

lemma from_be_be_bytes: "from_be (be_bytes n x) = x mod 256 ^ n"
proof (induction n arbitrary: x)
  case (Suc n)
  have "unat (of_nat x :: byte) = x mod 256"
    by (simp add: unat_of_nat take_bit_eq_mod)
  then show ?case
    using Suc.IH [of "x div 256"] by (simp add: mod_mult2_eq)
qed simp

lemma from_be_less: "from_be bs < 256 ^ length bs"
proof (induction bs rule: rev_induct)
  case (snoc b bs)
  have "unat b < 256" using unsigned_less [of b] by simp
  moreover have "from_be bs + 1 \<le> 256 ^ length bs" using snoc by simp
  then have "(from_be bs + 1) * 256 \<le> 256 ^ length bs * 256" by (rule mult_le_mono1)
  ultimately show ?case by simp
qed simp

lemma be_bytes_from_be: "be_bytes (length bs) (from_be bs) = bs"
proof (induction bs rule: rev_induct)
  case (snoc b bs)
  have u: "unat b < 256" using unsigned_less [of b] by simp
  then have "(from_be bs * 256 + unat b) div 256 = from_be bs" by simp
  moreover have "(of_nat (from_be bs * 256 + unat b) :: byte) = b"
  proof -
    have z: "(256 :: byte) = 0" by simp
    have "(of_nat (from_be bs * 256 + unat b) :: byte) = of_nat (from_be bs) * 256 + b"
      by (simp only: of_nat_add of_nat_mult of_nat_numeral of_nat_unat ucast_id)
    then show ?thesis unfolding z by simp
  qed
  ultimately show ?case using snoc by simp
qed simp

end
