(* ===== verification/TrieEncoding.thy ===== *)
theory TrieEncoding
  imports Prelude
begin

text \<open>
  The three key encodings of \<^verbatim>\<open>trie/encoding.go\<close>: KEYBYTES (the key itself), HEX (one
  byte per nibble and a terminator byte 16 on keys that end in a value) and COMPACT
  (two nibbles per byte after a flag nibble). A slice index out of range and the
  explicit \<^verbatim>\<open>panic\<close> of \<^verbatim>\<open>hexToKeybytes\<close> are the result \<open>None\<close>.
\<close>

subsection \<open>Definitions\<close>

definition hasTerm :: "bytes \<Rightarrow> bool" where
  "hasTerm s \<longleftrightarrow> length s > 0 \<and> s ! (length s - 1) = 16"

text \<open>The loop of \<^verbatim>\<open>decodeNibbles\<close> writes into the destination slice in place.\<close>

fun decodeNibbles :: "bytes \<Rightarrow> bytes \<Rightarrow> bytes option" where
  "decodeNibbles [] buf = Some buf"
| "decodeNibbles [_] buf = None"
| "decodeNibbles (_ # _ # _) [] = None"
| "decodeNibbles (a # b # nibbles) (_ # buf) =
     map_option ((#) (push_bit 4 a OR b)) (decodeNibbles nibbles buf)"

definition hexToCompact :: "bytes \<Rightarrow> bytes option" where
  "hexToCompact hex0 =
     (let terminator = (if hasTerm hex0 then 1 else 0) :: byte;
          hex = (if hasTerm hex0 then take (length hex0 - 1) hex0 else hex0);
          rest = replicate (length hex div 2) 0;
          flag = push_bit 5 terminator
      in if length hex mod 2 = 1
         then map_option ((#) (flag OR push_bit 4 1 OR hd hex)) (decodeNibbles (tl hex) rest)
         else map_option ((#) flag) (decodeNibbles hex rest))"

text \<open>
  \<^verbatim>\<open>hexToCompactInPlace\<close> reads and writes the same slice; its loop keeps the read index
  \<open>ni\<close> and the write index \<open>bi\<close>.
\<close>

function compactLoop :: "nat \<Rightarrow> nat \<Rightarrow> nat \<Rightarrow> bytes \<Rightarrow> bytes option" where
  "compactLoop hexLen bi ni hex =
     (if ni < hexLen
      then if ni + 1 < length hex \<and> bi < length hex
           then compactLoop hexLen (bi + 1) (ni + 2)
                  (hex[bi := push_bit 4 (hex ! ni) OR hex ! (ni + 1)])
           else None
      else Some hex)"
  by pat_completeness auto
termination
  by (relation "measure (\<lambda>(hexLen, bi, ni, hex). hexLen - ni)") auto

declare compactLoop.simps [simp del]

definition hexToCompactInPlace :: "bytes \<Rightarrow> (bytes \<times> nat) option" where
  "hexToCompactInPlace hex =
     (let term = length hex > 0 \<and> hex ! (length hex - 1) = 16;
          hexLen = (if term then length hex - 1 else length hex);
          flag = (if term then push_bit 5 1 else 0) :: byte;
          binLen = hexLen div 2 + 1;
          odd = hexLen mod 2 = 1;
          firstByte = (if odd then flag OR push_bit 4 1 OR hex ! 0 else flag)
      in case compactLoop hexLen 1 (if odd then 1 else 0) hex of
           None \<Rightarrow> None
         | Some hex' \<Rightarrow> if hex' = [] then None else Some (hex'[0 := firstByte], binLen))"

definition keybytesToHex :: "bytes \<Rightarrow> bytes" where
  "keybytesToHex str = concat (map (\<lambda>b. [b div 16, b mod 16]) str) @ [16]"

definition compactToHex :: "bytes \<Rightarrow> bytes" where
  "compactToHex compact =
     (if length compact = 0 then compact
      else let base0 = keybytesToHex compact;
               base = (if base0 ! 0 < 2 then take (length base0 - 1) base0 else base0);
               chop = 2 - unat (base ! 0 AND 1)
           in drop chop base)"

definition hexToKeybytes :: "bytes \<Rightarrow> bytes option" where
  "hexToKeybytes hex0 =
     (let hex = (if hasTerm hex0 then take (length hex0 - 1) hex0 else hex0)
      in if length hex mod 2 \<noteq> 0 then None
         else decodeNibbles hex (replicate (length hex div 2) 0))"

fun prefixLen :: "bytes \<Rightarrow> bytes \<Rightarrow> nat" where
  "prefixLen (x # a) (y # b) = (if x \<noteq> y then 0 else Suc (prefixLen a b))"
| "prefixLen _ _ = 0"

text \<open>HEX keys: nibbles, and nibbles followed by the terminator.\<close>

definition nibbles :: "bytes \<Rightarrow> bool" where
  "nibbles k \<longleftrightarrow> (\<forall>x \<in> set k. unat x < 16)"

definition hexkey :: "bytes \<Rightarrow> bool" where
  "hexkey k \<longleftrightarrow> k \<noteq> [] \<and> last k = 16 \<and> nibbles (butlast k)"

subsection \<open>Nibbles and bytes\<close>

lemma byte_split:
  fixes b :: byte
  shows "push_bit 4 (b div 16) OR b mod 16 = b"
proof -
  have 1: "b div 16 = drop_bit 4 b" by (simp add: drop_bit_eq_div)
  have 2: "b mod 16 = take_bit 4 b" by (simp add: take_bit_eq_mod)
  show ?thesis unfolding 1 2
    by (rule bit_word_eqI) (auto simp: bit_simps)
qed

lemma nibble_take_bit:
  fixes b :: byte
  assumes "unat b < 16"
  shows "take_bit 4 b = b"
  using assms by (simp add: take_bit_eq_mod word_unat_eq_iff unat_mod)

lemma nibble_bit:
  fixes a :: byte
  assumes "unat a < 16" and "bit a n"
  shows "n < 4"
  using assms by (metis bit_take_bit_iff nibble_take_bit)

lemma nibble_join:
  fixes a b :: byte
  assumes "unat a < 16" "unat b < 16"
  shows "(push_bit 4 a OR b) div 16 = a" "(push_bit 4 a OR b) mod 16 = b"
proof -
  have "drop_bit 4 (push_bit 4 a OR b) = a"
    using nibble_bit [OF assms(1)] nibble_bit [OF assms(2)]
    by (intro bit_word_eqI) (fastforce simp: bit_simps)
  then show "(push_bit 4 a OR b) div 16 = a" by (simp add: drop_bit_eq_div)
  have "take_bit 4 (push_bit 4 a OR b) = b"
    using nibble_take_bit [OF assms(2)] by (simp add: take_bit_push_bit)
  then show "(push_bit 4 a OR b) mod 16 = b" by (simp add: take_bit_eq_mod)
qed

lemma unat_div_mod_16:
  fixes b :: byte
  shows "unat (b div 16) < 16" "unat (b mod 16) < 16"
proof -
  have "unat b < 256" using unsigned_less [of b] by simp
  then show "unat (b div 16) < 16" by (simp add: unat_div)
  show "unat (b mod 16) < 16" by (simp add: unat_mod)
qed

lemma nibbles_simps [simp]:
  "nibbles []"
  "nibbles (x # k) \<longleftrightarrow> unat x < 16 \<and> nibbles k"
  "nibbles (k @ l) \<longleftrightarrow> nibbles k \<and> nibbles l"
  by (auto simp: nibbles_def)

lemma nibbles_not16: "nibbles k \<Longrightarrow> 16 \<notin> set k"
  by (auto simp: nibbles_def)

definition nibs :: "bytes \<Rightarrow> bytes" where
  "nibs s = concat (map (\<lambda>b. [b div 16, b mod 16]) s)"

lemma nibs_simps [simp]:
  "nibs [] = []"
  "nibs (b # s) = b div 16 # b mod 16 # nibs s"
  by (simp_all add: nibs_def)

lemma length_nibs [simp]: "length (nibs s) = 2 * length s"
  by (induction s) auto

lemma nibbles_nibs [simp]: "nibbles (nibs s)"
  by (induction s) (auto simp: unat_div_mod_16)

lemma keybytesToHex_nibs: "keybytesToHex s = nibs s @ [16]"
  by (simp add: keybytesToHex_def nibs_def)

lemma decodeNibbles_nibs:
  "length buf = length s \<Longrightarrow> decodeNibbles (nibs s) buf = Some s"
proof (induction s arbitrary: buf)
  case (Cons b s)
  then show ?case by (cases buf) (auto simp: byte_split)
qed simp

lemma inj_nibs:
  assumes "nibs s = nibs t"
  shows "s = t"
proof -
  have "length s = length t" using arg_cong [OF assms, of length] by simp
  then have "decodeNibbles (nibs t) s = Some t" by (rule decodeNibbles_nibs)
  moreover have "decodeNibbles (nibs s) s = Some s" by (rule decodeNibbles_nibs) (rule refl)
  ultimately have "Some t = Some s" unfolding assms by (rule trans [OF sym])
  then show ?thesis unfolding option.inject by (rule sym)
qed

lemma decodeNibbles_Some:
  "length ns = 2 * length buf \<Longrightarrow> \<exists>c. decodeNibbles ns buf = Some c \<and> length c = length buf"
proof (induction ns buf rule: decodeNibbles.induct)
  case (4 a b ns x buf)
  then obtain c where "decodeNibbles ns buf = Some c" "length c = length buf" by auto
  then show ?case by simp
qed auto

lemma nibs_decodeNibbles:
  "nibbles ns \<Longrightarrow> length ns = 2 * length buf \<Longrightarrow>
     \<exists>c. decodeNibbles ns buf = Some c \<and> nibs c = ns"
proof (induction ns buf rule: decodeNibbles.induct)
  case (4 a b ns x buf)
  then obtain c where "decodeNibbles ns buf = Some c" "nibs c = ns" by auto
  with 4 show ?case by (simp add: nibble_join)
qed auto

lemma hexkey_keybytesToHex [simp]: "hexkey (keybytesToHex s)"
  by (simp add: hexkey_def keybytesToHex_nibs)

lemma keybytesToHex_inj: "keybytesToHex s = keybytesToHex t \<longleftrightarrow> s = t"
  by (auto simp: keybytesToHex_nibs dest: inj_nibs)

lemma hasTerm_iff: "hasTerm s \<longleftrightarrow> s \<noteq> [] \<and> last s = 16"
  by (auto simp: hasTerm_def last_conv_nth)

lemma hasTerm_nibbles: "nibbles k \<Longrightarrow> \<not> hasTerm k"
  using nibbles_not16 [of k] last_in_set [of k] unfolding hasTerm_iff by metis

lemma hasTerm_snoc [simp]: "hasTerm (k @ [16])"
  by (simp add: hasTerm_iff)

subsection \<open>Round trips\<close>

text \<open>The flag byte: its high nibble carries the terminator and parity bits.\<close>

definition flagNibble :: "bool \<Rightarrow> bool \<Rightarrow> byte" where
  "flagNibble t od = (if t then 2 else 0) + (if od then 1 else 0)"

lemma flag_odd:
  fixes x :: byte
  shows "(if t then 32 else 0) OR 16 OR x = push_bit 4 (flagNibble t True) OR x"
  by (cases t) (simp_all add: flagNibble_def or.assoc [symmetric])

lemma flag_even: "(if t then 32 else 0) = (push_bit 4 (flagNibble t False) OR 0 :: byte)"
  by (simp add: flagNibble_def push_bit_eq_mult)

lemma hexToCompact_alt:
  assumes "nibbles k"
  shows "hexToCompact (k @ (if t then [16] else [])) =
    (if odd (length k)
     then map_option ((#) (push_bit 4 (flagNibble t True) OR hd k))
            (decodeNibbles (tl k) (replicate (length k div 2) 0))
     else map_option ((#) (push_bit 4 (flagNibble t False) OR 0))
            (decodeNibbles k (replicate (length k div 2) 0)))"
proof -
  have ht: "hasTerm (k @ (if t then [16] else [])) = t"
    using hasTerm_nibbles [OF assms] by simp
  show ?thesis
    unfolding hexToCompact_def Let_def ht flag_odd [symmetric] flag_even [symmetric]
    by (auto simp: odd_iff_mod_2_eq_one)
qed

lemma hexToCompact_nibs:
  assumes "nibbles k"
  shows "\<exists>c. hexToCompact (k @ (if t then [16] else [])) = Some c \<and>
           nibs c = flagNibble t (odd (length k)) # (if odd (length k) then [] else [0]) @ k"
proof -
  have f: "unat (flagNibble t b) < 16" for b by (simp add: flagNibble_def)
  show ?thesis
  proof (cases "odd (length k)")
    case True
    then obtain x k' where k: "k = x # k'" by (cases k) auto
    with True have "length k' = 2 * length (replicate (length k div 2) (0::byte))" by simp
    moreover have "nibbles k'" and x: "unat x < 16" using assms k by simp_all
    ultimately obtain c where "decodeNibbles k' (replicate (length k div 2) 0) = Some c" "nibs c = k'"
      using nibs_decodeNibbles by blast
    with True k show ?thesis
      unfolding hexToCompact_alt [OF assms] by (simp add: nibble_join [OF f x])
  next
    case False
    then have "length k = 2 * length (replicate (length k div 2) (0::byte))" by simp
    with assms obtain c where "decodeNibbles k (replicate (length k div 2) 0) = Some c" "nibs c = k"
      using nibs_decodeNibbles by blast
    with False show ?thesis
      using nibble_join [OF f, of 0 False] unfolding hexToCompact_alt [OF assms] by simp
  qed
qed

lemma compactToHex_nibs:
  assumes "nibs c = flagNibble t od # (if od then [] else [0]) @ k"
  shows "compactToHex c = k @ (if t then [16] else [])"
proof -
  have "c \<noteq> []" using assms by auto
  then show ?thesis
    by (cases t; cases od) (simp_all add: compactToHex_def keybytesToHex_nibs assms flagNibble_def)
qed
subsection \<open>The in-place conversion\<close>

lemma compactLoop_correct:
  assumes "bi \<le> ni + 1" "even (hexLen - ni)" "ni \<le> hexLen" "hexLen \<le> length hex"
  shows "\<exists>h. compactLoop hexLen bi ni hex = Some h \<and> length h = length hex \<and>
           take bi h = take bi hex \<and>
           decodeNibbles (drop ni (take hexLen hex)) (replicate ((hexLen - ni) div 2) 0) =
             Some (take ((hexLen - ni) div 2) (drop bi h))"
  using assms
proof (induction hexLen bi ni hex rule: compactLoop.induct)
  case (1 hexLen bi ni hex)
  show ?case
  proof (cases "ni < hexLen")
    case False
    then have "compactLoop hexLen bi ni hex = Some hex" by (subst compactLoop.simps) simp
    with False 1 show ?thesis by simp
  next
    case True
    then have two: "ni + 2 \<le> hexLen" using \<open>even (hexLen - ni)\<close> by presburger
    let ?x = "push_bit 4 (hex ! ni) OR hex ! (ni + 1)"
    let ?hex = "hex[bi := ?x]"
    have run: "compactLoop hexLen bi ni hex = compactLoop hexLen (bi + 1) (ni + 2) ?hex"
      using 1 two by (simp add: compactLoop.simps [of hexLen bi ni hex])
    obtain h where h: "compactLoop hexLen (bi + 1) (ni + 2) ?hex = Some h" "length h = length hex"
      "take (bi + 1) h = take (bi + 1) ?hex"
      "decodeNibbles (drop (ni + 2) (take hexLen ?hex)) (replicate ((hexLen - (ni + 2)) div 2) 0) =
         Some (take ((hexLen - (ni + 2)) div 2) (drop (bi + 1) h))"
      using "1.IH" [OF True] "1.prems" two by auto
    have bi: "bi < length hex" using 1 two by linarith
    have hb: "h ! bi = ?x" using arg_cong [OF h(3), of "\<lambda>l. l ! bi"] bi by simp
    have tb: "take bi h = take bi hex"
      using arg_cong [OF h(3), of "take bi"] by simp
    have dr: "drop (ni + 2) (take hexLen ?hex) = drop (ni + 2) (take hexLen hex)"
      using 1 by (simp add: drop_take)
    have lst: "drop ni (take hexLen hex) =
        hex ! ni # hex ! (ni + 1) # drop (ni + 2) (take hexLen hex)"
      using two 1 Cons_nth_drop_Suc [of ni "take hexLen hex"]
        Cons_nth_drop_Suc [of "ni + 1" "take hexLen hex"] by simp
    have half: "(hexLen - ni) div 2 = Suc ((hexLen - (ni + 2)) div 2)" using two by simp
    have db: "drop bi h = ?x # drop (bi + 1) h"
      using hb bi h(2) by (metis Cons_nth_drop_Suc Suc_eq_plus1)
    show ?thesis
      using h run tb unfolding lst half dr by (simp add: db)
  qed
qed



text \<open>C14: decoding the COMPACT form of a nibble path gives the path back, with or without the terminator and for odd and even lengths.\<close>

theorem compact_roundtrip:
  assumes "nibbles k"
  shows "\<exists>c. hexToCompact (k @ (if t then [16] else [])) = Some c \<and>
           compactToHex c = k @ (if t then [16] else [])"
proof -
  obtain c where "hexToCompact (k @ (if t then [16] else [])) = Some c"
    "nibs c = flagNibble t (odd (length k)) # (if odd (length k) then [] else [0]) @ k"
    using hexToCompact_nibs [OF assms] by blast
  moreover from this(2) have "compactToHex c = k @ (if t then [16] else [])"
    by (rule compactToHex_nibs)
  ultimately show ?thesis by blast
qed

theorem compact_roundtrip_witness:
  "\<exists>c. hexToCompact ([1, 15, 3] @ [16]) = Some c \<and> compactToHex c = [1, 15, 3] @ [16]"
  using compact_roundtrip [of "[1, 15, 3]" True] by (simp add: nibbles_def)

text \<open>C15: a key's bytes survive the conversion to nibbles and back.\<close>

theorem keybytes_roundtrip: "hexToKeybytes (keybytesToHex s) = Some s"
  by (simp add: hexToKeybytes_def keybytesToHex_nibs decodeNibbles_nibs)

lemma prefixLen_le: "prefixLen a b \<le> length a" "prefixLen a b \<le> length b"
  by (induction a b rule: prefixLen.induct) auto

lemma take_prefixLen: "take (prefixLen a b) a = take (prefixLen a b) b"
  by (induction a b rule: prefixLen.induct) auto

lemma prefixLen_neq:
  "prefixLen a b < length a \<Longrightarrow> prefixLen a b < length b \<Longrightarrow> a ! prefixLen a b \<noteq> b ! prefixLen a b"
  by (induction a b rule: prefixLen.induct) auto

end
