(* ===== verification/Trie.thy ===== *)
theory Trie
  imports TrieEncoding
begin

text \<open>
  The Merkle Patricia trie of \<^verbatim>\<open>trie/trie.go\<close> over the node types of \<^verbatim>\<open>trie/node.go\<close>.

  A trie in memory is partly loaded: a \<^verbatim>\<open>hashNode\<close> stands for a subtrie that still sits in
  the node database and is fetched on demand by \<^verbatim>\<open>resolveHash\<close>. The database is the
  argument \<open>db\<close>, which maps a node hash to the decoded node (\<^verbatim>\<open>Database.node\<close>), \<open>None\<close>
  when it has none. The recursions \<^verbatim>\<open>tryGet\<close>, \<^verbatim>\<open>insert\<close> and \<^verbatim>\<open>delete\<close> follow hash
  nodes into the database and so have no structural measure: they take fuel.

  The contents of a partly loaded trie are given by the relation \<open>holds\<close>, which follows a
  key without any fuel. The theorems show that the operations implement a finite map
  over it, that they keep the minimal form of the trie, and that fuel linear in the
  length of the key is enough.
\<close>

subsection \<open>Nodes\<close>

record nodeFlag =
  flag_hash :: "bytes option"
  flag_dirty :: bool

datatype node =
    NilNode
  | FullNode "node list" nodeFlag
  | ShortNode bytes node nodeFlag
  | HashNode bytes
  | ValueNode bytes

datatype trie_error = MissingNodeError bytes bytes | TriePanic

type_synonym node_db = "bytes \<Rightarrow> node option"

definition newFlag :: nodeFlag where
  "newFlag = \<lparr>flag_hash = None, flag_dirty = True\<rparr>"

definition emptyChildren :: "node list" where
  "emptyChildren = replicate 17 NilNode"

definition BytesToHash :: "bytes \<Rightarrow> bytes" where
  "BytesToHash b =
     (if length b > 32 then drop (length b - 32) b else replicate (32 - length b) 0 @ b)"

definition resolveHash :: "node_db \<Rightarrow> bytes \<Rightarrow> bytes \<Rightarrow> trie_error + node" where
  "resolveHash db n pre =
     (let h = BytesToHash n in
      case db h of Some nd \<Rightarrow> Inr nd | None \<Rightarrow> Inl (MissingNodeError h pre))"

definition resolve :: "node_db \<Rightarrow> node \<Rightarrow> bytes \<Rightarrow> trie_error + node" where
  "resolve db n pre = (case n of HashNode h \<Rightarrow> resolveHash db h pre | _ \<Rightarrow> Inr n)"

subsection \<open>Lookup\<close>

fun tryGet :: "node_db \<Rightarrow> nat \<Rightarrow> node \<Rightarrow> bytes \<Rightarrow> nat \<Rightarrow>
    (trie_error + bytes option \<times> node \<times> bool) option" where
  "tryGet db 0 origNode key pos = None"
| "tryGet db (Suc fuel) origNode key pos =
     (case origNode of
        NilNode \<Rightarrow> Some (Inr (None, NilNode, False))
      | ValueNode v \<Rightarrow> Some (Inr (Some v, ValueNode v, False))
      | ShortNode nkey nval flags \<Rightarrow>
          if length key < pos + length nkey \<or> nkey \<noteq> take (length nkey) (drop pos key)
          then Some (Inr (None, ShortNode nkey nval flags, False))
          else fbind (tryGet db fuel nval key (pos + length nkey))
                 (\<lambda>(value, newnode, didResolve).
                    Some (Inr (value,
                      (if didResolve then ShortNode nkey newnode flags
                       else ShortNode nkey nval flags), didResolve)))
      | FullNode children flags \<Rightarrow>
          if pos < length key \<and> unat (key ! pos) < length children
          then fbind (tryGet db fuel (children ! unat (key ! pos)) key (pos + 1))
                 (\<lambda>(value, newnode, didResolve).
                    Some (Inr (value,
                      (if didResolve then FullNode (children[unat (key ! pos) := newnode]) flags
                       else FullNode children flags), didResolve)))
          else Some (Inl TriePanic)
      | HashNode h \<Rightarrow>
          (case resolveHash db h (take pos key) of
             Inl e \<Rightarrow> Some (Inl e)
           | Inr child \<Rightarrow>
               fbind (tryGet db fuel child key pos)
                 (\<lambda>(value, newnode, _). Some (Inr (value, newnode, True)))))"

subsection \<open>Insertion\<close>

fun insertTrie :: "node_db \<Rightarrow> nat \<Rightarrow> node \<Rightarrow> bytes \<Rightarrow> bytes \<Rightarrow> node \<Rightarrow>
    (trie_error + bool \<times> node) option" where
  "insertTrie db 0 n pre key val = None"
| "insertTrie db (Suc fuel) n pre key val =
     (if length key = 0
      then (case n of
              ValueNode v \<Rightarrow>
                (case val of
                   ValueNode w \<Rightarrow> Some (Inr (v \<noteq> w, val))
                 | _ \<Rightarrow> Some (Inl TriePanic))
            | _ \<Rightarrow> Some (Inr (True, val)))
      else (case n of
        ShortNode nkey nval flags \<Rightarrow>
          let matchlen = prefixLen key nkey in
          if matchlen = length nkey
          then fbind (insertTrie db fuel nval (pre @ take matchlen key) (drop matchlen key) val)
                 (\<lambda>(dirty, nn).
                    Some (Inr (if \<not> dirty then (False, n)
                               else (True, ShortNode nkey nn newFlag))))
          else if matchlen < length key \<and> unat (nkey ! matchlen) < 17
                  \<and> unat (key ! matchlen) < 17
          then fbind (insertTrie db fuel NilNode (pre @ take (matchlen + 1) nkey)
                        (drop (matchlen + 1) nkey) nval)
                 (\<lambda>(_, c1).
                    fbind (insertTrie db fuel NilNode (pre @ take (matchlen + 1) key)
                             (drop (matchlen + 1) key) val)
                      (\<lambda>(_, c2).
                         let branch = FullNode (emptyChildren
                               [unat (nkey ! matchlen) := c1, unat (key ! matchlen) := c2])
                               newFlag
                         in Some (Inr (True,
                              if matchlen = 0 then branch
                              else ShortNode (take matchlen key) branch newFlag))))
          else Some (Inl TriePanic)
      | FullNode children flags \<Rightarrow>
          if unat (key ! 0) < length children
          then fbind (insertTrie db fuel (children ! unat (key ! 0)) (pre @ [key ! 0]) (drop 1 key) val)
                 (\<lambda>(dirty, nn).
                    Some (Inr (if \<not> dirty then (False, n)
                               else (True, FullNode (children[unat (key ! 0) := nn]) newFlag))))
          else Some (Inl TriePanic)
      | NilNode \<Rightarrow> Some (Inr (True, ShortNode key val newFlag))
      | HashNode h \<Rightarrow>
          (case resolveHash db h pre of
             Inl e \<Rightarrow> Some (Inl e)
           | Inr rn \<Rightarrow>
               fbind (insertTrie db fuel rn pre key val)
                 (\<lambda>(dirty, nn). Some (Inr (if \<not> dirty then (False, rn) else (True, nn)))))
      | ValueNode _ \<Rightarrow> Some (Inl TriePanic)))"

subsection \<open>Deletion\<close>

text \<open>
  The loop over the children of a full node: \<open>pos\<close> is the index of the single child that
  is left, \<open>-2\<close> when there are at least two and \<open>-1\<close> when there is none.
\<close>

fun singleChild :: "node list \<Rightarrow> nat \<Rightarrow> int \<Rightarrow> int" where
  "singleChild [] i pos = pos"
| "singleChild (cld # cs) i pos =
     (if cld \<noteq> NilNode
      then if pos = -1 then singleChild cs (Suc i) (int i) else -2
      else singleChild cs (Suc i) pos)"

definition reduceFull :: "node_db \<Rightarrow> node list \<Rightarrow> bytes \<Rightarrow> trie_error + bool \<times> node" where
  "reduceFull db children pre =
     (let pos = singleChild children 0 (-1) in
      if pos \<ge> 0
      then let child = children ! nat pos;
               single = Inr (True, ShortNode [of_int pos] child newFlag)
           in if pos \<noteq> 16
              then (case resolve db child pre of
                      Inl e \<Rightarrow> Inl e
                    | Inr cnode \<Rightarrow>
                        (case cnode of
                           ShortNode ckey cval _ \<Rightarrow>
                             Inr (True, ShortNode (of_int pos # ckey) cval newFlag)
                         | _ \<Rightarrow> single))
              else single
      else Inr (True, FullNode children newFlag))"

fun deleteTrie :: "node_db \<Rightarrow> nat \<Rightarrow> node \<Rightarrow> bytes \<Rightarrow> bytes \<Rightarrow>
    (trie_error + bool \<times> node) option" where
  "deleteTrie db 0 n pre key = None"
| "deleteTrie db (Suc fuel) n pre key =
     (case n of
        ShortNode nkey nval flags \<Rightarrow>
          let matchlen = prefixLen key nkey in
          if matchlen < length nkey then Some (Inr (False, n))
          else if matchlen = length key then Some (Inr (True, NilNode))
          else fbind (deleteTrie db fuel nval (pre @ take (length nkey) key)
                        (drop (length nkey) key))
                 (\<lambda>(dirty, child).
                    Some (Inr (if \<not> dirty then (False, n)
                       else (True, (case child of
                               ShortNode ckey cval _ \<Rightarrow> ShortNode (nkey @ ckey) cval newFlag
                             | _ \<Rightarrow> ShortNode nkey child newFlag)))))
      | FullNode children flags \<Rightarrow>
          if key \<noteq> [] \<and> unat (key ! 0) < length children
          then fbind (deleteTrie db fuel (children ! unat (key ! 0)) (pre @ [key ! 0]) (drop 1 key))
                 (\<lambda>(dirty, nn).
                    Some (if \<not> dirty then Inr (False, n)
                          else reduceFull db (children[unat (key ! 0) := nn]) pre))
          else Some (Inl TriePanic)
      | ValueNode _ \<Rightarrow> Some (Inr (True, NilNode))
      | NilNode \<Rightarrow> Some (Inr (False, NilNode))
      | HashNode h \<Rightarrow>
          (case resolveHash db h pre of
             Inl e \<Rightarrow> Some (Inl e)
           | Inr rn \<Rightarrow>
               fbind (deleteTrie db fuel rn pre key)
                 (\<lambda>(dirty, nn). Some (Inr (if \<not> dirty then (False, rn) else (True, nn))))))"

subsection \<open>The trie and its public operations\<close>

record trie =
  root :: node
  unhashed :: int

text \<open>Fuel for a key of HEX length \<open>n\<close>: two steps per nibble and one for the end.\<close>

definition keyFuel :: "bytes \<Rightarrow> nat" where
  "keyFuel k = 2 * length k + 2"

definition TryGet :: "node_db \<Rightarrow> trie \<Rightarrow> bytes \<Rightarrow> (trie_error + bytes option) option \<times> trie" where
  "TryGet db t key =
     (let k = keybytesToHex key in
      case tryGet db (keyFuel k) (root t) k 0 of
        Some (Inr (value, newroot, didResolve)) \<Rightarrow>
          (Some (Inr value), if didResolve then t\<lparr>root := newroot\<rparr> else t)
      | Some (Inl e) \<Rightarrow> (Some (Inl e), t)
      | None \<Rightarrow> (None, t))"

definition setRoot :: "trie \<Rightarrow> (trie_error + bool \<times> node) option \<Rightarrow>
    (trie_error + unit) option \<times> trie" where
  "setRoot t r =
     (case r of
        Some (Inr (_, n)) \<Rightarrow> (Some (Inr ()), t\<lparr>root := n\<rparr>)
      | Some (Inl e) \<Rightarrow> (Some (Inl e), t)
      | None \<Rightarrow> (None, t))"

definition TryUpdate :: "node_db \<Rightarrow> trie \<Rightarrow> bytes \<Rightarrow> bytes \<Rightarrow>
    (trie_error + unit) option \<times> trie" where
  "TryUpdate db t key val =
     (let t = t\<lparr>unhashed := unhashed t + 1\<rparr>;
          k = keybytesToHex key
      in if length val \<noteq> 0
         then setRoot t (insertTrie db (keyFuel k) (root t) [] k (ValueNode val))
         else setRoot t (deleteTrie db (keyFuel k) (root t) [] k))"

definition TryDelete :: "node_db \<Rightarrow> trie \<Rightarrow> bytes \<Rightarrow> (trie_error + unit) option \<times> trie" where
  "TryDelete db t key =
     (let t = t\<lparr>unhashed := unhashed t + 1\<rparr>;
          k = keybytesToHex key
      in setRoot t (deleteTrie db (keyFuel k) (root t) [] k))"

subsection \<open>What a partly loaded trie contains\<close>

inductive holds :: "node_db \<Rightarrow> node \<Rightarrow> bytes \<Rightarrow> bytes option \<Rightarrow> bool" for db where
  nil: "holds db NilNode k None"
| val: "holds db (ValueNode v) k (Some v)"
| miss: "take (length nkey) k \<noteq> nkey \<Longrightarrow> holds db (ShortNode nkey nval fl) k None"
| short: "holds db nval k r \<Longrightarrow> holds db (ShortNode nkey nval fl) (nkey @ k) r"
| full: "unat x < length cs \<Longrightarrow> holds db (cs ! unat x) k r \<Longrightarrow> holds db (FullNode cs fl) (x # k) r"
| hash: "db (BytesToHash h) = Some n \<Longrightarrow> holds db n k r \<Longrightarrow> holds db (HashNode h) k r"

inductive_simps holds_simps [simp]:
  "holds db NilNode k r"
  "holds db (ValueNode v) k r"
  "holds db (HashNode h) k r"
  "holds db (FullNode cs fl) (x # k) r"

inductive_simps holds_short: "holds db (ShortNode nkey nval fl) k r"

lemma holds_short_app [simp]:
  "holds db (ShortNode nkey nval fl) (nkey @ k) r \<longleftrightarrow> holds db nval k r"
  by (auto simp: holds_short)

lemma holds_short_miss:
  "take (length nkey) k \<noteq> nkey \<Longrightarrow> holds db (ShortNode nkey nval fl) k r \<longleftrightarrow> r = None"
  by (auto simp: holds_short)

lemma holds_det: "holds db n k r \<Longrightarrow> holds db n k r' \<Longrightarrow> r = r'"
proof (induction arbitrary: r' rule: holds.induct)
  case (miss nkey k nval fl)
  then show ?case by (simp add: holds_short_miss)
qed auto

subsection \<open>Minimal form\<close>

fun isFull :: "node \<Rightarrow> bool" where
  "isFull (FullNode _ _) = True"
| "isFull _ = False"

fun isHash :: "node \<Rightarrow> bool" where
  "isHash (HashNode _) = True"
| "isHash _ = False"

definition isValue :: "node \<Rightarrow> bool" where
  "isValue n \<longleftrightarrow> (\<exists>v. n = ValueNode v \<and> v \<noteq> [])"

text \<open>A node that can sit below a short node: a branch, or the hash of a branch.\<close>

definition isBranch :: "node_db \<Rightarrow> node \<Rightarrow> bool" where
  "isBranch db n \<longleftrightarrow> isFull n \<or> (\<exists>h. n = HashNode h \<and> (\<forall>m. db (BytesToHash h) = Some m \<longrightarrow> isFull m))"

function minimal :: "node_db \<Rightarrow> node \<Rightarrow> bool" where
  "minimal db NilNode = False"
| "minimal db (ValueNode v) = False"
| "minimal db (HashNode h) = True"
| "minimal db (ShortNode k v fl) =
     (if hasTerm k then hexkey k \<and> isValue v
      else k \<noteq> [] \<and> nibbles k \<and> isBranch db v \<and> minimal db v)"
| "minimal db (FullNode cs fl) =
     (length cs = 17 \<and> (\<forall>c \<in> set (take 16 cs). c = NilNode \<or> minimal db c)
      \<and> (cs ! 16 = NilNode \<or> isValue (cs ! 16))
      \<and> 2 \<le> length (filter (\<lambda>c. c \<noteq> NilNode) cs))"
  by pat_completeness auto
termination
proof (relation "measure (\<lambda>(db, n). size n)")
  fix db :: node_db and cs :: "node list" and fl c
  assume "c \<in> set (take 16 cs)"
  then have "c \<in> set cs" by (rule in_set_takeD)
  then show "((db, c), (db, FullNode cs fl)) \<in> measure (\<lambda>(db, n). size n)"
    using size_list_estimation' [of c cs "size c" size] by auto
qed auto

definition dbOk :: "node_db \<Rightarrow> bool" where
  "dbOk db \<longleftrightarrow> (\<forall>h n. db h = Some n \<longrightarrow> minimal db n \<and> \<not> isHash n)"

definition rootOk :: "node_db \<Rightarrow> node \<Rightarrow> bool" where
  "rootOk db n \<longleftrightarrow> n = NilNode \<or> minimal db n"

lemma hexkey_Cons: "hexkey (x # k) \<longleftrightarrow> (if k = [] then x = 16 else unat x < 16 \<and> hexkey k)"
  by (auto simp: hexkey_def)

lemma hexkey_append: "k \<noteq> [] \<Longrightarrow> hexkey (p @ k) \<longleftrightarrow> nibbles p \<and> hexkey k"
  by (auto simp: hexkey_def butlast_append)

lemma hexkey_hasTerm: "hexkey k \<Longrightarrow> hasTerm k"
  by (simp add: hexkey_def hasTerm_iff)

lemma hexkey_not_nibbles: "hexkey k \<Longrightarrow> \<not> nibbles k"
  using hasTerm_nibbles hexkey_hasTerm by blast

text \<open>No HEX key is a proper prefix of another.\<close>

lemma hexkey_prefix_eq:
  assumes "hexkey k" "hexkey (k @ l)"
  shows "l = []"
proof (rule ccontr)
  assume "l \<noteq> []"
  with assms(2) have "nibbles k" by (simp add: hexkey_append)
  with assms(1) show False by (simp add: hexkey_not_nibbles)
qed

lemma minimal_full_child:
  assumes "minimal db (FullNode cs fl)" "unat x < 16"
  shows "cs ! unat x = NilNode \<or> minimal db (cs ! unat x)"
proof -
  have "cs ! unat x \<in> set (take 16 cs)"
    using assms by (auto simp: in_set_conv_nth intro!: exI [of _ "unat x"])
  with assms show ?thesis by auto
qed


subsection \<open>Insertion\<close>

definition tailNode :: "bytes \<Rightarrow> node \<Rightarrow> node" where
  "tailNode k v = (if k = [] then v else ShortNode k v newFlag)"

lemma insert_nil: "fuel > 0 \<Longrightarrow> insertTrie db fuel NilNode pre k v = Some (Inr (True, tailNode k v))"
  by (cases fuel) (auto simp: tailNode_def)

lemma holds_tailNode:
  "holds db (ShortNode (p @ k) v fl) (p @ l) r \<longleftrightarrow> holds db (tailNode k v) l r"
proof (cases "take (length k) l = k")
  case True
  then obtain m where "l = k @ m" by (metis append_take_drop_id)
  then show ?thesis
    using holds_short_app [of db "p @ k" v fl m r] by (auto simp: tailNode_def)
next
  case False
  then have "holds db (ShortNode (p @ k) v fl) (p @ l) r \<longleftrightarrow> r = None"
    by (intro holds_short_miss) simp
  moreover have "holds db (tailNode k v) l r \<longleftrightarrow> r = None"
    using False by (auto simp: tailNode_def holds_short_miss)
  ultimately show ?thesis by simp
qed

lemma minimal_tailNode:
  assumes "minimal db (ShortNode (p @ x # k) v fl)"
  shows "if k = [] \<and> x = 16 then isValue (tailNode k v)
         else unat x < 16 \<and> minimal db (tailNode k v)"
proof (cases "hasTerm (p @ x # k)")
  case True
  with assms have hk: "hexkey (p @ x # k)" and v: "isValue v" by auto
  from hk have xk: "hexkey (x # k)" by (simp add: hexkey_append)
  show ?thesis
  proof (cases "k = []")
    case True
    with xk v show ?thesis by (simp add: hexkey_Cons tailNode_def)
  next
    case False
    with xk have "unat x < 16" "hexkey k" by (simp_all add: hexkey_Cons)
    with False v show ?thesis by (simp add: tailNode_def hexkey_hasTerm)
  qed
next
  case False
  with assms have nb: "nibbles (p @ x # k)" and v: "isBranch db v" "minimal db v" by auto
  from nb have "unat x < 16" "nibbles k" by simp_all
  with v hasTerm_nibbles [of k] show ?thesis by (auto simp: tailNode_def)
qed

lemma length_filter_update2:
  assumes "i \<noteq> j" "i < length xs" "j < length xs" "P a" "P b"
  shows "2 \<le> length (filter P (xs[i := a, j := b]))"
proof -
  let ?ys = "xs[i := a, j := b]"
  have "{i, j} \<subseteq> {n. n < length ?ys \<and> P (?ys ! n)}" using assms by auto
  then have "card {i, j} \<le> length (filter P ?ys)"
    unfolding length_filter_conv_card by (rule card_mono [rotated]) simp
  with assms show ?thesis by simp
qed

lemma minimal_branch:
  assumes "i \<noteq> j" "i < 17" "j < 17"
    and "if i = 16 then isValue a else minimal db a"
    and "if j = 16 then isValue b else minimal db b"
  shows "minimal db (FullNode (emptyChildren[i := a, j := b]) fl)"
proof -
  let ?cs = "emptyChildren[i := a, j := b]"
  have nn: "a \<noteq> NilNode" "b \<noteq> NilNode" using assms by (auto simp: isValue_def split: if_splits)
  have "c = NilNode \<or> minimal db c" if "c \<in> set (take 16 ?cs)" for c
  proof -
    from that obtain n where "n < 16" "c = ?cs ! n"
      by (auto simp: in_set_conv_nth emptyChildren_def)
    with assms show ?thesis by (auto simp: emptyChildren_def nth_list_update split: if_splits)
  qed
  moreover have "?cs ! 16 = NilNode \<or> isValue (?cs ! 16)"
    using assms by (auto simp: emptyChildren_def nth_list_update)
  moreover have "2 \<le> length (filter (\<lambda>c. c \<noteq> NilNode) ?cs)"
    using assms nn by (intro length_filter_update2) (auto simp: emptyChildren_def)
  ultimately show ?thesis by (simp add: emptyChildren_def)
qed

lemma length_filter_update:
  assumes "i < length xs" "P a"
  shows "length (filter P xs) \<le> length (filter P (xs[i := a]))"
  unfolding length_filter_conv_card
  using assms by (intro card_mono) (auto simp: nth_list_update)

lemma minimal_full_update:
  assumes "minimal db (FullNode cs fl)" "i < 17" "if i = 16 then isValue a else minimal db a"
  shows "minimal db (FullNode (cs[i := a]) fl')"
proof -
  have a: "a \<noteq> NilNode" using assms by (auto simp: isValue_def split: if_splits)
  have len: "length cs = 17" using assms by simp
  have "c = NilNode \<or> minimal db c" if "c \<in> set (take 16 (cs[i := a]))" for c
  proof -
    from that len obtain n where n: "n < 16" "c = cs[i := a] ! n"
      by (auto simp: in_set_conv_nth)
    then have "cs ! n \<in> set (take 16 cs)" using len by (auto simp: in_set_conv_nth intro!: exI [of _ n])
    with assms n len show ?thesis by (auto simp: nth_list_update split: if_splits)
  qed
  moreover have "cs[i := a] ! 16 = NilNode \<or> isValue (cs[i := a] ! 16)"
    using assms by (auto simp: nth_list_update)
  moreover have "2 \<le> length (filter (\<lambda>c. c \<noteq> NilNode) (cs[i := a]))"
    using length_filter_update [of i cs "\<lambda>c. c \<noteq> NilNode" a] assms len a by simp
  ultimately show ?thesis using len by simp
qed


text \<open>The keys that can be looked up at a position: the empty key at a value position,
  HEX keys elsewhere.\<close>

definition sameKind :: "bytes \<Rightarrow> bytes \<Rightarrow> bool" where
  "sameKind key k \<longleftrightarrow> (if key = [] then k = [] else hexkey k)"

definition posOk :: "node_db \<Rightarrow> node \<Rightarrow> bytes \<Rightarrow> bool" where
  "posOk db n key \<longleftrightarrow>
     (if key = [] then n = NilNode \<or> isValue n else hexkey key \<and> rootOk db n)"

definition missingOnly :: "node_db \<Rightarrow> trie_error \<Rightarrow> bool" where
  "missingOnly db e \<longleftrightarrow> (\<exists>h p. e = MissingNodeError h p \<and> db h = None)"

definition sameHolds :: "node_db \<Rightarrow> bytes \<Rightarrow> node \<Rightarrow> node \<Rightarrow> bool" where
  "sameHolds db key n n' \<longleftrightarrow> (\<forall>k r. sameKind key k \<longrightarrow> holds db n' k r = holds db n k r)"

definition updHolds :: "node_db \<Rightarrow> bytes \<Rightarrow> bytes option \<Rightarrow> node \<Rightarrow> node \<Rightarrow> bool" where
  "updHolds db key w n n' \<longleftrightarrow>
     (\<forall>k r. sameKind key k \<longrightarrow>
        holds db n' k r = (if k = key then r = w else holds db n k r))"

definition nodeAt :: "node_db \<Rightarrow> bytes \<Rightarrow> node \<Rightarrow> bool" where
  "nodeAt db key n \<longleftrightarrow> (if key = [] then isValue n else minimal db n)"

fun insertPost :: "node_db \<Rightarrow> node \<Rightarrow> bytes \<Rightarrow> bytes \<Rightarrow> trie_error + bool \<times> node \<Rightarrow> bool" where
  "insertPost db n key w (Inl e) = missingOnly db e"
| "insertPost db n key w (Inr (d, n')) \<longleftrightarrow>
     nodeAt db key n' \<and> updHolds db key (Some w) n n' \<and> (\<not> d \<longrightarrow> sameHolds db key n n')
     \<and> (isBranch db n \<longrightarrow> isBranch db n')"

lemma updHolds_trans_same: "updHolds db key w n n' \<Longrightarrow> sameHolds db key n n' \<Longrightarrow> updHolds db key w n n"
  by (auto simp: updHolds_def sameHolds_def)

lemma resolve_dbOk:
  assumes "dbOk db" "db h = Some n"
  shows "minimal db n" "\<not> isHash n"
  using assms by (auto simp: dbOk_def)

lemma sameHolds_hash:
  "db (BytesToHash h) = Some m \<Longrightarrow> holds db (HashNode h) k r = holds db m k r"
  by simp

lemma updHolds_short:
  assumes "key = nkey @ key'" "key' \<noteq> []" "hexkey key" "updHolds db key' w nval nn"
  shows "updHolds db key w (ShortNode nkey nval fl) (ShortNode nkey nn fl')"
  unfolding updHolds_def
proof (intro allI impI)
  fix k r
  assume "sameKind key k"
  with assms have hk: "hexkey k" by (auto simp: sameKind_def)
  show "holds db (ShortNode nkey nn fl') k r =
    (if k = key then r = w else holds db (ShortNode nkey nval fl) k r)"
  proof (cases "take (length nkey) k = nkey")
    case True
    then obtain k' where k: "k = nkey @ k'" by (metis append_take_drop_id)
    have nb: "nibbles nkey" using assms by (simp add: hexkey_append)
    have "k' \<noteq> []" using k hk nb hexkey_not_nibbles [of nkey] by auto
    with hk k assms have "sameKind key' k'" by (simp add: sameKind_def hexkey_append)
    with assms(4) k assms(1) show ?thesis by (simp add: updHolds_def)
  next
    case False
    with assms(1) have "k \<noteq> key" by auto
    with False show ?thesis by (simp add: holds_short_miss)
  qed
qed

lemma updHolds_full:
  assumes "key = x # key'" "hexkey key" "length cs = 17"
    and upd: "updHolds db key' w (cs ! unat x) nn"
  shows "updHolds db key w (FullNode cs fl) (FullNode (cs[unat x := nn]) fl')"
  unfolding updHolds_def
proof (intro allI impI)
  fix k r
  assume "sameKind key k"
  with assms have hk: "hexkey k" by (auto simp: sameKind_def)
  then obtain y k' where k: "k = y # k'" by (cases k) (auto simp: hexkey_def)
  have xy: "unat x < 17" "unat y < 17"
    using assms(1,2) hk k by (auto simp: hexkey_Cons split: if_splits)
  show "holds db (FullNode (cs[unat x := nn]) fl') k r =
    (if k = key then r = w else holds db (FullNode cs fl) k r)"
  proof (cases "x = y")
    case True
    with assms(1,2) hk k have "sameKind key' k'"
      by (auto simp: sameKind_def hexkey_Cons split: if_splits)
    with upd True k assms(1,3) xy show ?thesis by (simp add: updHolds_def)
  next
    case False
    then have "unat x \<noteq> unat y" by (simp add: word_unat_eq_iff)
    with False k assms(1,3) xy show ?thesis by simp
  qed
qed


definition branchOut :: "bytes \<Rightarrow> byte \<Rightarrow> node \<Rightarrow> byte \<Rightarrow> node \<Rightarrow> node" where
  "branchOut p y c1 x c2 =
     (let branch = FullNode (emptyChildren[unat y := c1, unat x := c2]) newFlag
      in if p = [] then branch else ShortNode p branch newFlag)"

lemma branchOut_minimal:
  assumes "minimal db (ShortNode (p @ y # nk) nval fl)" "hexkey (p @ x # key)" "x \<noteq> y" "w \<noteq> []"
  shows "minimal db (branchOut p y (tailNode nk nval) x (tailNode key (ValueNode w)))"
proof -
  have "minimal db (ShortNode (p @ x # key) (ValueNode w) fl)"
    using assms by (simp add: hexkey_hasTerm isValue_def)
  note c2 = minimal_tailNode [OF this] and c1 = minimal_tailNode [OF assms(1)]
  have nb: "nibbles p" using assms(2) by (simp add: hexkey_append)
  have "unat x \<noteq> unat y" using assms(3) by (simp add: word_unat_eq_iff)
  then have "minimal db (FullNode (emptyChildren
      [unat y := tailNode nk nval, unat x := tailNode key (ValueNode w)]) newFlag)"
    using c1 c2 by (intro minimal_branch) (auto split: if_splits)
  with nb hasTerm_nibbles [OF nb] show ?thesis
    by (auto simp: branchOut_def Let_def isBranch_def simp del: minimal.simps(5))
qed

lemma holds_leaf:
  assumes "sameKind key k" "key = [] \<or> hexkey key"
  shows "holds db (tailNode key (ValueNode w)) k r \<longleftrightarrow> r = (if k = key then Some w else None)"
proof (cases "take (length key) k = key")
  case True
  then obtain m where k: "k = key @ m" by (metis append_take_drop_id)
  with assms have "m = []"
    by (auto simp: sameKind_def split: if_splits dest: hexkey_prefix_eq)
  with k holds_short_app [of db key "ValueNode w" newFlag "[]" r] show ?thesis
    by (auto simp: tailNode_def)
next
  case False
  then show ?thesis by (auto simp: tailNode_def holds_short_miss)
qed

lemma branchOut_holds:
  assumes hk: "hexkey (p @ x # key)" and xy: "x \<noteq> y" and y17: "unat y < 17"
  shows "updHolds db (p @ x # key) (Some w) (ShortNode (p @ y # nk) nval fl)
           (branchOut p y (tailNode nk nval) x (tailNode key (ValueNode w)))"
    (is "updHolds db ?key _ ?n ?n'")
  unfolding updHolds_def
proof (intro allI impI)
  fix k r
  assume "sameKind ?key k"
  then have k: "hexkey k" by (simp add: sameKind_def)
  have nb: "nibbles p" and xk: "hexkey (x # key)" using hk by (simp_all add: hexkey_append)
  show "holds db ?n' k r = (if k = ?key then r = Some w else holds db ?n k r)"
  proof (cases "take (length p) k = p")
    case False
    then have "k \<noteq> ?key" "take (length (p @ y # nk)) k \<noteq> p @ y # nk" "p \<noteq> []"
      by (auto simp: take_add [symmetric] dest: arg_cong [of _ _ "take (length p)"])
    with False show ?thesis by (simp add: branchOut_def Let_def holds_short_miss)
  next
    case True
    then obtain k0 where k0: "k = p @ k0" by (metis append_take_drop_id)
    have "k0 \<noteq> []" using k k0 nb hexkey_not_nibbles [of p] by auto
    then obtain z l where zl: "k = p @ z # l" using k0 by (cases k0) auto
    have zk: "hexkey (z # l)" using k zl by (simp add: hexkey_append)
    let ?cs = "emptyChildren[unat y := tailNode nk nval, unat x := tailNode key (ValueNode w)]"
    have "holds db ?n' k r = holds db (FullNode ?cs newFlag) (z # l) r"
      by (simp add: branchOut_def Let_def zl)
    also have "\<dots> = holds db (?cs ! unat z) l r"
      using zk by (auto simp: emptyChildren_def hexkey_Cons split: if_splits)
    finally have lhs: "holds db ?n' k r = holds db (?cs ! unat z) l r" .
    have un: "unat a = unat b \<longleftrightarrow> a = b" for a b :: byte by (simp add: word_unat_eq_iff)
    have z17: "unat z < 17" "unat x < 17" using zk xk by (auto simp: hexkey_Cons split: if_splits)
    consider "z = x" | "z = y" | "z \<noteq> x" "z \<noteq> y" by blast
    then show ?thesis
    proof cases
      case 1
      then have miss: "holds db ?n k r = (r = None)"
        using xy by (simp add: zl holds_short_miss)
      have "sameKind key l" "key = [] \<or> hexkey key"
        using 1 xk zk by (auto simp: sameKind_def hexkey_Cons split: if_splits)
      from holds_leaf [OF this] 1 lhs z17 miss zl show ?thesis
        by (simp add: emptyChildren_def)
    next
      case 2
      then show ?thesis
        using lhs xy y17 z17 zl un [of x y] holds_tailNode [of db "p @ [y]" nk nval fl l r]
        by (simp add: emptyChildren_def)
    next
      case 3
      then show ?thesis
        using lhs z17 zl un [of z x] un [of z y] un [of x z] un [of y z]
        by (simp add: emptyChildren_def holds_short_miss)
    qed
  qed
qed


definition stepFuel :: "node \<Rightarrow> bytes \<Rightarrow> nat" where
  "stepFuel n key = 2 * length key + (if isHash n then 1 else 0)"

lemma insert_value_pos:
  assumes "n = NilNode \<or> isValue n" "w \<noteq> []"
  shows "\<exists>r. insertTrie db (Suc fuel) n pre [] (ValueNode w) = Some r \<and> insertPost db n [] w r"
  using assms
  by (auto simp: isValue_def nodeAt_def updHolds_def sameHolds_def sameKind_def isBranch_def)

lemma insert_nil_pos:
  assumes "hexkey key" "w \<noteq> []"
  shows "insertPost db NilNode key w (Inr (True, ShortNode key (ValueNode w) newFlag))"
proof -
  have ne: "key \<noteq> []" using assms by (auto simp: hexkey_def)
  then have t: "ShortNode key (ValueNode w) newFlag = tailNode key (ValueNode w)"
    by (simp add: tailNode_def)
  have "updHolds db key (Some w) NilNode (tailNode key (ValueNode w))"
    using assms by (auto simp: updHolds_def holds_leaf)
  with assms ne show ?thesis
    by (simp add: t [symmetric] nodeAt_def hexkey_hasTerm isValue_def isBranch_def)
qed

lemma insertPost_short:
  assumes "minimal db (ShortNode nkey nval fl)" "hexkey (nkey @ key)" "key \<noteq> []"
    and post: "insertPost db nval key w (Inr (d, nn))"
  shows "insertPost db (ShortNode nkey nval fl) (nkey @ key) w
           (Inr (if \<not> d then (False, ShortNode nkey nval fl) else (True, ShortNode nkey nn newFlag)))"
proof -
  have nb: "nibbles nkey" using assms by (simp add: hexkey_append)
  have m: "minimal db nn" and u: "updHolds db key (Some w) nval nn"
    and s: "\<not> d \<Longrightarrow> sameHolds db key nval nn" and br: "isBranch db nval \<Longrightarrow> isBranch db nn"
    using post assms(3) by (simp_all add: nodeAt_def)
  note us = updHolds_short [OF refl assms(3,2)]
  show ?thesis
  proof (cases d)
    case True
    with assms(1) nb hasTerm_nibbles [OF nb] m br us [OF u] show ?thesis
      by (simp add: nodeAt_def assms(3) isBranch_def)
  next
    case False
    with u s have "updHolds db key (Some w) nval nval" by (blast intro: updHolds_trans_same)
    from us [OF this] False assms(1,3) show ?thesis
      by (simp add: nodeAt_def sameHolds_def del: minimal.simps)
  qed
qed

lemma holds_flag: "holds db (ShortNode k v fl) l r \<longleftrightarrow> holds db (ShortNode k v fl') l r"
  by (simp add: holds_short)

lemma insertPost_leaf:
  assumes hk: "hexkey nkey" and min: "minimal db (ShortNode nkey nval fl)"
    and post: "insertPost db nval [] w (Inr (d, nn))"
  shows "insertPost db (ShortNode nkey nval fl) nkey w
           (Inr (if \<not> d then (False, ShortNode nkey nval fl) else (True, ShortNode nkey nn newFlag)))"
proof -
  have ht: "hasTerm nkey" and ne: "nkey \<noteq> []" using hk by (simp_all add: hexkey_hasTerm hexkey_def)
  obtain u where u: "nval = ValueNode u" "u \<noteq> []" using min ht by (auto simp: isValue_def)
  obtain v where v: "nn = ValueNode v" "v \<noteq> []" using post by (auto simp: isValue_def nodeAt_def)
  have vw: "v = w" using post by (auto simp: v updHolds_def sameKind_def)
  have uw: "u = w" if "\<not> d" using post that by (auto simp: v u vw sameHolds_def sameKind_def)
  have lf: "holds db (ShortNode nkey (ValueNode a) fl') k r \<longleftrightarrow>
      r = (if k = nkey then Some a else None)" if "hexkey k" for a fl' k r
    using holds_leaf [of nkey k db a r] that hk ne
    by (simp add: tailNode_def sameKind_def holds_flag [of db nkey _ newFlag k r fl'])
  have "updHolds db nkey (Some w) (ShortNode nkey (ValueNode a) fl) (ShortNode nkey (ValueNode w) fl')"
    for a fl' using ne by (simp add: updHolds_def sameKind_def lf)
  with ht hk ne u v vw uw show ?thesis
    by (cases d) (simp_all add: nodeAt_def isValue_def isBranch_def sameHolds_def)
qed

lemma insertPost_full:
  assumes min: "minimal db (FullNode cs fl)" and hk: "hexkey (x # key)"
    and post: "insertPost db (cs ! unat x) key w (Inr (d, nn))"
  shows "insertPost db (FullNode cs fl) (x # key) w
           (Inr (if \<not> d then (False, FullNode cs fl)
                 else (True, FullNode (cs[unat x := nn]) newFlag)))"
proof -
  have len: "length cs = 17" using min by simp
  have u: "updHolds db key (Some w) (cs ! unat x) nn"
    and s: "\<not> d \<Longrightarrow> sameHolds db key (cs ! unat x) nn" and at: "nodeAt db key nn"
    using post by simp_all
  have "unat x < 17 \<and> (if unat x = 16 then isValue nn else minimal db nn)"
    using hk at by (auto simp: nodeAt_def hexkey_Cons split: if_splits)
  then have m: "minimal db (FullNode (cs[unat x := nn]) newFlag)"
    using minimal_full_update [OF min, of "unat x" nn newFlag] by blast
  note uf = updHolds_full [OF refl hk len]
  show ?thesis
  proof (cases d)
    case True
    with m uf [OF u] show ?thesis by (simp add: nodeAt_def isBranch_def del: minimal.simps)
  next
    case False
    with u s have "updHolds db key (Some w) (cs ! unat x) (cs ! unat x)"
      by (blast intro: updHolds_trans_same)
    from uf [OF this] False min show ?thesis
      by (simp add: nodeAt_def sameHolds_def del: minimal.simps)
  qed
qed

text \<open>The induction over the fuel, one lemma per kind of node.\<close>

definition insertOk :: "node_db \<Rightarrow> bytes \<Rightarrow> nat \<Rightarrow> bool" where
  "insertOk db w fuel \<longleftrightarrow>
     (\<forall>n pre key. posOk db n key \<longrightarrow> stepFuel n key < fuel \<longrightarrow>
        (\<exists>r. insertTrie db fuel n pre key (ValueNode w) = Some r \<and> insertPost db n key w r))"

lemma insertOkD:
  "insertOk db w fuel \<Longrightarrow> posOk db n key \<Longrightarrow> stepFuel n key < fuel \<Longrightarrow>
     \<exists>r. insertTrie db fuel n pre key (ValueNode w) = Some r \<and> insertPost db n key w r"
  by (simp add: insertOk_def)

lemma insert_hash_step:
  assumes db: "dbOk db" and IH: "insertOk db w fuel" and hk: "hexkey key"
    and fuel: "stepFuel (HashNode h) key < Suc fuel"
  shows "\<exists>r. insertTrie db (Suc fuel) (HashNode h) pre key (ValueNode w) = Some r \<and>
           insertPost db (HashNode h) key w r"
proof (cases "db (BytesToHash h)")
  case None
  then show ?thesis using hk by (simp add: resolveHash_def missingOnly_def hexkey_def)
next
  case (Some m)
  have ne: "key \<noteq> []" using hk by (simp add: hexkey_def)
  have "posOk db m key" "stepFuel m key < fuel"
    using resolve_dbOk [OF db Some] fuel ne hk
    by (simp_all add: posOk_def rootOk_def stepFuel_def)
  from insertOkD [OF IH this, of pre] obtain r where
    r: "insertTrie db fuel m pre key (ValueNode w) = Some r" "insertPost db m key w r" by blast
  have br: "isBranch db (HashNode h) \<Longrightarrow> isBranch db m" using Some by (auto simp: isBranch_def)
  have nm: "nodeAt db key m" using resolve_dbOk [OF db Some] ne by (simp add: nodeAt_def)
  show ?thesis
  proof (cases r)
    case (Inl e)
    with r Some ne show ?thesis by (simp add: resolveHash_def)
  next
    case (Inr p)
    then obtain d nn where p: "r = Inr (d, nn)" by (cases p) auto
    have "insertPost db (HashNode h) key w (Inr (if \<not> d then (False, m) else (True, nn)))"
      using r(2) p Some br nm by (auto simp: updHolds_def sameHolds_def)
    with r p Some ne show ?thesis
      by (cases d) (simp_all add: resolveHash_def del: insertPost.simps)
  qed
qed

lemma insert_full_step:
  assumes IH: "insertOk db w fuel" and min: "minimal db (FullNode cs fl)" and hk: "hexkey (x # key)"
    and fuel: "stepFuel (FullNode cs fl) (x # key) < Suc fuel"
  shows "\<exists>r. insertTrie db (Suc fuel) (FullNode cs fl) pre (x # key) (ValueNode w) = Some r \<and>
           insertPost db (FullNode cs fl) (x # key) w r"
proof -
  have pos: "posOk db (cs ! unat x) key"
    using hk min minimal_full_child [OF min, of x]
    by (auto simp: posOk_def rootOk_def hexkey_Cons split: if_splits)
  have "stepFuel (cs ! unat x) key < fuel" using fuel by (simp add: stepFuel_def)
  from insertOkD [OF IH pos this, of "pre @ [x]"] obtain r where
    r: "insertTrie db fuel (cs ! unat x) (pre @ [x]) key (ValueNode w) = Some r"
       "insertPost db (cs ! unat x) key w r" by blast
  have x17: "unat x < length cs" using hk min by (auto simp: hexkey_Cons split: if_splits)
  show ?thesis
  proof (cases r)
    case (Inl e)
    with r x17 show ?thesis by simp
  next
    case (Inr p)
    then obtain d nn where p: "r = Inr (d, nn)" by (cases p) auto
    have "insertPost db (FullNode cs fl) (x # key) w (Inr (if \<not> d then (False, FullNode cs fl)
            else (True, FullNode (cs[unat x := nn]) newFlag)))"
      using insertPost_full [OF min hk] r(2) p by blast
    with r p x17 show ?thesis by (cases d) (simp_all del: insertPost.simps)
  qed
qed

lemma prefixLen_split:
  assumes "prefixLen key nkey < length key" "prefixLen key nkey < length nkey"
  obtains p x key' y nk where "key = p @ x # key'" "nkey = p @ y # nk" "x \<noteq> y"
    "length p = prefixLen key nkey"
proof
  let ?m = "prefixLen key nkey"
  show "key = take ?m key @ key ! ?m # drop (Suc ?m) key" using assms by (simp add: id_take_nth_drop)
  show "nkey = take ?m key @ nkey ! ?m # drop (Suc ?m) nkey"
    using id_take_nth_drop [OF assms(2)] unfolding take_prefixLen [of key nkey, symmetric] .
  show "key ! ?m \<noteq> nkey ! ?m" using assms by (rule prefixLen_neq)
  show "length (take ?m key) = ?m" using assms by simp
qed

lemma prefixLen_full:
  assumes "prefixLen key nkey = length nkey"
  obtains key' where "key = nkey @ key'"
  using take_prefixLen [of key nkey] assms that [of "drop (length nkey) key"]
  by (metis append_take_drop_id order_refl take_all)

lemma insert_branch_step:
  assumes min: "minimal db (ShortNode nkey nval fl)" and hk: "hexkey key" and w: "w \<noteq> []"
    and m: "prefixLen key nkey < length nkey" and fuel: "0 < fuel"
  shows "\<exists>r. insertTrie db (Suc fuel) (ShortNode nkey nval fl) pre key (ValueNode w) = Some r \<and>
           insertPost db (ShortNode nkey nval fl) key w r"
proof -
  have tkey: "take (prefixLen key nkey) key = take (prefixLen key nkey) nkey"
    by (rule take_prefixLen)
  have lt: "prefixLen key nkey < length key"
  proof (rule ccontr)
    assume "\<not> ?thesis"
    then have e: "prefixLen key nkey = length key" using prefixLen_le(1) [of key nkey] by simp
    with tkey have "nkey = key @ drop (length key) nkey" by (metis append_take_drop_id order_refl take_all)
    moreover have "drop (length key) nkey \<noteq> []" using e m by simp
    ultimately have "nibbles key"
      using min hexkey_append [of "drop (length key) nkey" key]
      by (metis minimal.simps(4) nibbles_simps(3))
    with hk show False by (simp add: hexkey_not_nibbles)
  qed
  from lt m obtain p x key' y nk where
    sp: "key = p @ x # key'" "nkey = p @ y # nk" "x \<noteq> y" "length p = prefixLen key nkey"
    by (rule prefixLen_split)
  have y17: "unat y < 17" and x17: "unat x < 17"
    using minimal_tailNode [of db p y nk nval fl] min hk sp(1,2)
    by (auto simp: hexkey_append hexkey_Cons split: if_splits)
  have pl: "prefixLen (p @ x # key') (p @ y # nk) = length p" using sp by simp
  have ins: "insertTrie db (Suc fuel) (ShortNode nkey nval fl) pre key (ValueNode w) =
      Some (Inr (True, branchOut p y (tailNode nk nval) x (tailNode key' (ValueNode w))))"
    using fuel x17 y17 pl
    by (simp add: sp(1,2) insert_nil branchOut_def Let_def)
  have "updHolds db key (Some w) (ShortNode nkey nval fl)
      (branchOut p y (tailNode nk nval) x (tailNode key' (ValueNode w)))"
    unfolding sp(1,2) by (rule branchOut_holds) (use hk sp y17 in simp_all)
  moreover have "minimal db (branchOut p y (tailNode nk nval) x (tailNode key' (ValueNode w)))"
    by (rule branchOut_minimal [of db p y nk nval fl]) (use min hk w sp in simp_all)
  ultimately show ?thesis
    using ins sp(1) by (simp add: nodeAt_def isBranch_def del: minimal.simps)
qed


lemma insert_short_step:
  assumes IH: "insertOk db w fuel" and min: "minimal db (ShortNode nkey nval fl)"
    and hk: "hexkey key" and w: "w \<noteq> []"
    and fuel: "stepFuel (ShortNode nkey nval fl) key < Suc fuel"
  shows "\<exists>r. insertTrie db (Suc fuel) (ShortNode nkey nval fl) pre key (ValueNode w) = Some r \<and>
           insertPost db (ShortNode nkey nval fl) key w r"
proof (cases "prefixLen key nkey = length nkey")
  case False
  then have "prefixLen key nkey < length nkey" using prefixLen_le(2) [of key nkey] by simp
  moreover have "0 < fuel" using hk fuel by (cases key) (auto simp: hexkey_def stepFuel_def)
  ultimately show ?thesis using insert_branch_step [OF min hk w] by blast
next
  case True
  then obtain key' where key: "key = nkey @ key'" by (rule prefixLen_full)
  have nk: "nkey \<noteq> []" using min by (auto simp: hexkey_def split: if_splits)
  have pos: "posOk db nval key'"
  proof (cases "hasTerm nkey")
    case True
    with min hk key have "key' = []" "isValue nval" by (auto dest: hexkey_prefix_eq)
    then show ?thesis by (simp add: posOk_def)
  next
    case False
    with min have "nibbles nkey" "minimal db nval" by auto
    moreover from this hk key have "key' \<noteq> []" by (auto simp: hexkey_not_nibbles)
    ultimately show ?thesis using hk key by (simp add: posOk_def hexkey_append rootOk_def)
  qed
  have "stepFuel nval key' < fuel" using fuel key nk by (cases nkey) (auto simp: stepFuel_def)
  from insertOkD [OF IH pos this, of "pre @ nkey"] obtain r where
    r: "insertTrie db fuel nval (pre @ nkey) key' (ValueNode w) = Some r"
       "insertPost db nval key' w r" by blast
  show ?thesis
  proof (cases r)
    case (Inl e)
    with r True key nk show ?thesis by simp
  next
    case (Inr p)
    then obtain d nn where p: "r = Inr (d, nn)" by (cases p) auto
    have "insertPost db (ShortNode nkey nval fl) key w
        (Inr (if \<not> d then (False, ShortNode nkey nval fl) else (True, ShortNode nkey nn newFlag)))"
    proof (cases "key' = []")
      case False
      with insertPost_short [OF min] hk key r(2) p show ?thesis by blast
    next
      case True
      with hk key r(2) p insertPost_leaf [OF _ min, of w d nn] show ?thesis
        by (simp only: append_Nil2)
    qed
    with r p True key nk show ?thesis by (cases d) (simp_all del: insertPost.simps)
  qed
qed

lemma insert_correct:
  assumes db: "dbOk db" and w: "w \<noteq> []"
  shows "insertOk db w fuel"
proof (induction fuel)
  case 0
  then show ?case by (simp add: insertOk_def)
next
  case (Suc fuel)
  have "\<exists>r. insertTrie db (Suc fuel) n pre key (ValueNode w) = Some r \<and> insertPost db n key w r"
    if pos: "posOk db n key" and fuel: "stepFuel n key < Suc fuel" for n pre key
  proof (cases "key = []")
    case True
    with pos w show ?thesis by (simp only: posOk_def simp_thms if_True insert_value_pos)
  next
    case False
    with pos have hk: "hexkey key" and ok: "rootOk db n" by (simp_all add: posOk_def)
    show ?thesis
    proof (cases n)
      case NilNode
      with False insert_nil_pos [OF hk w] show ?thesis by simp
    next
      case (ValueNode v)
      with ok show ?thesis by (simp add: rootOk_def)
    next
      case (HashNode h)
      with insert_hash_step [OF db Suc hk] fuel show ?thesis by blast
    next
      case (FullNode cs fl)
      with False ok hk fuel show ?thesis
        by (cases key) (auto simp only: rootOk_def node.distinct simp_thms intro!: insert_full_step [OF Suc])
    next
      case (ShortNode nkey nval fl)
      with insert_short_step [OF Suc _ hk w] ok fuel show ?thesis
        by (simp only: rootOk_def node.distinct simp_thms)
    qed
  qed
  then show ?case by (simp only: insertOk_def) blast
qed

subsection \<open>Deletion\<close>

lemma singleChild_ge:
  "pos \<noteq> -1 \<Longrightarrow> singleChild cs i pos = (if \<forall>c \<in> set cs. c = NilNode then pos else -2)"
  by (induction cs arbitrary: i) auto

lemma singleChild_cases:
  fixes cs :: "node list"
  obtains (none) "singleChild cs i (-1) = -1" "\<forall>c \<in> set cs. c = NilNode"
  | (one) j where "singleChild cs i (-1) = int (i + j)" "j < length cs" "cs ! j \<noteq> NilNode"
      "\<And>m. m < length cs \<Longrightarrow> m \<noteq> j \<Longrightarrow> cs ! m = NilNode"
  | (more) "singleChild cs i (-1) = -2" "2 \<le> length (filter (\<lambda>c. c \<noteq> NilNode) cs)"
proof (induction cs arbitrary: i thesis)
  case Nil
  then show ?case by simp
next
  case (Cons c cs)
  show ?case
  proof (cases "c = NilNode")
    case False
    show ?thesis
    proof (cases "\<forall>c \<in> set cs. c = NilNode")
      case True
      with False have "singleChild (c # cs) i (-1) = int (i + 0)"
        by (simp add: singleChild_ge)
      moreover have "(c # cs) ! m = NilNode" if "m < length (c # cs)" "m \<noteq> 0" for m
        using True that by (cases m) auto
      ultimately show ?thesis using False Cons.prems(2) [of 0] by simp
    next
      case ex: False
      then have "filter (\<lambda>c. c \<noteq> NilNode) cs \<noteq> []" by (simp add: filter_empty_conv)
      then have "1 \<le> length (filter (\<lambda>c. c \<noteq> NilNode) cs)" by (simp add: Suc_leI)
      with ex False Cons.prems(3) show ?thesis by (simp add: singleChild_ge)
    qed
  next
    case True
    show ?thesis
    proof (rule Cons.IH [of "Suc i"], goal_cases)
      case 1
      with True Cons.prems(1) show ?case by simp
    next
      case (2 j)
      have "(c # cs) ! m = NilNode" if "m < length (c # cs)" "m \<noteq> Suc j" for m
        using 2 that True by (cases m) auto
      with 2 True Cons.prems(2) [of "Suc j"] show ?case by simp
    next
      case 3
      with True Cons.prems(3) show ?case by simp
    qed
  qed
qed

fun deletePost :: "node_db \<Rightarrow> node \<Rightarrow> bytes \<Rightarrow> trie_error + bool \<times> node \<Rightarrow> bool" where
  "deletePost db n key (Inl e) = missingOnly db e"
| "deletePost db n key (Inr (d, n')) \<longleftrightarrow>
     (if key = [] then n' = NilNode else rootOk db n') \<and> updHolds db key None n n'
     \<and> (\<not> d \<longrightarrow> sameHolds db key n n' \<and> (n' = NilNode \<longrightarrow> n = NilNode))
     \<and> (d \<and> isBranch db n \<longrightarrow> n' \<noteq> NilNode \<and> \<not> isHash n')"

lemma unat_of_int_index: "j < 17 \<Longrightarrow> unat (of_int (int j) :: byte) = j"
  by (simp add: unat_of_nat take_bit_eq_mod)

lemma sameHolds_single:
  assumes len: "length cs = 17" and j: "j < 17" "\<And>m. m < 17 \<Longrightarrow> m \<noteq> j \<Longrightarrow> cs ! m = NilNode"
    and key: "key \<noteq> []" and c: "\<And>l r. holds db (cs ! j) l r \<longleftrightarrow> holds db (tailNode k v) l r"
  shows "sameHolds db key (FullNode cs fl) (ShortNode (of_int (int j) # k) v fl')"
  unfolding sameHolds_def
proof (intro allI impI)
  fix l r
  assume "sameKind key l"
  with key obtain z l' where l: "l = z # l'" and hk: "hexkey (z # l')"
    by (cases l) (auto simp: sameKind_def hexkey_def)
  have z: "unat z < 17" using hk by (auto simp: hexkey_Cons split: if_splits)
  let ?x = "of_int (int j) :: byte"
  show "holds db (ShortNode (?x # k) v fl') l r = holds db (FullNode cs fl) l r"
  proof (cases "z = ?x")
    case True
    then have "unat z = j" using unat_of_int_index [OF j(1)] by simp
    then show ?thesis
      using holds_tailNode [of db "[?x]" k v fl' l' r] c [of l' r] True z len l by simp
  next
    case False
    then have "unat z \<noteq> j" using unat_of_int_index [OF j(1)] by (metis word_unat_eq_iff)
    with j(2) z have "cs ! unat z = NilNode" by simp
    with False len z l show ?thesis by (simp add: holds_short_miss)
  qed
qed

text \<open>Reducing a full node keeps its contents and restores the minimal form.\<close>

definition almostFull :: "node_db \<Rightarrow> node list \<Rightarrow> bool" where
  "almostFull db cs \<longleftrightarrow>
     length cs = 17 \<and> (\<forall>c \<in> set (take 16 cs). c = NilNode \<or> minimal db c)
     \<and> (cs ! 16 = NilNode \<or> isValue (cs ! 16)) \<and> (\<exists>c \<in> set cs. c \<noteq> NilNode)"

lemma reduce_single:
  assumes "almostFull db cs" "j < 17" "cs ! j \<noteq> NilNode"
  shows "if j = 16 then isValue (cs ! j) else minimal db (cs ! j)"
proof (cases "j = 16")
  case False
  with assms have "cs ! j \<in> set (take 16 cs)"
    by (auto simp: almostFull_def in_set_conv_nth intro!: exI [of _ j])
  with assms False show ?thesis by (auto simp: almostFull_def)
qed (use assms in \<open>auto simp: almostFull_def\<close>)

lemma resolve_cases:
  assumes db: "dbOk db" and c: "minimal db c"
  shows "case resolve db c pre of
           Inl e \<Rightarrow> missingOnly db e
         | Inr m \<Rightarrow> minimal db m \<and> \<not> isHash m \<and> (\<forall>l r. holds db c l r = holds db m l r)
             \<and> (isFull m \<longrightarrow> isBranch db c)"
proof (cases c)
  case (HashNode h)
  with resolve_dbOk [OF db, of "BytesToHash h"] show ?thesis
    by (auto simp: resolve_def resolveHash_def missingOnly_def isBranch_def Let_def split: option.split)
qed (use c in \<open>auto simp: resolve_def isBranch_def\<close>)

lemma minimal_short_Cons:
  assumes "minimal db (ShortNode k v fl)" "unat x < 16"
  shows "minimal db (ShortNode (x # k) v fl')"
proof -
  have "k \<noteq> []" using assms by (auto simp: hexkey_def split: if_splits)
  with assms show ?thesis by (auto simp: hasTerm_iff hexkey_Cons)
qed

lemma reduceFull_correct:
  assumes db: "dbOk db" and af: "almostFull db cs" and key: "key \<noteq> []"
  shows "case reduceFull db cs pre of
           Inl e \<Rightarrow> missingOnly db e
         | Inr (d, n) \<Rightarrow> d \<and> minimal db n \<and> \<not> isHash n \<and> sameHolds db key (FullNode cs newFlag) n"
proof (cases rule: singleChild_cases [of cs 0, case_names none one more])
  case none
  with af show ?thesis by (auto simp: almostFull_def)
next
  case more
  with af show ?thesis by (simp add: reduceFull_def almostFull_def sameHolds_def)
next
  case (one j)
  have len: "length cs = 17" using af by (simp add: almostFull_def)
  then have j: "j < 17" using one by simp
  have others: "m < 17 \<Longrightarrow> m \<noteq> j \<Longrightarrow> cs ! m = NilNode" for m using one len by simp
  note c = reduce_single [OF af j one(3)]
  let ?x = "of_int (int j) :: byte"
  have x: "unat ?x = j" using j by (rule unat_of_int_index)
  have single: "sameHolds db key (FullNode cs newFlag) (ShortNode [?x] (cs ! j) newFlag)"
    using sameHolds_single [OF len j others key, of db "[]" "cs ! j"] by (simp add: tailNode_def)
  show ?thesis
  proof (cases "j = 16")
    case True
    then show ?thesis using c single one by (simp add: reduceFull_def hexkey_def hasTerm_def)
  next
    case False
    with c have mc: "minimal db (cs ! j)" by simp
    have x16: "unat ?x < 16" using False j x by simp
    then have nt: "\<not> hasTerm [?x]" by (auto simp: hasTerm_def)
    note rc = resolve_cases [OF db mc, of pre]
    show ?thesis
    proof (cases "resolve db (cs ! j) pre")
      case (Inl e)
      with rc one False show ?thesis by (simp add: reduceFull_def)
    next
      case (Inr m)
      with rc have m: "minimal db m" "\<not> isHash m" "\<And>l r. holds db (cs ! j) l r = holds db m l r"
        and br: "isFull m \<Longrightarrow> isBranch db (cs ! j)" by auto
      show ?thesis
      proof (cases m)
        case (ShortNode ck cv fl)
        have "ck \<noteq> []" using m(1) ShortNode by (auto simp: hexkey_def split: if_splits)
        then have "holds db (cs ! j) l r = holds db (tailNode ck cv) l r" for l r
          using m(3) ShortNode by (simp add: tailNode_def holds_flag [of db ck cv fl l r newFlag])
        from sameHolds_single [OF len j others key this]
          minimal_short_Cons [OF m(1) [unfolded ShortNode] x16] Inr ShortNode one False
        show ?thesis by (simp add: reduceFull_def del: minimal.simps)
      next
        case (FullNode cs' fl)
        with br have "minimal db (ShortNode [?x] (cs ! j) newFlag)" using mc x16 nt by simp
        with FullNode Inr single one False show ?thesis
          by (simp add: reduceFull_def del: minimal.simps)
      qed (use m in auto)
    qed
  qed
qed

lemma deleted_almostFull:
  assumes min: "minimal db (FullNode cs fl)" and i: "i < 17"
    and nn: "if i = 16 then nn = NilNode else rootOk db nn"
  shows "almostFull db (cs[i := nn])"
proof -
  let ?P = "\<lambda>c. c \<noteq> NilNode"
  have len: "length cs = 17" and two: "2 \<le> length (filter ?P cs)" using min by simp_all
  have "c = NilNode \<or> minimal db c" if "c \<in> set (take 16 (cs[i := nn]))" for c
  proof -
    from that len obtain n where n: "n < 16" "c = cs[i := nn] ! n" by (auto simp: in_set_conv_nth)
    then have "cs ! n \<in> set (take 16 cs)" using len by (auto simp: in_set_conv_nth intro!: exI [of _ n])
    with min n len nn show ?thesis by (cases "n = i") (auto simp: rootOk_def split: if_splits)
  qed
  moreover have "cs[i := nn] ! 16 = NilNode \<or> isValue (cs[i := nn] ! 16)"
    using min nn i by (auto simp: nth_list_update)
  moreover have "\<exists>c \<in> set (cs[i := nn]). c \<noteq> NilNode"
  proof -
    have "\<not> {n. n < length cs \<and> ?P (cs ! n)} \<subseteq> {i}"
      using two card_mono [of "{i}" "{n. n < length cs \<and> ?P (cs ! n)}"]
      unfolding length_filter_conv_card by auto
    then obtain n where "n < length cs" "cs ! n \<noteq> NilNode" "n \<noteq> i" by blast
    then show ?thesis by (metis length_list_update nth_list_update_neq nth_mem)
  qed
  ultimately show ?thesis using len by (simp add: almostFull_def)
qed

lemma deletePost_full:
  assumes db: "dbOk db" and min: "minimal db (FullNode cs fl)" and hk: "hexkey (x # key)"
    and post: "deletePost db (cs ! unat x) key (Inr (d, nn))"
  shows "deletePost db (FullNode cs fl) (x # key)
           (if \<not> d then Inr (False, FullNode cs fl) else reduceFull db (cs[unat x := nn]) pre)"
proof -
  have len: "length cs = 17" using min by simp
  have x17: "unat x < 17" using hk by (auto simp: hexkey_Cons split: if_splits)
  have u: "updHolds db key None (cs ! unat x) nn" using post by simp
  note uf = updHolds_full [OF refl hk len]
  show ?thesis
  proof (cases d)
    case False
    with post have "sameHolds db key (cs ! unat x) nn" by simp
    with u have "updHolds db key None (cs ! unat x) (cs ! unat x)" by (rule updHolds_trans_same)
    from uf [OF this] False min show ?thesis by (simp add: rootOk_def sameHolds_def del: minimal.simps)
  next
    case True
    let ?cs = "cs[unat x := nn]"
    have af: "almostFull db ?cs" using deleted_almostFull [OF min x17] post hk
      by (auto simp: hexkey_Cons split: if_splits)
    from reduceFull_correct [OF db af, of "x # key" pre] uf [OF u, of fl newFlag] True
    show ?thesis
      by (auto simp: rootOk_def updHolds_def sameHolds_def simp del: minimal.simps(2-) split: sum.splits)
  qed
qed


lemma deletePost_short:
  assumes min: "minimal db (ShortNode nkey nval fl)" and hk: "hexkey (nkey @ key)" and ne: "key \<noteq> []"
    and post: "deletePost db nval key (Inr (d, child))"
  shows "deletePost db (ShortNode nkey nval fl) (nkey @ key)
           (Inr (if \<not> d then (False, ShortNode nkey nval fl)
                 else (True, (case child of
                         ShortNode ckey cval _ \<Rightarrow> ShortNode (nkey @ ckey) cval newFlag
                       | _ \<Rightarrow> ShortNode nkey child newFlag))))"
proof -
  have nb: "nibbles nkey" using hk ne by (simp add: hexkey_append)
  with min have br: "isBranch db nval" and nk: "nkey \<noteq> []" by (auto simp: hasTerm_nibbles)
  have u: "updHolds db key None nval child" using post by simp
  note us = updHolds_short [OF refl ne hk]
  show ?thesis
  proof (cases d)
    case False
    with post have "sameHolds db key nval child" by simp
    with u have "updHolds db key None nval nval" by (rule updHolds_trans_same)
    from us [OF this] False min ne show ?thesis by (simp add: rootOk_def sameHolds_def del: minimal.simps)
  next
    case True
    with post br ne have ch: "minimal db child" "\<not> isHash child" by (auto simp: rootOk_def)
    show ?thesis
    proof (cases child)
      case (ShortNode ckey cval fl')
      have ck: "ckey \<noteq> []" using ch(1) ShortNode by (auto simp: hexkey_def split: if_splits)
      then have tn: "tailNode ckey cval = ShortNode ckey cval newFlag" by (simp add: tailNode_def)
      have eq: "holds db (ShortNode (nkey @ ckey) cval newFlag) k r =
          holds db (ShortNode nkey child newFlag) k r" for k r
      proof (cases "take (length nkey) k = nkey")
        case True
        then obtain l where "k = nkey @ l" by (metis append_take_drop_id)
        then show ?thesis
          using holds_tailNode [of db nkey ckey cval newFlag l r] ShortNode
          by (simp add: tn holds_flag [of db ckey cval newFlag l r fl'])
      next
        case False
        then show ?thesis
          by (subst holds_short_miss) (auto simp: holds_short_miss take_add [symmetric]
              dest: arg_cong [of _ _ "take (length nkey)"])
      qed
      have "minimal db (ShortNode (nkey @ ckey) cval newFlag)"
        using ch(1) ck nb ShortNode by (auto simp: hasTerm_iff hexkey_append)
      with True ShortNode us [OF u, of fl newFlag] nk ne show ?thesis
        by (simp add: rootOk_def updHolds_def eq del: minimal.simps)
    next
      case (FullNode cs fl')
      then have "minimal db (ShortNode nkey child newFlag)"
        using ch nb nk by (simp add: hasTerm_nibbles isBranch_def del: minimal.simps(5))
      with True FullNode us [OF u, of fl newFlag] nk ne show ?thesis
        by (simp add: rootOk_def del: minimal.simps)
    qed (use ch in auto)
  qed
qed

lemma prefixLen_prefix: "prefixLen (p @ k) p = length p"
  by (induction p) auto

definition deleteOk :: "node_db \<Rightarrow> nat \<Rightarrow> bool" where
  "deleteOk db fuel \<longleftrightarrow>
     (\<forall>n pre key. posOk db n key \<longrightarrow> stepFuel n key < fuel \<longrightarrow>
        (\<exists>r. deleteTrie db fuel n pre key = Some r \<and> deletePost db n key r))"

lemma deleteOkD:
  "deleteOk db fuel \<Longrightarrow> posOk db n key \<Longrightarrow> stepFuel n key < fuel \<Longrightarrow>
     \<exists>r. deleteTrie db fuel n pre key = Some r \<and> deletePost db n key r"
  by (simp add: deleteOk_def)

lemma posOk_short:
  assumes "minimal db (ShortNode nkey nval fl)" "hexkey (nkey @ key)"
  shows "posOk db nval key" "nkey \<noteq> []"
proof -
  show "nkey \<noteq> []" using assms by (auto simp: hexkey_def split: if_splits)
  show "posOk db nval key"
  proof (cases "hasTerm nkey")
    case True
    with assms have "key = []" "isValue nval" by (auto dest: hexkey_prefix_eq)
    then show ?thesis by (simp add: posOk_def)
  next
    case False
    with assms(1) have "nibbles nkey" "minimal db nval" by auto
    moreover from this assms(2) have "key \<noteq> []" by (auto simp: hexkey_not_nibbles)
    ultimately show ?thesis using assms(2) by (simp add: posOk_def hexkey_append rootOk_def)
  qed
qed

lemma posOk_full:
  assumes "minimal db (FullNode cs fl)" "hexkey (x # key)"
  shows "posOk db (cs ! unat x) key" "unat x < length cs"
  using assms minimal_full_child [OF assms(1), of x]
  by (auto simp: posOk_def rootOk_def hexkey_Cons split: if_splits)

lemma delete_hash_step:
  assumes db: "dbOk db" and IH: "deleteOk db fuel" and hk: "hexkey key"
    and fuel: "stepFuel (HashNode h) key < Suc fuel"
  shows "\<exists>r. deleteTrie db (Suc fuel) (HashNode h) pre key = Some r \<and> deletePost db (HashNode h) key r"
proof (cases "db (BytesToHash h)")
  case None
  then show ?thesis by (simp add: resolveHash_def missingOnly_def)
next
  case (Some m)
  have ne: "key \<noteq> []" using hk by (simp add: hexkey_def)
  note m = resolve_dbOk [OF db Some]
  have "posOk db m key" "stepFuel m key < fuel"
    using m fuel ne hk by (simp_all add: posOk_def rootOk_def stepFuel_def)
  from deleteOkD [OF IH this, of pre] obtain r where
    r: "deleteTrie db fuel m pre key = Some r" "deletePost db m key r" by blast
  have br: "isBranch db (HashNode h) \<Longrightarrow> isBranch db m" using Some by (auto simp: isBranch_def)
  show ?thesis
  proof (cases r)
    case (Inl e)
    with r Some show ?thesis by (simp add: resolveHash_def)
  next
    case (Inr p)
    then obtain d nn where p: "r = Inr (d, nn)" by (cases p) auto
    have "deletePost db (HashNode h) key (Inr (if \<not> d then (False, m) else (True, nn)))"
    proof (cases d)
      case True
      with r(2) p br ne show ?thesis by (simp add: updHolds_def Some)
    next
      case False
      with r(2) p ne have "updHolds db key None m m" by (auto intro: updHolds_trans_same)
      with False m ne show ?thesis by (auto simp: updHolds_def sameHolds_def Some rootOk_def)
    qed
    with r p Some show ?thesis by (cases d) (simp_all add: resolveHash_def del: deletePost.simps)
  qed
qed

lemma delete_full_step:
  assumes db: "dbOk db" and IH: "deleteOk db fuel" and min: "minimal db (FullNode cs fl)"
    and hk: "hexkey (x # key)" and fuel: "stepFuel (FullNode cs fl) (x # key) < Suc fuel"
  shows "\<exists>r. deleteTrie db (Suc fuel) (FullNode cs fl) pre (x # key) = Some r \<and>
           deletePost db (FullNode cs fl) (x # key) r"
proof -
  have "stepFuel (cs ! unat x) key < fuel" using fuel by (simp add: stepFuel_def)
  from deleteOkD [OF IH posOk_full(1) [OF min hk] this, of "pre @ [x]"] obtain r where
    r: "deleteTrie db fuel (cs ! unat x) (pre @ [x]) key = Some r" "deletePost db (cs ! unat x) key r"
    by blast
  have x17: "unat x < length cs" using min hk by (rule posOk_full(2))
  show ?thesis
  proof (cases r)
    case (Inl e)
    with r x17 show ?thesis by simp
  next
    case (Inr p)
    then obtain d nn where p: "r = Inr (d, nn)" by (cases p) auto
    with r x17 deletePost_full [OF db min hk, of d nn pre] show ?thesis
      by (cases d) (simp_all del: deletePost.simps)
  qed
qed

lemma delete_short_step:
  assumes IH: "deleteOk db fuel" and min: "minimal db (ShortNode nkey nval fl)"
    and hk: "hexkey key" and fuel: "stepFuel (ShortNode nkey nval fl) key < Suc fuel"
  shows "\<exists>r. deleteTrie db (Suc fuel) (ShortNode nkey nval fl) pre key = Some r \<and>
           deletePost db (ShortNode nkey nval fl) key r"
proof (cases "prefixLen key nkey = length nkey")
  case False
  then have lt: "prefixLen key nkey < length nkey" using prefixLen_le(2) [of key nkey] by simp
  have "take (length nkey) key \<noteq> nkey"
    using lt prefixLen_prefix [of nkey "drop (length nkey) key"] by (metis append_take_drop_id less_irrefl)
  then have "updHolds db key None (ShortNode nkey nval fl) (ShortNode nkey nval fl)"
    by (simp add: updHolds_def holds_short_miss)
  with lt min hk show ?thesis
    by (auto simp: rootOk_def sameHolds_def hexkey_def simp del: minimal.simps)
next
  case True
  then obtain key' where key: "key = nkey @ key'" by (rule prefixLen_full)
  note pos = posOk_short [OF min hk [unfolded key]]
  show ?thesis
  proof (cases "key' = []")
    case True
    have "updHolds db nkey None (ShortNode nkey nval fl) NilNode"
    proof -
      have "r = None" if "hexkey k" "k \<noteq> nkey" "holds db (ShortNode nkey nval fl) k r" for k r
        using that hk key True by (auto simp: holds_short dest: hexkey_prefix_eq)
      moreover have "holds db (ShortNode nkey nval fl) k None" if "hexkey k" "k \<noteq> nkey" for k
        using that hk key True
        by (intro holds.miss) (metis append_Nil2 append_take_drop_id hexkey_prefix_eq)
      ultimately show ?thesis using pos(2) by (auto simp: updHolds_def sameKind_def)
    qed
    with True key pos(2) \<open>prefixLen key nkey = length nkey\<close> show ?thesis
      by (simp add: rootOk_def isBranch_def)
  next
    case False
    have "stepFuel nval key' < fuel" using fuel key pos(2) by (cases nkey) (auto simp: stepFuel_def)
    from deleteOkD [OF IH pos(1) this, of "pre @ nkey"] obtain r where
      r: "deleteTrie db fuel nval (pre @ nkey) key' = Some r" "deletePost db nval key' r" by blast
    show ?thesis
    proof (cases r)
      case (Inl e)
      with r True False key show ?thesis by simp
    next
      case (Inr p)
      then obtain d nn where p: "r = Inr (d, nn)" by (cases p) auto
      with r True False key deletePost_short [OF min hk [unfolded key] False, of d nn]
      show ?thesis by (cases d) (simp_all del: deletePost.simps)
    qed
  qed
qed

lemma delete_correct:
  assumes db: "dbOk db"
  shows "deleteOk db fuel"
proof (induction fuel)
  case 0
  then show ?case by (simp add: deleteOk_def)
next
  case (Suc fuel)
  have "\<exists>r. deleteTrie db (Suc fuel) n pre key = Some r \<and> deletePost db n key r"
    if pos: "posOk db n key" and fuel: "stepFuel n key < Suc fuel" for n pre key
  proof (cases "key = []")
    case True
    with pos show ?thesis
      by (auto simp: posOk_def isValue_def updHolds_def sameHolds_def sameKind_def isBranch_def)
  next
    case False
    with pos have hk: "hexkey key" and ok: "rootOk db n" by (simp_all add: posOk_def)
    show ?thesis
    proof (cases n)
      case NilNode
      then show ?thesis by (simp add: updHolds_def sameHolds_def rootOk_def)
    next
      case (ValueNode v)
      with ok show ?thesis by (simp add: rootOk_def)
    next
      case (HashNode h)
      with delete_hash_step [OF db Suc hk] fuel show ?thesis by blast
    next
      case (FullNode cs fl)
      with False ok hk fuel show ?thesis
        by (cases key) (auto simp only: rootOk_def node.distinct simp_thms
            intro!: delete_full_step [OF db Suc])
    next
      case (ShortNode nkey nval fl)
      with delete_short_step [OF Suc _ hk] ok fuel show ?thesis
        by (simp only: rootOk_def node.distinct simp_thms)
    qed
  qed
  then show ?case by (simp only: deleteOk_def) blast
qed

subsection \<open>Lookup\<close>

fun getPost :: "node_db \<Rightarrow> node \<Rightarrow> bytes \<Rightarrow> trie_error + bytes option \<times> node \<times> bool \<Rightarrow> bool" where
  "getPost db n key (Inl e) = missingOnly db e"
| "getPost db n key (Inr (v, n', resolved)) \<longleftrightarrow>
     holds db n key v \<and> sameHolds db key n n' \<and> (isBranch db n \<longrightarrow> isBranch db n')
     \<and> (if resolved then nodeAt db key n' else n' = n)"

definition getOk :: "node_db \<Rightarrow> nat \<Rightarrow> bool" where
  "getOk db fuel \<longleftrightarrow>
     (\<forall>n key pos. pos \<le> length key \<longrightarrow> posOk db n (drop pos key) \<longrightarrow>
        stepFuel n (drop pos key) < fuel \<longrightarrow>
        (\<exists>r. tryGet db fuel n key pos = Some r \<and> getPost db n (drop pos key) r))"

lemma getOkD:
  "getOk db fuel \<Longrightarrow> pos \<le> length key \<Longrightarrow> posOk db n (drop pos key) \<Longrightarrow>
     stepFuel n (drop pos key) < fuel \<Longrightarrow>
     \<exists>r. tryGet db fuel n key pos = Some r \<and> getPost db n (drop pos key) r"
  by (simp add: getOk_def)

lemma sameHolds_short:
  assumes hk: "hexkey (nkey @ key)" and same: "sameHolds db key nval nn"
  shows "sameHolds db (nkey @ key) (ShortNode nkey nval fl) (ShortNode nkey nn fl)"
  unfolding sameHolds_def
proof (intro allI impI)
  fix k r
  assume "sameKind (nkey @ key) k"
  with hk have k: "hexkey k" by (auto simp: sameKind_def hexkey_def split: if_splits)
  show "holds db (ShortNode nkey nn fl) k r = holds db (ShortNode nkey nval fl) k r"
  proof (cases "take (length nkey) k = nkey")
    case True
    then obtain l where l: "k = nkey @ l" by (metis append_take_drop_id)
    have "sameKind key l"
    proof (cases "key = []")
      case True
      with hk k l hexkey_prefix_eq show ?thesis by (auto simp: sameKind_def)
    next
      case False
      with hk have "nibbles nkey" by (simp add: hexkey_append)
      with k l have "l \<noteq> []" by (auto simp: hexkey_not_nibbles)
      with k l False show ?thesis by (simp add: sameKind_def hexkey_append)
    qed
    with same l show ?thesis by (simp add: sameHolds_def)
  next
    case False
    then show ?thesis by (simp add: holds_short_miss)
  qed
qed

lemma sameHolds_full:
  assumes hk: "hexkey (x # key)" and len: "length cs = 17" and same: "sameHolds db key (cs ! unat x) nn"
  shows "sameHolds db (x # key) (FullNode cs fl) (FullNode (cs[unat x := nn]) fl)"
  unfolding sameHolds_def
proof (intro allI impI)
  fix k r
  assume "sameKind (x # key) k"
  then obtain y l where k: "k = y # l" "hexkey (y # l)"
    by (cases k) (auto simp: sameKind_def hexkey_def)
  have xy: "unat x < 17" "unat y < 17" using hk k by (auto simp: hexkey_Cons split: if_splits)
  show "holds db (FullNode (cs[unat x := nn]) fl) k r = holds db (FullNode cs fl) k r"
  proof (cases "x = y")
    case True
    with hk k have "sameKind key l" by (auto simp: sameKind_def hexkey_Cons split: if_splits)
    with same True k len xy show ?thesis by (simp add: sameHolds_def)
  next
    case False
    then have "unat x \<noteq> unat y" by (simp add: word_unat_eq_iff)
    with k len xy show ?thesis by simp
  qed
qed

lemma get_hash_step:
  assumes db: "dbOk db" and IH: "getOk db fuel" and pos: "pos \<le> length key"
    and hk: "hexkey (drop pos key)" and fuel: "stepFuel (HashNode h) (drop pos key) < Suc fuel"
  shows "\<exists>r. tryGet db (Suc fuel) (HashNode h) key pos = Some r \<and>
           getPost db (HashNode h) (drop pos key) r"
proof (cases "db (BytesToHash h)")
  case None
  then show ?thesis by (simp add: resolveHash_def missingOnly_def)
next
  case (Some m)
  have ne: "drop pos key \<noteq> []" using hk by (simp add: hexkey_def)
  note m = resolve_dbOk [OF db Some]
  have "posOk db m (drop pos key)" "stepFuel m (drop pos key) < fuel"
    using m fuel ne hk by (simp_all add: posOk_def rootOk_def stepFuel_def)
  from getOkD [OF IH pos this] obtain r where
    r: "tryGet db fuel m key pos = Some r" "getPost db m (drop pos key) r" by blast
  have br: "isBranch db (HashNode h) \<Longrightarrow> isBranch db m" using Some by (auto simp: isBranch_def)
  show ?thesis
  proof (cases r)
    case (Inl e)
    with r Some show ?thesis by (simp add: resolveHash_def)
  next
    case (Inr p)
    then obtain v nn d where p: "r = Inr (v, nn, d)" by (cases p) auto
    have "nodeAt db (drop pos key) nn"
      using r(2) p m ne by (auto simp: nodeAt_def split: if_splits)
    then have "getPost db (HashNode h) (drop pos key) (Inr (v, nn, True))"
      using r(2) p br by (simp add: sameHolds_def Some del: drop_eq_Nil)
    with r p Some show ?thesis by (simp add: resolveHash_def del: getPost.simps)
  qed
qed

lemma get_full_step:
  assumes IH: "getOk db fuel" and min: "minimal db (FullNode cs fl)" and pos: "pos \<le> length key"
    and hk: "hexkey (drop pos key)" and fuel: "stepFuel (FullNode cs fl) (drop pos key) < Suc fuel"
  shows "\<exists>r. tryGet db (Suc fuel) (FullNode cs fl) key pos = Some r \<and>
           getPost db (FullNode cs fl) (drop pos key) r"
proof -
  have lt: "pos < length key" using hk by (auto simp: hexkey_def)
  define x where "x = key ! pos"
  have dr: "drop pos key = x # drop (pos + 1) key"
    using lt by (simp add: x_def Cons_nth_drop_Suc)
  note hk' = hk [unfolded dr]
  have len: "length cs = 17" and x17: "unat x < length cs" using min posOk_full(2) [OF min hk'] by simp_all
  have "stepFuel (cs ! unat x) (drop (pos + 1) key) < fuel"
    using fuel lt unfolding dr by (simp add: stepFuel_def)
  from getOkD [OF IH _ posOk_full(1) [OF min hk'] this] lt obtain r where
    r: "tryGet db fuel (cs ! unat x) key (pos + 1) = Some r"
       "getPost db (cs ! unat x) (drop (pos + 1) key) r" by auto
  show ?thesis
  proof (cases r)
    case (Inl e)
    with r lt x17 show ?thesis by (simp add: x_def)
  next
    case (Inr p)
    then obtain v nn d where p: "r = Inr (v, nn, d)" by (cases p) auto
    have "getPost db (FullNode cs fl) (x # drop (pos + 1) key)
        (Inr (v, (if d then FullNode (cs[unat x := nn]) fl else FullNode cs fl), d))"
    proof (cases d)
      case True
      with r(2) p have g: "holds db (cs ! unat x) (drop (pos + 1) key) v"
        "sameHolds db (drop (pos + 1) key) (cs ! unat x) nn" "nodeAt db (drop (pos + 1) key) nn" by auto
      have "unat x < 17 \<and> (if unat x = 16 then isValue nn else minimal db nn)"
        using hk' g(3) unfolding hexkey_Cons nodeAt_def by (auto split: if_splits)
      then have "minimal db (FullNode (cs[unat x := nn]) fl)"
        using minimal_full_update [OF min] by blast
      with True g(1) sameHolds_full [OF hk' len g(2)] x17 show ?thesis
        by (simp add: nodeAt_def isBranch_def del: minimal.simps)
    next
      case False
      with r(2) p x17 show ?thesis by (simp add: sameHolds_def)
    qed
    with r p lt x17 dr show ?thesis
      by (cases d) (simp_all add: x_def [symmetric] del: getPost.simps)
  qed
qed

lemma get_short_step:
  assumes IH: "getOk db fuel" and min: "minimal db (ShortNode nkey nval fl)" and pos: "pos \<le> length key"
    and hk: "hexkey (drop pos key)" and fuel: "stepFuel (ShortNode nkey nval fl) (drop pos key) < Suc fuel"
  shows "\<exists>r. tryGet db (Suc fuel) (ShortNode nkey nval fl) key pos = Some r \<and>
           getPost db (ShortNode nkey nval fl) (drop pos key) r"
proof (cases "take (length nkey) (drop pos key) = nkey")
  case False
  then have "holds db (ShortNode nkey nval fl) (drop pos key) None" by (rule holds.miss)
  with False show ?thesis by (auto simp: sameHolds_def)
next
  case True
  then obtain l where dr: "drop pos key = nkey @ l" by (metis append_take_drop_id)
  then have l: "l = drop (pos + length nkey) key"
    by (metis append_eq_conv_conj drop_drop add.commute)
  have le: "pos + length nkey \<le> length key"
    using arg_cong [OF dr, of length] pos by simp
  note po = posOk_short [OF min hk [unfolded dr]]
  have "stepFuel nval l < fuel" using fuel po(2) unfolding dr by (cases nkey) (auto simp: stepFuel_def)
  from getOkD [OF IH le po(1) [unfolded l] this [unfolded l]] obtain r where
    r: "tryGet db fuel nval key (pos + length nkey) = Some r" "getPost db nval l r"
    unfolding l by blast
  have nle: "\<not> length key < pos + length nkey" using le by simp
  show ?thesis
  proof (cases r)
    case (Inl e)
    with r True nle show ?thesis by simp
  next
    case (Inr p)
    then obtain v nn d where p: "r = Inr (v, nn, d)" by (cases p) auto
    have "getPost db (ShortNode nkey nval fl) (nkey @ l)
        (Inr (v, (if d then ShortNode nkey nn fl else ShortNode nkey nval fl), d))"
    proof (cases d)
      case True
      with r(2) p have g: "holds db nval l v" "sameHolds db l nval nn" "nodeAt db l nn"
        "isBranch db nval \<longrightarrow> isBranch db nn" by auto
      have "minimal db (ShortNode nkey nn fl)"
        using min g(3,4) po(1) hexkey_prefix_eq [of nkey l] hk dr
        by (auto simp: nodeAt_def posOk_def isBranch_def isValue_def split: if_splits)
      with True g(1) sameHolds_short [OF hk [unfolded dr] g(2)] po(2) show ?thesis
        by (simp add: nodeAt_def isBranch_def del: minimal.simps)
    next
      case False
      with r(2) p show ?thesis by (simp add: sameHolds_def)
    qed
    with r p True nle dr show ?thesis by (cases d) (simp_all del: getPost.simps)
  qed
qed

lemma tryGet_correct:
  assumes db: "dbOk db"
  shows "getOk db fuel"
proof (induction fuel)
  case 0
  then show ?case by (simp add: getOk_def)
next
  case (Suc fuel)
  have "\<exists>r. tryGet db (Suc fuel) n key pos = Some r \<and> getPost db n (drop pos key) r"
    if pos: "pos \<le> length key" and at: "posOk db n (drop pos key)"
      and fuel: "stepFuel n (drop pos key) < Suc fuel" for n key pos
  proof (cases "drop pos key = []")
    case True
    with at show ?thesis by (auto simp: posOk_def isValue_def sameHolds_def sameKind_def)
  next
    case False
    with at have hk: "hexkey (drop pos key)" and ok: "rootOk db n" by (simp_all add: posOk_def)
    show ?thesis
    proof (cases n)
      case NilNode
      then show ?thesis by (simp add: sameHolds_def)
    next
      case (ValueNode v)
      with ok show ?thesis by (simp add: rootOk_def)
    next
      case (HashNode h)
      with get_hash_step [OF db Suc pos hk] fuel show ?thesis by blast
    next
      case (FullNode cs fl)
      with get_full_step [OF Suc _ pos hk] ok fuel show ?thesis
        by (simp only: rootOk_def node.distinct simp_thms)
    next
      case (ShortNode nkey nval fl)
      with get_short_step [OF Suc _ pos hk] ok fuel show ?thesis
        by (simp only: rootOk_def node.distinct simp_thms)
    qed
  qed
  then show ?case by (simp only: getOk_def) blast
qed


subsection \<open>The public operations implement a map\<close>

definition entry :: "node_db \<Rightarrow> trie \<Rightarrow> bytes \<Rightarrow> bytes option \<Rightarrow> bool" where
  "entry db t key v \<longleftrightarrow> holds db (root t) (keybytesToHex key) v"

definition trieOk :: "node_db \<Rightarrow> trie \<Rightarrow> bool" where
  "trieOk db t \<longleftrightarrow> dbOk db \<and> rootOk db (root t)"

text \<open>What an update does to the contents: one key changes, or the database lacks a node.\<close>

definition updates :: "node_db \<Rightarrow> trie \<Rightarrow> bytes \<Rightarrow> bytes option \<Rightarrow>
    (trie_error + unit) option \<times> trie \<Rightarrow> bool" where
  "updates db t key v res \<longleftrightarrow>
     (\<exists>t'. res = (Some (Inr ()), t') \<and> trieOk db t' \<and>
        updHolds db (keybytesToHex key) v (root t) (root t')) \<or>
     (\<exists>e t'. res = (Some (Inl e), t') \<and> missingOnly db e \<and> root t' = root t)"

lemma trieOk_posOk: "trieOk db t \<Longrightarrow> posOk db (root t) (keybytesToHex key)"
  using hexkey_keybytesToHex [of key] by (auto simp: trieOk_def posOk_def hexkey_def)

lemma stepFuel_keyFuel: "stepFuel n k < keyFuel k"
  by (simp add: stepFuel_def keyFuel_def)

lemma updHolds_entry:
  assumes "updHolds db (keybytesToHex key) v (root t) (root t')"
  shows "entry db t' k r = (if k = key then r = v else entry db t k r)"
proof -
  have "sameKind (keybytesToHex key) (keybytesToHex k)"
    using hexkey_keybytesToHex [of k] by (simp add: sameKind_def keybytesToHex_nibs)
  with assms show ?thesis by (simp add: entry_def updHolds_def keybytesToHex_inj)
qed

lemma updates_setRoot:
  assumes db: "dbOk db"
    and r: "case r of Inl e \<Rightarrow> missingOnly db e
            | Inr (d, n) \<Rightarrow> rootOk db n \<and> updHolds db (keybytesToHex key) v (root t) n"
  shows "updates db t key v (setRoot (t\<lparr>unhashed := u\<rparr>) (Some r))"
  using assms by (cases r) (auto simp: setRoot_def updates_def trieOk_def)

lemma TryUpdate_updates:
  assumes ok: "trieOk db t"
  shows "updates db t key (if val = [] then None else Some val) (TryUpdate db t key val)"
proof -
  let ?k = "keybytesToHex key"
  have db: "dbOk db" and ne: "?k \<noteq> []" using ok by (simp_all add: trieOk_def keybytesToHex_nibs)
  show ?thesis
  proof (cases "val = []")
    case True
    obtain r where r: "deleteTrie db (keyFuel ?k) (root t) [] ?k = Some r" "deletePost db (root t) ?k r"
      using deleteOkD [OF delete_correct [OF db] trieOk_posOk [OF ok] stepFuel_keyFuel] by blast
    then have "case r of Inl e \<Rightarrow> missingOnly db e
        | Inr (d, n) \<Rightarrow> rootOk db n \<and> updHolds db ?k None (root t) n"
      using ne by (cases r) auto
    from updates_setRoot [OF db this] r(1) True show ?thesis by (simp add: TryUpdate_def Let_def)
  next
    case False
    obtain r where r: "insertTrie db (keyFuel ?k) (root t) [] ?k (ValueNode val) = Some r"
        "insertPost db (root t) ?k val r"
      using insertOkD [OF insert_correct [OF db False] trieOk_posOk [OF ok] stepFuel_keyFuel] by blast
    then have "case r of Inl e \<Rightarrow> missingOnly db e
        | Inr (d, n) \<Rightarrow> rootOk db n \<and> updHolds db ?k (Some val) (root t) n"
      using ne by (cases r) (auto simp: nodeAt_def rootOk_def)
    from updates_setRoot [OF db this] r(1) False show ?thesis by (simp add: TryUpdate_def Let_def)
  qed
qed

lemma TryDelete_updates:
  assumes ok: "trieOk db t"
  shows "updates db t key None (TryDelete db t key)"
  using TryUpdate_updates [OF ok, of key "[]"] by (simp add: TryUpdate_def TryDelete_def Let_def)

lemma TryGet_reads:
  assumes ok: "trieOk db t"
  shows "case TryGet db t key of
           (Some (Inr v), t') \<Rightarrow> entry db t key v \<and> trieOk db t' \<and> entry db t' = entry db t
         | (Some (Inl e), t') \<Rightarrow> missingOnly db e \<and> t' = t
         | (None, _) \<Rightarrow> False"
proof -
  let ?k = "keybytesToHex key"
  have db: "dbOk db" and ne: "?k \<noteq> []" using ok by (auto simp: trieOk_def keybytesToHex_nibs)
  have "posOk db (root t) (drop 0 ?k)" "stepFuel (root t) (drop 0 ?k) < keyFuel ?k"
    using trieOk_posOk [OF ok] stepFuel_keyFuel by simp_all
  from getOkD [OF tryGet_correct [OF db] le0 this] obtain r where
    r: "tryGet db (keyFuel ?k) (root t) ?k 0 = Some r" "getPost db (root t) ?k r" by auto
  show ?thesis
  proof (cases r)
    case (Inl e)
    with r show ?thesis by (simp add: TryGet_def Let_def)
  next
    case (Inr p)
    then obtain v n d where p: "r = Inr (v, n, d)" by (cases p) auto
    have "sameKind ?k (keybytesToHex k)" for k
      using hexkey_keybytesToHex [of k] ne by (simp add: sameKind_def)
    with r(2) p have "holds db n (keybytesToHex k) r = holds db (root t) (keybytesToHex k) r" for k r
      by (simp add: sameHolds_def)
    with r p ne ok show ?thesis
      by (auto simp: TryGet_def Let_def entry_def trieOk_def rootOk_def nodeAt_def fun_eq_iff
          split: if_splits)
  qed
qed

end
