(* ===== verification/TrieCanonical.thy ===== *)
theory TrieCanonical
  imports Trie
begin

text \<open>
  The minimal form that insertion and deletion keep is canonical: a loaded trie is
  determined, up to cached hashes and dirty marks, by the map it stores. A trie built
  from scratch therefore depends on the final contents only and not on the order or
  the history of the updates, which is what makes its root hash a commitment to them.
\<close>

subsection \<open>The minimal form is unique\<close>

text \<open>Caching flags aside, a loaded trie in minimal form is determined by its entries.\<close>

primrec strip :: "node \<Rightarrow> node" where
  "strip NilNode = NilNode"
| "strip (FullNode cs fl) = FullNode (map strip cs) newFlag"
| "strip (ShortNode k v fl) = ShortNode k (strip v) newFlag"
| "strip (HashNode h) = HashNode h"
| "strip (ValueNode v) = ValueNode v"

fun loaded :: "node \<Rightarrow> bool" where
  "loaded NilNode = True"
| "loaded (FullNode cs fl) = (\<forall>c \<in> set cs. loaded c)"
| "loaded (ShortNode k v fl) = loaded v"
| "loaded (HashNode h) = False"
| "loaded (ValueNode v) = True"

lemma hexkey_Nil [simp]: "\<not> hexkey []"
  by (simp add: hexkey_def)

definition keys :: "node_db \<Rightarrow> node \<Rightarrow> bytes set" where
  "keys db n = {k. hexkey k \<and> (\<exists>v. holds db n k (Some v))}"

lemma loaded_child: "loaded (FullNode cs fl) \<Longrightarrow> c \<in> set cs \<Longrightarrow> loaded c"
  by simp

lemma loaded_branch: "loaded n \<Longrightarrow> isBranch db n \<Longrightarrow> isFull n"
  by (auto simp: isBranch_def)

lemma full_child_key:
  assumes min: "minimal db (FullNode cs fl)" and i: "i < 17" "cs ! i \<noteq> NilNode"
    and IH: "i < 16 \<Longrightarrow> minimal db (cs ! i) \<Longrightarrow> keys db (cs ! i) \<noteq> {}"
  shows "\<exists>l. of_nat i # l \<in> keys db (FullNode cs fl)"
proof -
  have len: "length cs = 17" using min by simp
  have u: "unat (of_nat i :: byte) = i" using i(1) by (simp add: unat_of_nat take_bit_eq_mod)
  show ?thesis
  proof (cases "i = 16")
    case True
    with min i obtain v where "cs ! 16 = ValueNode v" by (auto simp: isValue_def)
    then have "[of_nat i] \<in> keys db (FullNode cs fl)"
      using True len by (simp add: keys_def hexkey_def)
    then show ?thesis by blast
  next
    case False
    with i have i16: "i < 16" by simp
    with minimal_full_child [OF min, of "of_nat i :: byte"] u i have "minimal db (cs ! i)" by simp
    from IH [OF i16 this] obtain l v where l: "hexkey l" "holds db (cs ! i) l (Some v)"
      by (auto simp: keys_def)
    then have "of_nat i # l \<in> keys db (FullNode cs fl)"
      using u len i16 by (auto simp: keys_def hexkey_Cons)
    then show ?thesis by blast
  qed
qed

lemma full_nonnil:
  assumes "minimal db (FullNode cs fl)"
  obtains i j where "i < 17" "j < 17" "i \<noteq> j" "cs ! i \<noteq> NilNode" "cs ! j \<noteq> NilNode"
proof -
  let ?S = "{i. i < length cs \<and> cs ! i \<noteq> NilNode}"
  have two: "2 \<le> card ?S" and len: "length cs = 17"
    using assms by (auto simp: length_filter_conv_card)
  then obtain i where i: "i \<in> ?S" by (metis card.empty ex_in_conv not_numeral_le_zero)
  then have "1 \<le> card (?S - {i})" using two by simp
  then obtain j where "j \<in> ?S - {i}" by (metis One_nat_def card.empty ex_in_conv not_one_le_zero)
  with i len that show thesis by auto
qed

lemma keys_nonempty: "minimal db n \<Longrightarrow> loaded n \<Longrightarrow> keys db n \<noteq> {}"
proof (induction n)
  case (FullNode cs fl)
  obtain i where i: "i < 17" "cs ! i \<noteq> NilNode" using FullNode.prems(1) by (rule full_nonnil)
  have "length cs = 17" using FullNode.prems(1) by simp
  with i have mem: "cs ! i \<in> set cs" by simp
  have "keys db (cs ! i) \<noteq> {}" if "minimal db (cs ! i)"
    using FullNode.IH [OF mem that loaded_child [OF FullNode.prems(2) mem]] .
  from full_child_key [OF FullNode.prems(1) i this] show ?case by blast
next
  case (ShortNode k v fl)
  show ?case
  proof (cases "hasTerm k")
    case True
    with ShortNode.prems obtain w where "hexkey k" "v = ValueNode w" by (auto simp: isValue_def)
    then have "k \<in> keys db (ShortNode k v fl)"
      using holds.short [of db v "[]" "Some w" k fl] by (auto simp: keys_def)
    then show ?thesis by blast
  next
    case False
    with ShortNode obtain l where "l \<in> keys db v" "nibbles k" by auto
    then have "k @ l \<in> keys db (ShortNode k v fl)"
      by (cases "l = []") (auto simp: keys_def hexkey_append)
    then show ?thesis by blast
  qed
qed auto

lemma keys_full_two:
  assumes min: "minimal db (FullNode cs fl)" and ld: "loaded (FullNode cs fl)"
  obtains x y k l where "x \<noteq> y" "x # k \<in> keys db (FullNode cs fl)" "y # l \<in> keys db (FullNode cs fl)"
proof -
  obtain i j where ij: "i < 17" "j < 17" "i \<noteq> j" "cs ! i \<noteq> NilNode" "cs ! j \<noteq> NilNode"
    using min by (rule full_nonnil)
  have len: "length cs = 17" using min by simp
  have ne: "keys db (cs ! m) \<noteq> {}" if "m < 16" "minimal db (cs ! m)" for m
    using keys_nonempty [OF that(2)] loaded_child [OF ld, of "cs ! m"] that(1) len by simp
  have "(of_nat i :: byte) \<noteq> of_nat j"
    using ij by (auto simp: word_unat_eq_iff unat_of_nat take_bit_eq_mod)
  with full_child_key [OF min ij(1,4) ne] full_child_key [OF min ij(2,5) ne] that show thesis
    by blast
qed

lemma keys_short_prefix: "k \<in> keys db (ShortNode p v fl) \<Longrightarrow> \<exists>l. k = p @ l"
  by (auto simp: keys_def holds_short)

lemma keys_short_hd: "x # k \<in> keys db (ShortNode (z # q) v fl) \<Longrightarrow> x = z"
  using keys_short_prefix by fastforce

lemma keys_leaf: "hexkey p \<Longrightarrow> k \<in> keys db (ShortNode p v fl) \<Longrightarrow> k = p"
  using keys_short_prefix [of k db p v fl] hexkey_prefix_eq [of p] by (auto simp: keys_def)

text \<open>The three shapes of a loaded minimal node, and the keys that tell them apart.\<close>

lemma loaded_shapes:
  assumes "minimal db n" "loaded n"
  obtains (leaf) p v fl where "n = ShortNode p (ValueNode v) fl" "hexkey p" "keys db n = {p}"
  | (full) cs fl x y k l where "n = FullNode cs fl" "x \<noteq> y" "x # k \<in> keys db n" "y # l \<in> keys db n"
  | (ext) p cs fl fl' x y k l where "n = ShortNode p (FullNode cs fl) fl'" "p \<noteq> []" "nibbles p"
      "minimal db (FullNode cs fl)" "x \<noteq> y" "p @ x # k \<in> keys db n" "p @ y # l \<in> keys db n"
proof (cases n)
  case (FullNode cs fl)
  with assms keys_full_two full show thesis by metis
next
  case (ShortNode p v fl)
  show thesis
  proof (cases "hasTerm p")
    case True
    with assms ShortNode obtain w where w: "hexkey p" "v = ValueNode w" by (auto simp: isValue_def)
    then have "keys db n = {p}"
      using keys_leaf keys_nonempty [OF assms] ShortNode by blast
    with w ShortNode leaf show thesis by blast
  next
    case False
    with assms ShortNode have p: "p \<noteq> []" "nibbles p" "minimal db v" "loaded v" and "isBranch db v" by auto
    then have "isFull v" by (blast intro: loaded_branch)
    then obtain cs fl' where v: "v = FullNode cs fl'" by (cases v) auto
    obtain x y k l where xy: "x \<noteq> y" "x # k \<in> keys db v" "y # l \<in> keys db v"
      using keys_full_two [OF p(3) [unfolded v] p(4) [unfolded v]] unfolding v by blast
    then have "p @ x # k \<in> keys db n" "p @ y # l \<in> keys db n"
      using p(2) ShortNode by (auto simp: keys_def hexkey_append)
    with xy p v ShortNode ext show thesis by blast
  qed
qed (use assms in auto)


lemma common_prefix_le:
  assumes "p @ x # k = q @ a" "p @ y # l = q @ b" "x \<noteq> y"
  shows "\<exists>t. p = q @ t"
  using assms
proof (induction p arbitrary: q)
  case Nil
  then show ?case by (cases q) auto
next
  case (Cons z p)
  show ?case
  proof (cases q)
    case Nil
    then show ?thesis by simp
  next
    case (Cons z' q')
    with Cons.prems Cons.IH [of q'] show ?thesis by auto
  qed
qed

lemma ext_prefix:
  assumes "keys db n \<subseteq> keys db (ShortNode q v fl)" "x \<noteq> y" "p @ x # k \<in> keys db n" "p @ y # l \<in> keys db n"
  shows "\<exists>t. p = q @ t"
proof -
  from assms obtain a b where "p @ x # k = q @ a" "p @ y # l = q @ b"
    by (meson keys_short_prefix subsetD)
  with assms(2) show ?thesis by (blast intro: common_prefix_le)
qed

lemma holds_SomeI: "keys db n = {} \<Longrightarrow> hexkey k \<Longrightarrow> \<not> holds db n k (Some v)"
  by (auto simp: keys_def)

definition agree :: "node_db \<Rightarrow> node \<Rightarrow> node \<Rightarrow> bool" where
  "agree db n m \<longleftrightarrow> (\<forall>k r. hexkey k \<longrightarrow> holds db n k r = holds db m k r)"

lemma agree_keys: "agree db n m \<Longrightarrow> keys db n = keys db m"
  by (auto simp: agree_def keys_def)

lemma agree_full_child:
  assumes "agree db (FullNode cs fl) (FullNode ds fl')" "length cs = 17" "length ds = 17" "i < 16"
  shows "agree db (cs ! i) (ds ! i)"
  unfolding agree_def
proof (intro allI impI)
  fix k r
  assume k: "hexkey k"
  have u: "unat (of_nat i :: byte) = i" using assms by (simp add: unat_of_nat take_bit_eq_mod)
  have "hexkey (of_nat i # k)" using k u assms(4) by (auto simp: hexkey_Cons)
  with assms(1) have "holds db (FullNode cs fl) (of_nat i # k) r = holds db (FullNode ds fl') (of_nat i # k) r"
    by (simp add: agree_def del: holds_simps)
  with u assms show "holds db (cs ! i) k r = holds db (ds ! i) k r" by simp
qed

lemma agree_full_value:
  assumes "agree db (FullNode cs fl) (FullNode ds fl')" "length cs = 17" "length ds = 17"
    "cs ! 16 = NilNode \<or> isValue (cs ! 16)" "ds ! 16 = NilNode \<or> isValue (ds ! 16)"
  shows "cs ! 16 = ds ! 16"
proof -
  have "holds db (FullNode cs fl) [16] r = holds db (FullNode ds fl') [16] r" for r
    using assms(1) by (simp add: agree_def hexkey_def del: holds_simps)
  then have eq: "holds db (cs ! 16) [] r = holds db (ds ! 16) [] r" for r using assms(2,3) by simp
  show ?thesis
  proof (cases "cs ! 16")
    case NilNode
    with assms(5) eq [of None] show ?thesis by (auto simp: isValue_def)
  next
    case (ValueNode v)
    with assms(5) eq [of "Some v"] show ?thesis by (auto simp: isValue_def)
  qed (use assms(4) in \<open>auto simp: isValue_def\<close>)
qed

lemma strip_unique_full:
  assumes n: "minimal db (FullNode cs fl)" "loaded (FullNode cs fl)"
    and m: "minimal db (FullNode ds fl')" "loaded (FullNode ds fl')"
    and ag: "agree db (FullNode cs fl) (FullNode ds fl')"
    and IH: "\<And>c d. c \<in> set cs \<Longrightarrow> minimal db c \<Longrightarrow> loaded c \<Longrightarrow> minimal db d \<Longrightarrow> loaded d \<Longrightarrow>
       agree db c d \<Longrightarrow> strip c = strip d"
  shows "map strip cs = map strip ds"
proof (rule nth_equalityI)
  have len: "length cs = 17" "length ds = 17" using n m by simp_all
  then show "length (map strip cs) = length (map strip ds)" by simp
  fix i
  assume "i < length (map strip cs)"
  then have i: "i < 17" using len by simp
  have mem: "cs ! i \<in> set cs" "ds ! i \<in> set ds" using i len by simp_all
  have "strip (cs ! i) = strip (ds ! i)"
  proof (cases "i = 16")
    case True
    with agree_full_value [OF ag len] n m show ?thesis by simp
  next
    case False
    then have i16: "i < 16" using i by simp
    have u: "unat (of_nat i :: byte) = i" using i by (simp add: unat_of_nat take_bit_eq_mod)
    have c: "cs ! i = NilNode \<or> minimal db (cs ! i)" and d: "ds ! i = NilNode \<or> minimal db (ds ! i)"
      using minimal_full_child [OF n(1), of "of_nat i :: byte"]
        minimal_full_child [OF m(1), of "of_nat i :: byte"] u i16 by simp_all
    note ld = loaded_child [OF n(2) mem(1)] loaded_child [OF m(2) mem(2)]
    have a: "agree db (cs ! i) (ds ! i)" using ag len i16 by (rule agree_full_child)
    have nil: "keys db NilNode = {}" by (simp add: keys_def)
    from c d show ?thesis
    proof (elim disjE)
      assume "cs ! i = NilNode" "minimal db (ds ! i)"
      then show ?thesis using agree_keys [OF a] keys_nonempty ld nil by metis
    next
      assume "minimal db (cs ! i)" "ds ! i = NilNode"
      then show ?thesis using agree_keys [OF a] keys_nonempty ld nil by metis
    next
      assume "minimal db (cs ! i)" "minimal db (ds ! i)"
      then show ?thesis using IH [OF mem(1)] ld a by blast
    qed simp
  qed
  with i len show "map strip cs ! i = map strip ds ! i" by simp
qed

lemma agree_short:
  assumes "agree db (ShortNode p v fl) (ShortNode p w fl')" "nibbles p"
  shows "agree db v w"
  unfolding agree_def
proof (intro allI impI)
  fix k r
  assume "hexkey k"
  then have "hexkey (p @ k)" using assms(2) by (subst hexkey_append) (auto simp: hexkey_def)
  with assms(1) show "holds db v k r = holds db w k r"
    by (metis agree_def holds_short_app)
qed

lemma strip_unique:
  "minimal db n \<Longrightarrow> loaded n \<Longrightarrow> minimal db m \<Longrightarrow> loaded m \<Longrightarrow> agree db n m \<Longrightarrow> strip n = strip m"
proof (induction "size n" arbitrary: n m rule: less_induct)
  case less
  note ks = agree_keys [OF less.prems(5)]
  from less.prems(1,2) show ?case
  proof (cases rule: loaded_shapes)
    case (leaf p v fl)
    note n = this
    from less.prems(3,4) show ?thesis
    proof (cases rule: loaded_shapes)
      case (leaf q w fl')
      then have "p = q" using n ks by simp
      have "holds db n (p @ []) (Some v)" unfolding n(1) by (rule holds.short) simp
      moreover have "hexkey (p @ [])" using n by simp
      ultimately have "holds db m (p @ []) (Some v)"
        using less.prems(5) unfolding agree_def by blast
      then have "holds db (ValueNode w) [] (Some v)"
        unfolding leaf(1) \<open>p = q\<close> by (simp only: holds_short_app)
      with \<open>p = q\<close> n leaf show ?thesis by simp
    next
      case (full cs fl' x y k l)
      then show ?thesis using n(3) ks by (metis list.inject singletonD)
    next
      case (ext q cs fl' fl'' x y k l)
      then show ?thesis using n(3) ks by (metis append_same_eq list.inject same_append_eq singletonD)
    qed
  next
    case (full cs fl x y k l)
    note n = this
    from less.prems(3,4) show ?thesis
    proof (cases rule: loaded_shapes)
      case (leaf q w fl')
      then show ?thesis using n(2-4) ks by (metis list.inject singletonD)
    next
      case (full ds fl' x' y' k' l')
      have sz: "c \<in> set cs \<Longrightarrow> size c < size n" for c
        using n(1) size_list_estimation' [of c cs "size c" size] by auto
      have "map strip cs = map strip ds"
        by (rule strip_unique_full [of db cs fl ds fl'])
          (use less n(1) full(1) sz in auto)
      with n full show ?thesis by simp
    next
      case (ext q ds fl' fl'' x' y' k' l')
      then obtain z q' where "q = z # q'" by (cases q) auto
      with n(2-4) ks ext(1) keys_short_hd show ?thesis by metis
    qed
  next
    case (ext p cs fl fl' x y k l)
    note n = this
    from less.prems(3,4) show ?thesis
    proof (cases rule: loaded_shapes)
      case (leaf q w fl'')
      then show ?thesis using n(5-7) ks by (metis list.inject same_append_eq singletonD)
    next
      case (full ds fl' x' y' k' l')
      obtain z p' where "p = z # p'" using n by (cases p) auto
      with full(2-4) ks n(1) keys_short_hd show ?thesis by metis
    next
      case (ext q ds fl2 fl3 x' y' k' l')
      have "\<exists>t. p = q @ t" using ext_prefix [OF _ n(5-7)] ks ext(1) by blast
      moreover have "\<exists>t. q = p @ t" using ext_prefix [OF _ ext(5-7)] ks n(1) by blast
      ultimately have "p = q" by auto
      moreover have "strip (FullNode cs fl) = strip (FullNode ds fl2)"
      proof (rule less.hyps)
        show "agree db (FullNode cs fl) (FullNode ds fl2)"
          using less.prems(5) n ext \<open>p = q\<close> agree_short by metis
      qed (use less.prems n ext in auto)
      ultimately show ?thesis using n ext by simp
    qed
  qed
qed


subsection \<open>Sequences of updates\<close>

definition freshTrie :: trie where
  "freshTrie = \<lparr>root = NilNode, unhashed = 0\<rparr>"

primrec applyUpdates :: "node_db \<Rightarrow> trie \<Rightarrow> (bytes \<times> bytes) list \<Rightarrow> trie option" where
  "applyUpdates db t [] = Some t"
| "applyUpdates db t (kv # kvs) =
     (case TryUpdate db t (fst kv) (snd kv) of
        (Some (Inr _), t') \<Rightarrow> applyUpdates db t' kvs
      | _ \<Rightarrow> None)"

primrec finalMap :: "(bytes \<rightharpoonup> bytes) \<Rightarrow> (bytes \<times> bytes) list \<Rightarrow> (bytes \<rightharpoonup> bytes)" where
  "finalMap m [] = m"
| "finalMap m (kv # kvs) =
     finalMap (m(fst kv := (if snd kv = [] then None else Some (snd kv)))) kvs"

text \<open>A loaded trie never asks the database, and stays loaded.\<close>

definition staysLoaded :: "(trie_error + bool \<times> node) option \<Rightarrow> bool" where
  "staysLoaded r \<longleftrightarrow>
     (\<forall>e. r = Some (Inl e) \<longrightarrow> e = TriePanic) \<and> (\<forall>d n. r = Some (Inr (d, n)) \<longrightarrow> loaded n)"

lemma staysLoaded_simps [simp]:
  "staysLoaded None"
  "staysLoaded (Some (Inl e)) \<longleftrightarrow> e = TriePanic"
  "staysLoaded (Some (Inr (d, n))) \<longleftrightarrow> loaded n"
  by (auto simp: staysLoaded_def)

lemma staysLoaded_fbind:
  assumes "staysLoaded r" "\<And>d n. loaded n \<Longrightarrow> staysLoaded (k (d, n))"
  shows "staysLoaded (fbind r k)"
  using assms by (auto simp: fbind_def split: option.split sum.split)

lemma loaded_update:
  "loaded (FullNode cs fl) \<Longrightarrow> loaded c \<Longrightarrow> loaded (FullNode (cs[i := c]) fl')"
  using set_update_subset_insert [of cs i c] by auto

lemma loaded_branchOut: "loaded c1 \<Longrightarrow> loaded c2 \<Longrightarrow>
    loaded (FullNode (emptyChildren[i := c1, j := c2]) fl)"
  by (intro loaded_update [of _ fl]) (simp_all add: emptyChildren_def)

lemma insert_loaded:
  "loaded n \<Longrightarrow> loaded val \<Longrightarrow> staysLoaded (insertTrie db fuel n pre key val)"
proof (induction fuel arbitrary: n pre key val)
  case 0
  then show ?case by simp
next
  case (Suc fuel)
  show ?case
  proof (cases n)
    case (FullNode cs fl)
    with Suc show ?thesis
      by (auto simp del: loaded.simps(2) intro!: staysLoaded_fbind intro: loaded_update
          dest: loaded_child [OF _ nth_mem])
  next
    case (ShortNode nkey nval fl)
    with Suc show ?thesis
      by (auto simp: Let_def simp del: loaded.simps(2) intro!: staysLoaded_fbind loaded_branchOut)
  qed (use Suc.prems in \<open>auto split: node.split\<close>)
qed

lemma reduceFull_loaded:
  assumes "\<forall>c \<in> set cs. loaded c"
  shows "staysLoaded (Some (reduceFull db cs pre))"
proof (cases rule: singleChild_cases [of cs 0, case_names none one more])
  case (one j)
  then have "loaded (cs ! j)" using assms by simp
  with one show ?thesis by (cases "cs ! j") (auto simp: reduceFull_def resolve_def Let_def)
qed (use assms in \<open>auto simp: reduceFull_def Let_def\<close>)

lemma delete_loaded: "loaded n \<Longrightarrow> staysLoaded (deleteTrie db fuel n pre key)"
proof (induction fuel arbitrary: n pre key)
  case 0
  then show ?case by simp
next
  case (Suc fuel)
  show ?case
  proof (cases n)
    case (FullNode cs fl)
    have "staysLoaded (Some (reduceFull db (cs[i := c]) pre))" if "loaded c" for i c
      using loaded_update [of cs fl c i fl] Suc.prems FullNode that
      by (intro reduceFull_loaded) simp
    with Suc FullNode show ?thesis
      by (auto intro!: staysLoaded_fbind)
  next
    case (ShortNode nkey nval fl)
    with Suc show ?thesis
      by (auto simp: Let_def intro!: staysLoaded_fbind split: node.split)
  qed (use Suc.prems in auto)
qed


lemma TryUpdate_loaded:
  assumes ok: "trieOk db t" and ld: "loaded (root t)"
  obtains t' where "TryUpdate db t key val = (Some (Inr ()), t')" "trieOk db t'" "loaded (root t')"
    "updHolds db (keybytesToHex key) (if val = [] then None else Some val) (root t) (root t')"
proof -
  let ?k = "keybytesToHex key"
  let ?r = "if val = [] then deleteTrie db (keyFuel ?k) (root t) [] ?k
            else insertTrie db (keyFuel ?k) (root t) [] ?k (ValueNode val)"
  have run: "TryUpdate db t key val = setRoot (t\<lparr>unhashed := unhashed t + 1\<rparr>) ?r"
    by (simp add: TryUpdate_def Let_def)
  have sl: "staysLoaded ?r" using ld by (simp add: insert_loaded delete_loaded)
  from TryUpdate_updates [OF ok, of key val] show thesis
    unfolding updates_def
  proof (elim disjE exE conjE)
    fix t'
    assume t': "TryUpdate db t key val = (Some (Inr ()), t')" "trieOk db t'"
      "updHolds db ?k (if val = [] then None else Some val) (root t) (root t')"
    then have "loaded (root t')"
      using sl unfolding run by (auto simp: setRoot_def staysLoaded_def split: option.splits sum.splits)
    with t' show thesis by (rule_tac that)
  next
    fix e t'
    assume "TryUpdate db t key val = (Some (Inl e), t')" "missingOnly db e"
    then show thesis
      using sl unfolding run
      by (auto simp: setRoot_def staysLoaded_def missingOnly_def split: option.splits sum.splits)
  qed
qed

definition represents :: "node_db \<Rightarrow> trie \<Rightarrow> (bytes \<rightharpoonup> bytes) \<Rightarrow> bool" where
  "represents db t m \<longleftrightarrow>
     (\<forall>k r. hexkey k \<longrightarrow> holds db (root t) k r =
        (r = (if \<exists>key. k = keybytesToHex key then m (THE key. k = keybytesToHex key) else None)))"

lemma the_key: "(THE key. keybytesToHex k = keybytesToHex key) = k"
  by (simp add: keybytesToHex_inj)

lemma represents_update:
  assumes rep: "represents db t m" and upd: "updHolds db (keybytesToHex key) v (root t) (root t')"
  shows "represents db t' (m(key := v))"
  unfolding represents_def
proof (intro allI impI)
  fix k r
  assume k: "hexkey k"
  have "sameKind (keybytesToHex key) k" using k by (simp add: sameKind_def keybytesToHex_nibs)
  with upd have h: "holds db (root t') k r = (if k = keybytesToHex key then r = v else holds db (root t) k r)"
    by (simp add: updHolds_def)
  show "holds db (root t') k r = (r = (if \<exists>key. k = keybytesToHex key
      then (m(key := v)) (THE key. k = keybytesToHex key) else None))"
  proof (cases "\<exists>l. k = keybytesToHex l")
    case True
    then obtain l where l: "k = keybytesToHex l" by blast
    have "holds db (root t) k r = (r = m l)"
      using rep k l by (auto simp: represents_def the_key)
    with h l show ?thesis by (auto simp: the_key keybytesToHex_inj)
  next
    case False
    with h rep k show ?thesis by (auto simp: represents_def)
  qed
qed

lemma applyUpdates_represents:
  assumes "trieOk db t" "loaded (root t)" "represents db t m"
  shows "\<exists>t'. applyUpdates db t kvs = Some t' \<and> trieOk db t' \<and> loaded (root t') \<and>
           represents db t' (finalMap m kvs)"
  using assms
proof (induction kvs arbitrary: t m)
  case Nil
  then show ?case by simp
next
  case (Cons kv kvs)
  obtain t' where t': "TryUpdate db t (fst kv) (snd kv) = (Some (Inr ()), t')" "trieOk db t'" "loaded (root t')"
    "updHolds db (keybytesToHex (fst kv)) (if snd kv = [] then None else Some (snd kv)) (root t) (root t')"
    using TryUpdate_loaded [OF Cons.prems(1,2)] by blast
  from Cons.IH [OF t'(2,3) represents_update [OF Cons.prems(3) t'(4)]] t'(1) show ?case
    by (cases "snd kv = []") (simp_all add: fun_upd_def)
qed

lemma represents_fresh: "represents db freshTrie Map.empty"
  by (simp add: represents_def freshTrie_def)

lemma represents_agree: "represents db t m \<Longrightarrow> represents db t' m \<Longrightarrow> agree db (root t) (root t')"
  by (auto simp: represents_def agree_def)

lemma strip_unique_root:
  assumes "rootOk db n" "rootOk db m" "loaded n" "loaded m" "agree db n m"
  shows "strip n = strip m"
proof -
  have nil: "keys db NilNode = {}" by (simp add: keys_def)
  show ?thesis
    using assms strip_unique [of db n m] agree_keys [OF assms(5)] nil
      keys_nonempty [of db n] keys_nonempty [of db m]
    by (auto simp: rootOk_def)
qed

end
