(* ===== verification/KVStore.thy ===== *)
theory KVStore
  imports Prelude
begin

text \<open>
  The contract of a key/value store that is only partly in memory. Reading may load more of
  the store, writing may fail when a part cannot be loaded, and neither changes the contents
  in any other way. \<open>stored\<close> says what a written value reads back as (writing an empty value
  deletes the key). The trie implements this contract.
\<close>

primrec putAll :: "('s \<Rightarrow> 'k \<Rightarrow> 'v \<Rightarrow> ('e + unit) option \<times> 's) \<Rightarrow> 's \<Rightarrow> ('k \<times> 'v) list \<Rightarrow> 's option" where
  "putAll put s [] = Some s"
| "putAll put s (kv # kvs) =
     (case put s (fst kv) (snd kv) of
        (Some (Inr _), s') \<Rightarrow> putAll put s' kvs
      | _ \<Rightarrow> None)"

locale kv_store =
  fixes inv :: "'s \<Rightarrow> bool"
    and content :: "'s \<Rightarrow> 'k \<Rightarrow> 'v option \<Rightarrow> bool"
    and stored :: "'v \<Rightarrow> 'v option"
    and get :: "'s \<Rightarrow> 'k \<Rightarrow> ('e + 'v option) option \<times> 's"
    and put :: "'s \<Rightarrow> 'k \<Rightarrow> 'v \<Rightarrow> ('e + unit) option \<times> 's"
  assumes content_det: "content s k v \<Longrightarrow> content s k w \<Longrightarrow> v = w"
    and get_keeps: "inv s \<Longrightarrow> get s k = (r, s') \<Longrightarrow> inv s' \<and> content s' = content s"
    and get_reads: "inv s \<Longrightarrow> get s k = (Some (Inr v), s') \<Longrightarrow> content s k v"
    and get_returns: "inv s \<Longrightarrow> fst (get s k) \<noteq> None"
    and put_returns: "inv s \<Longrightarrow> fst (put s k x) \<noteq> None"
    and put_ok: "inv s \<Longrightarrow> put s k x = (Some (Inr u), s') \<Longrightarrow>
      inv s' \<and> (\<forall>l w. content s' l w \<longleftrightarrow> (if l = k then w = stored x else content s l w))"
    and put_err: "inv s \<Longrightarrow> put s k x = (Some (Inl e), s') \<Longrightarrow> inv s' \<and> content s' = content s"
begin

lemma putAll_content:
  "inv s \<Longrightarrow> putAll put s kvs = Some s' \<Longrightarrow>
     inv s' \<and> (\<forall>k w. content s' k w \<longleftrightarrow>
       (case map_of (rev kvs) k of Some v \<Rightarrow> w = stored v | None \<Rightarrow> content s k w))"
proof (induction kvs arbitrary: s)
  case (Cons kv kvs)
  from Cons.prems(2) obtain u t where t: "put s (fst kv) (snd kv) = (Some (Inr u), t)" "putAll put t kvs = Some s'"
    by (auto split: prod.splits option.splits sum.splits)
  note p = put_ok [OF Cons.prems(1) t(1)]
  from Cons.IH [OF conjunct1 [OF p] t(2)] p show ?case
    by (cases kv) (auto simp: map_add_def split: option.splits)
qed simp

text \<open>Whatever was written last under a key is what a later read of the key returns.\<close>

lemma last_write_read:
  assumes "inv s" "putAll put s kvs = Some s'" "map_of (rev kvs) k = Some v"
    "get s' k = (Some (Inr r), s'')"
  shows "r = stored v"
proof -
  have "inv s'" "content s' k (stored v)" using putAll_content [OF assms(1,2)] assms(3) by auto
  with get_reads [OF _ assms(4)] content_det show ?thesis by blast
qed

lemma unwritten_read:
  assumes "inv s" "putAll put s kvs = Some s'" "k \<notin> fst ` set kvs"
    "get s k = (Some (Inr v), t)" "get s' k = (Some (Inr r), s'')"
  shows "r = v"
proof -
  have "map_of (rev kvs) k = None" using assms(3) by (simp add: map_of_eq_None_iff)
  with putAll_content [OF assms(1,2)] have "inv s'" "content s' k v"
    using get_reads [OF assms(1,4)] by auto
  with get_reads [OF _ assms(5)] content_det show ?thesis by blast
qed

end

end
