(* ===== verification/TrieStore.thy ===== *)
theory TrieStore
  imports TrieCanonical KVStore
begin

text \<open>
  The trie as a key/value store: \<open>TryGet\<close> and \<open>TryUpdate\<close> meet the contract of \<open>KVStore\<close>, and
  the properties of the trie component that follow from it.
\<close>

definition storedValue :: "bytes \<Rightarrow> bytes option" where
  "storedValue v = (if v = [] then None else Some v)"

interpretation tkv: kv_store "trieOk db" "entry db" storedValue "TryGet db" "TryUpdate db" for db
proof
  fix t k v w
  show "entry db t k v \<Longrightarrow> entry db t k w \<Longrightarrow> v = w"
    unfolding entry_def by (rule holds_det)
next
  fix t k r t'
  assume ok: "trieOk db t"
  show "TryGet db t k = (r, t') \<Longrightarrow> trieOk db t' \<and> entry db t' = entry db t"
    using TryGet_reads [OF ok, of k] ok by (auto split: option.splits sum.splits)
  show "fst (TryGet db t k) \<noteq> None"
    using TryGet_reads [OF ok, of k] by (auto split: option.splits prod.splits)
next
  fix t k v t'
  assume ok: "trieOk db t"
  show "TryGet db t k = (Some (Inr v), t') \<Longrightarrow> entry db t k v"
    using TryGet_reads [OF ok, of k] by simp
next
  fix t k and v :: bytes
  assume ok: "trieOk db t"
  show "fst (TryUpdate db t k v) \<noteq> None"
    using TryUpdate_updates [OF ok, of k v] by (auto simp: updates_def)
next
  fix t k and v :: bytes and u t'
  assume ok: "trieOk db t" and p: "TryUpdate db t k v = (Some (Inr u), t')"
  show "trieOk db t' \<and> (\<forall>l w. entry db t' l w \<longleftrightarrow> (if l = k then w = storedValue v else entry db t l w))"
    using TryUpdate_updates [OF ok, of k v] p updHolds_entry [of db k "storedValue v" t t']
    by (auto simp: updates_def storedValue_def)
next
  fix t k and v :: bytes and e t'
  assume ok: "trieOk db t" and p: "TryUpdate db t k v = (Some (Inl e), t')"
  show "trieOk db t' \<and> entry db t' = entry db t"
    using TryUpdate_updates [OF ok, of k v] p ok by (auto simp: updates_def trieOk_def entry_def fun_eq_iff)
qed

text \<open>A database with one stored leaf, and a trie whose root is still only its hash.\<close>

definition leafDb :: node_db where
  "leafDb h = (if h = replicate 32 1 then Some (ShortNode [1, 2, 16] (ValueNode [7]) newFlag) else None)"

definition coldTrie :: trie where
  "coldTrie = \<lparr>root = HashNode (replicate 32 1), unhashed = 0\<rparr>"

lemma trieOk_coldTrie: "trieOk leafDb coldTrie"
  by (auto simp: trieOk_def dbOk_def rootOk_def leafDb_def coldTrie_def hasTerm_def hexkey_def
      nibbles_def isValue_def split: if_splits)

text \<open>C3: an update of the trie always comes back. It changes what the one key holds and
  nothing else, and keeps the trie in minimal form; the only failure is a node the database
  does not have, and then the root is as before.\<close>

theorem TryUpdate_spec:
  assumes "trieOk db t"
  shows "(\<exists>t'. TryUpdate db t key val = (Some (Inr ()), t') \<and> trieOk db t' \<and>
            (\<forall>k r. entry db t' k r \<longleftrightarrow>
               (if k = key then r = (if val = [] then None else Some val) else entry db t k r)))
       \<or> (\<exists>h p t'. TryUpdate db t key val = (Some (Inl (MissingNodeError h p)), t') \<and>
            db h = None \<and> root t' = root t)"
  using TryUpdate_updates [OF assms, of key val] updHolds_entry [of db key _ t]
  by (fastforce simp: updates_def missingOnly_def)

theorem TryUpdate_spec_witness:
  "\<exists>t'. TryUpdate leafDb coldTrie [0x12] [5] = (Some (Inr ()), t') \<and> trieOk leafDb t' \<and>
     entry leafDb t' [0x12] (Some [5])"
proof -
  have "fst (TryUpdate leafDb coldTrie [0x12] [5]) = Some (Inr ())" by code_simp
  with TryUpdate_spec [OF trieOk_coldTrie, of "[0x12]" "[5]"] show ?thesis by auto
qed

text \<open>C4: deleting a key removes that key and nothing else, and keeps the trie in minimal
  form; the only failure is a node the database does not have.\<close>

theorem TryDelete_spec:
  assumes "trieOk db t"
  shows "(\<exists>t'. TryDelete db t key = (Some (Inr ()), t') \<and> trieOk db t' \<and>
            (\<forall>k r. entry db t' k r \<longleftrightarrow> (if k = key then r = None else entry db t k r)))
       \<or> (\<exists>h p t'. TryDelete db t key = (Some (Inl (MissingNodeError h p)), t') \<and>
            db h = None \<and> root t' = root t)"
  using TryDelete_updates [OF assms, of key] updHolds_entry [of db key _ t]
  by (fastforce simp: updates_def missingOnly_def)

theorem TryDelete_spec_witness:
  "\<exists>t'. TryDelete leafDb coldTrie [0x12] = (Some (Inr ()), t') \<and> trieOk leafDb t' \<and>
     entry leafDb t' [0x12] None"
proof -
  have "fst (TryDelete leafDb coldTrie [0x12]) = Some (Inr ())" by code_simp
  with TryDelete_spec [OF trieOk_coldTrie, of "[0x12]"] show ?thesis by auto
qed

text \<open>C5: a lookup always comes back with what the trie holds, or with the hash of a node
  the database does not have; loading nodes on the way changes no contents.\<close>

theorem TryGet_spec:
  assumes "trieOk db t"
  shows "(\<exists>v t'. TryGet db t key = (Some (Inr v), t') \<and> entry db t key v \<and> trieOk db t' \<and> entry db t' = entry db t)
       \<or> (\<exists>h p. TryGet db t key = (Some (Inl (MissingNodeError h p)), t) \<and> db h = None)"
  using TryGet_reads [OF assms, of key]
  by (auto simp: missingOnly_def split: prod.splits option.splits sum.splits)

theorem TryGet_spec_witness:
  "\<exists>t'. TryGet leafDb coldTrie [0x12] = (Some (Inr (Some [7])), t') \<and> entry leafDb coldTrie [0x12] (Some [7])"
proof -
  have "fst (TryGet leafDb coldTrie [0x12]) = Some (Inr (Some [7]))" by code_simp
  with TryGet_spec [OF trieOk_coldTrie, of "[0x12]"] show ?thesis by auto
qed

text \<open>C6: reading a key after a run of successful updates gives the last value written to it
  (nothing, when that was the empty value), whatever the order and however much of the trie
  was still in the database.\<close>

theorem trie_last_write:
  assumes "trieOk db t" "putAll (TryUpdate db) t kvs = Some t'" "map_of (rev kvs) k = Some v"
    "TryGet db t' k = (Some (Inr r), t'')"
  shows "r = (if v = [] then None else Some v)"
  using tkv.last_write_read [OF assms] by (simp add: storedValue_def)

theorem trie_last_write_witness:
  "\<exists>t' t''. putAll (TryUpdate leafDb) coldTrie [([0x34], [9]), ([0x12], [5]), ([0x34], [])] = Some t'
     \<and> TryGet leafDb t' [0x12] = (Some (Inr (Some [5])), t'')"
proof -
  let ?kvs = "[([0x34], [9]), ([0x12], [5]), ([0x34], [])] :: (bytes \<times> bytes) list"
  have "putAll (TryUpdate leafDb) coldTrie ?kvs \<noteq> None" by code_simp
  then obtain t' where p: "putAll (TryUpdate leafDb) coldTrie ?kvs = Some t'" by blast
  have "map_option (\<lambda>t. case fst (TryGet leafDb t [0x12]) of Some (Inr _) \<Rightarrow> True | _ \<Rightarrow> False)
      (putAll (TryUpdate leafDb) coldTrie ?kvs) = Some True" by code_simp
  then obtain r t'' where g: "TryGet leafDb t' [0x12] = (Some (Inr r), t'')"
    using p by (cases "TryGet leafDb t' [0x12]") (auto split: option.splits sum.splits)
  have "map_of (rev ?kvs) [0x12] = Some [5]" by simp
  from trie_last_write [OF trieOk_coldTrie p this g] p g show ?thesis by simp
qed

text \<open>C2: the shape of the trie depends on its contents only. Two runs of updates from the
  empty trie that leave the same contents build the same nodes, cached hashes and dirty flags
  apart, so they have the same root hash.\<close>

theorem updates_history_independent:
  assumes "dbOk db" "finalMap Map.empty kvs = finalMap Map.empty kvs'"
  shows "\<exists>t t'. applyUpdates db freshTrie kvs = Some t \<and> applyUpdates db freshTrie kvs' = Some t' \<and>
           strip (root t) = strip (root t')"
proof -
  have f: "trieOk db freshTrie" "loaded (root freshTrie)"
    using assms(1) by (simp_all add: trieOk_def rootOk_def freshTrie_def)
  obtain t where t: "applyUpdates db freshTrie kvs = Some t" "trieOk db t" "loaded (root t)"
    "represents db t (finalMap Map.empty kvs)"
    using applyUpdates_represents [OF f represents_fresh] by blast
  obtain t' where t': "applyUpdates db freshTrie kvs' = Some t'" "trieOk db t'" "loaded (root t')"
    "represents db t' (finalMap Map.empty kvs')"
    using applyUpdates_represents [OF f represents_fresh] by blast
  have "agree db (root t) (root t')"
    using t(4) t'(4) unfolding assms(2) by (rule represents_agree)
  with t t' have "strip (root t) = strip (root t')"
    by (intro strip_unique_root [of db]) (simp_all add: trieOk_def)
  with t t' show ?thesis by blast
qed

theorem updates_history_independent_witness:
  "\<exists>t t'. applyUpdates leafDb freshTrie [([0x12], [1]), ([0x13], [2]), ([0x12], [])] = Some t
     \<and> applyUpdates leafDb freshTrie [([0x13], [2])] = Some t' \<and> strip (root t) = strip (root t')"
proof (rule updates_history_independent)
  show "dbOk leafDb" using trieOk_coldTrie by (simp add: trieOk_def)
  show "finalMap Map.empty [([0x12], [1]), ([0x13], [2]), ([0x12], [])] = finalMap Map.empty [([0x13], [2])]"
    by (auto simp: fun_eq_iff)
qed

end
