(* ===== verification/StateDB.thy ===== *)
theory StateDB
  imports Prelude
begin

text \<open>
  The in-memory world state of \<^verbatim>\<open>core/state\<close>: accounts as \<^verbatim>\<open>stateObject\<close>s
  (\<^verbatim>\<open>state_object.go\<close>), the change journal (\<^verbatim>\<open>journal.go\<close>) and the \<^verbatim>\<open>StateDB\<close> that ties
  them together (\<^verbatim>\<open>statedb.go\<close>).

  Reads from disk go through the argument \<open>rd\<close>: the account trie and the storage tries
  decoded to accounts and words, the contract code store, and the Keccak hash of the
  external \<^verbatim>\<open>sha3\<close> package. The optional flat snapshot is the field \<open>snap\<close>. Go iterates
  over maps in an unspecified order; such a loop takes the order as a list argument.
  Logging and the timing metrics are left out.
\<close>

subsection \<open>Accounts and state objects\<close>

type_synonym address = "160 word"
type_synonym hash = "256 word"
type_synonym storage = "hash \<rightharpoonup> hash"
type_synonym db_error = string

record Account =
  Nonce :: u64
  Balance :: int
  Root :: hash
  CodeHash :: hash

record slimAccount =
  slim_Nonce :: u64
  slim_Balance :: int
  slim_Root :: bytes
  slim_CodeHash :: bytes

text \<open>
  A storage read either fails, or yields a word, possibly together with an error that is
  only remembered (the storage trie could not be opened, or the stored value could not be
  decoded).
\<close>

datatype storage_read = ReadFailed db_error | ReadValue "db_error option" hash

record snapshot =
  snap_account :: "hash \<Rightarrow> db_error + slimAccount option"
  snap_storage :: "hash \<Rightarrow> hash \<Rightarrow> db_error + hash"

record reader =
  keccak :: "bytes \<Rightarrow> hash"
  trieAccount :: "address \<Rightarrow> db_error + Account option"
  trieStorage :: "hash \<Rightarrow> hash \<Rightarrow> hash \<Rightarrow> storage_read"
  contractCode :: "hash \<Rightarrow> hash \<Rightarrow> db_error + bytes"

definition addrBytes :: "address \<Rightarrow> bytes" where
  "addrBytes a = be_bytes 20 (unat a)"

definition hashBytes :: "hash \<Rightarrow> bytes" where
  "hashBytes h = be_bytes 32 (unat h)"

definition hashOfBytes :: "bytes \<Rightarrow> hash" where
  "hashOfBytes b = of_nat (from_be b)"

definition emptyRoot :: hash where
  "emptyRoot = 0x56e81f171bcc55a6ff8345e692c0f86e5b48e01b996cadc001622fb5e363b421"

definition emptyCodeHash :: "reader \<Rightarrow> hash" where
  "emptyCodeHash rd = keccak rd []"

record stateObject =
  so_address :: address
  so_addrHash :: hash
  so_data :: Account
  so_dbErr :: "db_error option"
  so_code :: "bytes option"
  originStorage :: storage
  pendingStorage :: storage
  dirtyStorage :: storage
  fakeStorage :: "storage option"
  dirtyCode :: bool
  suicided :: bool
  deleted :: bool

definition so_empty :: "reader \<Rightarrow> stateObject \<Rightarrow> bool" where
  "so_empty rd o1 \<longleftrightarrow> Nonce (so_data o1) = 0 \<and> Balance (so_data o1) = 0
     \<and> CodeHash (so_data o1) = emptyCodeHash rd"

text \<open>The zero \<^verbatim>\<open>Account{}\<close>, with the nil balance and code hash that \<^verbatim>\<open>newObject\<close> fills in.\<close>

definition zeroAccount :: "reader \<Rightarrow> Account" where
  "zeroAccount rd = \<lparr>Nonce = 0, Balance = 0, Root = 0, CodeHash = emptyCodeHash rd\<rparr>"

definition newObject :: "reader \<Rightarrow> address \<Rightarrow> Account \<Rightarrow> stateObject" where
  "newObject rd addr data =
     \<lparr>so_address = addr, so_addrHash = keccak rd (addrBytes addr),
      so_data = (if Root data = 0 then data\<lparr>Root := emptyRoot\<rparr> else data),
      so_dbErr = None, so_code = None,
      originStorage = Map.empty, pendingStorage = Map.empty, dirtyStorage = Map.empty,
      fakeStorage = None, dirtyCode = False, suicided = False, deleted = False\<rparr>"

definition so_setError :: "db_error option \<Rightarrow> stateObject \<Rightarrow> stateObject" where
  "so_setError e o1 = (if so_dbErr o1 = None then o1\<lparr>so_dbErr := e\<rparr> else o1)"

definition setBalanceObj :: "int \<Rightarrow> stateObject \<Rightarrow> stateObject" where
  "setBalanceObj x o1 = o1\<lparr>so_data := (so_data o1)\<lparr>Balance := x\<rparr>\<rparr>"

definition setNonceObj :: "u64 \<Rightarrow> stateObject \<Rightarrow> stateObject" where
  "setNonceObj n o1 = o1\<lparr>so_data := (so_data o1)\<lparr>Nonce := n\<rparr>\<rparr>"

definition setCodeObj :: "hash \<Rightarrow> bytes option \<Rightarrow> stateObject \<Rightarrow> stateObject" where
  "setCodeObj h c o1 =
     o1\<lparr>so_code := c, so_data := (so_data o1)\<lparr>CodeHash := h\<rparr>, dirtyCode := True\<rparr>"

definition setStateObj :: "hash \<Rightarrow> hash \<Rightarrow> stateObject \<Rightarrow> stateObject" where
  "setStateObj k v o1 = o1\<lparr>dirtyStorage := (dirtyStorage o1)(k \<mapsto> v)\<rparr>"

definition finaliseObj :: "stateObject \<Rightarrow> stateObject" where
  "finaliseObj o1 =
     o1\<lparr>pendingStorage := pendingStorage o1 ++ dirtyStorage o1, dirtyStorage := Map.empty\<rparr>"

text \<open>\<^verbatim>\<open>Code\<close> loads the bytecode on first use and keeps it in the object.\<close>

definition CodeObj :: "reader \<Rightarrow> stateObject \<Rightarrow> bytes option \<times> stateObject" where
  "CodeObj rd o1 =
     (case so_code o1 of
        Some c \<Rightarrow> (Some c, o1)
      | None \<Rightarrow>
          if CodeHash (so_data o1) = emptyCodeHash rd then (None, o1)
          else (case contractCode rd (so_addrHash o1) (CodeHash (so_data o1)) of
                  Inl e \<Rightarrow> (None, so_setError (Some e) o1)
                | Inr c \<Rightarrow> (Some c, o1\<lparr>so_code := Some c\<rparr>)))"

subsection \<open>The journal\<close>

datatype journalEntry =
    createObjectChange address
  | resetObjectChange stateObject bool
  | suicideChange address bool int
  | balanceChange address int
  | nonceChange address u64
  | storageChange address hash hash
  | codeChange address "bytes option" hash
  | refundChange u64
  | addLogChange hash
  | addPreimageChange hash
  | touchChange address

fun dirtied :: "journalEntry \<Rightarrow> address option" where
  "dirtied (createObjectChange a) = Some a"
| "dirtied (resetObjectChange _ _) = None"
| "dirtied (suicideChange a _ _) = Some a"
| "dirtied (balanceChange a _) = Some a"
| "dirtied (nonceChange a _) = Some a"
| "dirtied (storageChange a _ _) = Some a"
| "dirtied (codeChange a _ _) = Some a"
| "dirtied (refundChange _) = None"
| "dirtied (addLogChange _) = None"
| "dirtied (addPreimageChange _) = None"
| "dirtied (touchChange a) = Some a"

record journal =
  entries :: "journalEntry list"
  dirties :: "address \<rightharpoonup> int"

definition newJournal :: journal where
  "newJournal = \<lparr>entries = [], dirties = Map.empty\<rparr>"

definition dirtyCount :: "journal \<Rightarrow> address \<Rightarrow> int" where
  "dirtyCount j a = (case dirties j a of None \<Rightarrow> 0 | Some n \<Rightarrow> n)"

definition journal_dirty :: "address \<Rightarrow> journal \<Rightarrow> journal" where
  "journal_dirty a j = j\<lparr>dirties := (dirties j)(a \<mapsto> dirtyCount j a + 1)\<rparr>"

definition journal_undirty :: "address \<Rightarrow> journal \<Rightarrow> journal" where
  "journal_undirty a j =
     (if dirtyCount j a - 1 = 0 then j\<lparr>dirties := (dirties j)(a := None)\<rparr>
      else j\<lparr>dirties := (dirties j)(a \<mapsto> dirtyCount j a - 1)\<rparr>)"

definition journal_append :: "journalEntry \<Rightarrow> journal \<Rightarrow> journal" where
  "journal_append e j =
     (let j' = j\<lparr>entries := entries j @ [e]\<rparr>
      in case dirtied e of None \<Rightarrow> j' | Some a \<Rightarrow> journal_dirty a j')"

subsection \<open>The state database\<close>

record Log =
  log_Address :: address
  log_Topics :: "hash list"
  log_Data :: bytes
  log_BlockNumber :: u64
  log_TxHash :: hash
  log_TxIndex :: u64
  log_BlockHash :: hash
  log_Index :: u64

record revision =
  rev_id :: int
  rev_journalIndex :: nat

record StateDB =
  snap :: "snapshot option"
  snapDestructs :: "hash set"
  snapAccounts :: "hash \<rightharpoonup> slimAccount"
  snapStorage :: "hash \<rightharpoonup> (hash \<rightharpoonup> bytes)"
  stateObjects :: "address \<rightharpoonup> stateObject"
  stateObjectsPending :: "address set"
  stateObjectsDirty :: "address set"
  dbErr :: "db_error option"
  refund :: u64
  thash :: hash
  bhash :: hash
  txIndex :: int
  logs :: "hash \<rightharpoonup> Log list"
  logSize :: u64
  preimages :: "hash \<rightharpoonup> bytes"
  journal :: journal
  validRevisions :: "revision list"
  nextRevisionId :: int

definition newStateDB :: "snapshot option \<Rightarrow> StateDB" where
  "newStateDB sn =
     \<lparr>snap = sn, snapDestructs = {}, snapAccounts = Map.empty, snapStorage = Map.empty,
      stateObjects = Map.empty, stateObjectsPending = {}, stateObjectsDirty = {},
      dbErr = None, refund = 0, thash = 0, bhash = 0, txIndex = 0, logs = Map.empty,
      logSize = 0, preimages = Map.empty, journal = newJournal, validRevisions = [],
      nextRevisionId = 0\<rparr>"

definition setError :: "db_error option \<Rightarrow> StateDB \<Rightarrow> StateDB" where
  "setError e s = (if dbErr s = None then s\<lparr>dbErr := e\<rparr> else s)"

definition record_change :: "journalEntry \<Rightarrow> StateDB \<Rightarrow> StateDB" where
  "record_change e s = s\<lparr>journal := journal_append e (journal s)\<rparr>"

definition setStateObject :: "stateObject \<Rightarrow> StateDB \<Rightarrow> StateDB" where
  "setStateObject o1 s = s\<lparr>stateObjects := (stateObjects s)(so_address o1 \<mapsto> o1)\<rparr>"

definition accountOfSlim :: "reader \<Rightarrow> slimAccount \<Rightarrow> Account" where
  "accountOfSlim rd acc =
     \<lparr>Nonce = slim_Nonce acc, Balance = slim_Balance acc,
      Root = (if hashOfBytes (slim_Root acc) = 0 then emptyRoot else hashOfBytes (slim_Root acc)),
      CodeHash = (if slim_CodeHash acc = [] then emptyCodeHash rd
                  else hashOfBytes (slim_CodeHash acc))\<rparr>"

text \<open>
  The account read of \<^verbatim>\<open>getDeletedStateObject\<close>: the snapshot if there is one and it
  answers, the account trie otherwise.
\<close>

definition loadAccount :: "reader \<Rightarrow> snapshot option \<Rightarrow> address \<Rightarrow> db_error + Account option" where
  "loadAccount rd sn addr =
     (let fromSnap = (case sn of
            None \<Rightarrow> None
          | Some sn \<Rightarrow> (case snap_account sn (keccak rd (addrBytes addr)) of
                Inl _ \<Rightarrow> None
              | Inr acc \<Rightarrow> Some (map_option (accountOfSlim rd) acc)))
      in case fromSnap of Some acc \<Rightarrow> Inr acc | None \<Rightarrow> trieAccount rd addr)"

definition getDeletedStateObject ::
    "reader \<Rightarrow> address \<Rightarrow> StateDB \<Rightarrow> stateObject option \<times> StateDB" where
  "getDeletedStateObject rd addr s =
     (case stateObjects s addr of
        Some o1 \<Rightarrow> (Some o1, s)
      | None \<Rightarrow>
          (case loadAccount rd (snap s) addr of
             Inl e \<Rightarrow> (None, setError (Some e) s)
           | Inr None \<Rightarrow> (None, s)
           | Inr (Some data) \<Rightarrow>
               let o1 = newObject rd addr data in (Some o1, setStateObject o1 s)))"

definition getStateObject ::
    "reader \<Rightarrow> address \<Rightarrow> StateDB \<Rightarrow> stateObject option \<times> StateDB" where
  "getStateObject rd addr s =
     (case getDeletedStateObject rd addr s of
        (Some o1, s') \<Rightarrow> (if \<not> deleted o1 then Some o1 else None, s')
      | (None, s') \<Rightarrow> (None, s'))"

definition createObject ::
    "reader \<Rightarrow> address \<Rightarrow> StateDB \<Rightarrow> stateObject \<times> stateObject option \<times> StateDB" where
  "createObject rd addr s0 =
     (let (prev, s1) = getDeletedStateObject rd addr s0;
          (prevdestruct, s2) =
            (case (snap s1, prev) of
               (Some _, Some p) \<Rightarrow>
                 (so_addrHash p \<in> snapDestructs s1,
                  s1\<lparr>snapDestructs := insert (so_addrHash p) (snapDestructs s1)\<rparr>)
             | _ \<Rightarrow> (False, s1));
          newobj = setNonceObj 0 (newObject rd addr (zeroAccount rd));
          s3 = (case prev of
                  None \<Rightarrow> record_change (createObjectChange addr) s2
                | Some p \<Rightarrow> record_change (resetObjectChange p prevdestruct) s2);
          s4 = setStateObject newobj s3
      in (newobj, (case prev of Some p \<Rightarrow> if \<not> deleted p then Some p else None | None \<Rightarrow> None), s4))"

definition GetOrNewStateObject ::
    "reader \<Rightarrow> address \<Rightarrow> StateDB \<Rightarrow> stateObject \<times> StateDB" where
  "GetOrNewStateObject rd addr s =
     (case getStateObject rd addr s of
        (Some o1, s') \<Rightarrow> (o1, s')
      | (None, s') \<Rightarrow> (case createObject rd addr s' of (o1, _, s'') \<Rightarrow> (o1, s'')))"

definition CreateAccount :: "reader \<Rightarrow> address \<Rightarrow> StateDB \<Rightarrow> StateDB" where
  "CreateAccount rd addr s =
     (case createObject rd addr s of
        (newobj, Some prev, s') \<Rightarrow>
          setStateObject (setBalanceObj (Balance (so_data prev)) newobj) s'
      | (newobj, None, s') \<Rightarrow> s')"

subsection \<open>Queries\<close>

definition Exist :: "reader \<Rightarrow> address \<Rightarrow> StateDB \<Rightarrow> bool \<times> StateDB" where
  "Exist rd addr s = (case getStateObject rd addr s of (so, s') \<Rightarrow> (so \<noteq> None, s'))"

definition Empty :: "reader \<Rightarrow> address \<Rightarrow> StateDB \<Rightarrow> bool \<times> StateDB" where
  "Empty rd addr s =
     (case getStateObject rd addr s of
        (None, s') \<Rightarrow> (True, s')
      | (Some o1, s') \<Rightarrow> (so_empty rd o1, s'))"

definition GetBalance :: "reader \<Rightarrow> address \<Rightarrow> StateDB \<Rightarrow> int \<times> StateDB" where
  "GetBalance rd addr s =
     (case getStateObject rd addr s of
        (Some o1, s') \<Rightarrow> (Balance (so_data o1), s')
      | (None, s') \<Rightarrow> (0, s'))"

definition GetNonce :: "reader \<Rightarrow> address \<Rightarrow> StateDB \<Rightarrow> u64 \<times> StateDB" where
  "GetNonce rd addr s =
     (case getStateObject rd addr s of
        (Some o1, s') \<Rightarrow> (Nonce (so_data o1), s')
      | (None, s') \<Rightarrow> (0, s'))"

definition GetCode :: "reader \<Rightarrow> address \<Rightarrow> StateDB \<Rightarrow> bytes option \<times> StateDB" where
  "GetCode rd addr s =
     (case getStateObject rd addr s of
        (Some o1, s') \<Rightarrow> (case CodeObj rd o1 of (c, o2) \<Rightarrow> (c, setStateObject o2 s'))
      | (None, s') \<Rightarrow> (None, s'))"

text \<open>
  \<^verbatim>\<open>CodeSize\<close> asks the database for the size without keeping the code. The database answers
  with the length of the code it stores.
\<close>

definition CodeSizeObj :: "reader \<Rightarrow> stateObject \<Rightarrow> nat \<times> stateObject" where
  "CodeSizeObj rd o1 =
     (case so_code o1 of
        Some c \<Rightarrow> (length c, o1)
      | None \<Rightarrow>
          if CodeHash (so_data o1) = emptyCodeHash rd then (0, o1)
          else (case contractCode rd (so_addrHash o1) (CodeHash (so_data o1)) of
                  Inl e \<Rightarrow> (0, so_setError (Some e) o1)
                | Inr c \<Rightarrow> (length c, o1)))"

definition GetCodeSize :: "reader \<Rightarrow> address \<Rightarrow> StateDB \<Rightarrow> nat \<times> StateDB" where
  "GetCodeSize rd addr s =
     (case getStateObject rd addr s of
        (Some o1, s') \<Rightarrow> (case CodeSizeObj rd o1 of (n, o2) \<Rightarrow> (n, setStateObject o2 s'))
      | (None, s') \<Rightarrow> (0, s'))"

definition GetCodeHash :: "reader \<Rightarrow> address \<Rightarrow> StateDB \<Rightarrow> hash \<times> StateDB" where
  "GetCodeHash rd addr s =
     (case getStateObject rd addr s of
        (Some o1, s') \<Rightarrow> (CodeHash (so_data o1), s')
      | (None, s') \<Rightarrow> (0, s'))"

definition HasSuicided :: "reader \<Rightarrow> address \<Rightarrow> StateDB \<Rightarrow> bool \<times> StateDB" where
  "HasSuicided rd addr s =
     (case getStateObject rd addr s of
        (Some o1, s') \<Rightarrow> (suicided o1, s')
      | (None, s') \<Rightarrow> (False, s'))"

text \<open>
  A storage read that reaches the disk: wiped when the account was destructed in this block
  and a snapshot is in use, otherwise the snapshot if it answers, otherwise the storage trie.
\<close>

datatype slot_read = SlotWiped | SlotRead storage_read

definition diskSlot :: "reader \<Rightarrow> StateDB \<Rightarrow> hash \<Rightarrow> hash \<Rightarrow> hash \<Rightarrow> slot_read" where
  "diskSlot rd s addrHash root key =
     (case snap s of
        None \<Rightarrow> SlotRead (trieStorage rd addrHash root key)
      | Some sn \<Rightarrow>
          if addrHash \<in> snapDestructs s then SlotWiped
          else (case snap_storage sn addrHash (keccak rd (hashBytes key)) of
                  Inl _ \<Rightarrow> SlotRead (trieStorage rd addrHash root key)
                | Inr v \<Rightarrow> SlotRead (ReadValue None v)))"

text \<open>
  A storage read below the dirty slots: pending slot, cached slot, then disk. The result
  carries the value and what the read leaves in the object.
\<close>

definition GetCommittedStateObj ::
    "reader \<Rightarrow> StateDB \<Rightarrow> hash \<Rightarrow> stateObject \<Rightarrow> hash \<times> stateObject" where
  "GetCommittedStateObj rd s key o1 =
     (case fakeStorage o1 of
        Some f \<Rightarrow> (case f key of Some v \<Rightarrow> v | None \<Rightarrow> 0, o1)
      | None \<Rightarrow>
     (case pendingStorage o1 key of
        Some v \<Rightarrow> (v, o1)
      | None \<Rightarrow>
     (case originStorage o1 key of
        Some v \<Rightarrow> (v, o1)
      | None \<Rightarrow>
     (case diskSlot rd s (so_addrHash o1) (Root (so_data o1)) key of
        SlotWiped \<Rightarrow> (0, o1)
      | SlotRead (ReadFailed e) \<Rightarrow> (0, so_setError (Some e) o1)
      | SlotRead (ReadValue e v) \<Rightarrow>
          (v, (so_setError e o1)\<lparr>originStorage := (originStorage o1)(key \<mapsto> v)\<rparr>)))))"

definition GetStateObj ::
    "reader \<Rightarrow> StateDB \<Rightarrow> hash \<Rightarrow> stateObject \<Rightarrow> hash \<times> stateObject" where
  "GetStateObj rd s key o1 =
     (case fakeStorage o1 of
        Some f \<Rightarrow> (case f key of Some v \<Rightarrow> v | None \<Rightarrow> 0, o1)
      | None \<Rightarrow>
     (case dirtyStorage o1 key of
        Some v \<Rightarrow> (v, o1)
      | None \<Rightarrow> GetCommittedStateObj rd s key o1))"

definition GetState :: "reader \<Rightarrow> address \<Rightarrow> hash \<Rightarrow> StateDB \<Rightarrow> hash \<times> StateDB" where
  "GetState rd addr key s =
     (case getStateObject rd addr s of
        (Some o1, s') \<Rightarrow> (case GetStateObj rd s' key o1 of (v, o2) \<Rightarrow> (v, setStateObject o2 s'))
      | (None, s') \<Rightarrow> (0, s'))"

definition GetCommittedState :: "reader \<Rightarrow> address \<Rightarrow> hash \<Rightarrow> StateDB \<Rightarrow> hash \<times> StateDB" where
  "GetCommittedState rd addr key s =
     (case getStateObject rd addr s of
        (Some o1, s') \<Rightarrow>
          (case GetCommittedStateObj rd s' key o1 of (v, o2) \<Rightarrow> (v, setStateObject o2 s'))
      | (None, s') \<Rightarrow> (0, s'))"

subsection \<open>Updates\<close>

definition ripemd :: address where
  "ripemd = 3"

definition touch :: "stateObject \<Rightarrow> StateDB \<Rightarrow> StateDB" where
  "touch o1 s =
     (let s' = record_change (touchChange (so_address o1)) s
      in if so_address o1 = ripemd
         then s'\<lparr>journal := journal_dirty (so_address o1) (journal s')\<rparr> else s')"

definition SetBalanceObj :: "int \<Rightarrow> stateObject \<Rightarrow> StateDB \<Rightarrow> StateDB" where
  "SetBalanceObj x o1 s =
     setStateObject (setBalanceObj x o1)
       (record_change (balanceChange (so_address o1) (Balance (so_data o1))) s)"

definition AddBalance :: "reader \<Rightarrow> address \<Rightarrow> int \<Rightarrow> StateDB \<Rightarrow> StateDB" where
  "AddBalance rd addr amount s =
     (case GetOrNewStateObject rd addr s of
        (o1, s') \<Rightarrow>
          if amount = 0 then (if so_empty rd o1 then touch o1 s' else s')
          else SetBalanceObj (Balance (so_data o1) + amount) o1 s')"

definition SubBalance :: "reader \<Rightarrow> address \<Rightarrow> int \<Rightarrow> StateDB \<Rightarrow> StateDB" where
  "SubBalance rd addr amount s =
     (case GetOrNewStateObject rd addr s of
        (o1, s') \<Rightarrow>
          if amount = 0 then s'
          else SetBalanceObj (Balance (so_data o1) - amount) o1 s')"

definition SetBalance :: "reader \<Rightarrow> address \<Rightarrow> int \<Rightarrow> StateDB \<Rightarrow> StateDB" where
  "SetBalance rd addr amount s =
     (case GetOrNewStateObject rd addr s of (o1, s') \<Rightarrow> SetBalanceObj amount o1 s')"

definition SetNonce :: "reader \<Rightarrow> address \<Rightarrow> u64 \<Rightarrow> StateDB \<Rightarrow> StateDB" where
  "SetNonce rd addr n s =
     (case GetOrNewStateObject rd addr s of
        (o1, s') \<Rightarrow>
          setStateObject (setNonceObj n o1)
            (record_change (nonceChange (so_address o1) (Nonce (so_data o1))) s'))"

definition SetCode :: "reader \<Rightarrow> address \<Rightarrow> bytes \<Rightarrow> StateDB \<Rightarrow> StateDB" where
  "SetCode rd addr code s =
     (case GetOrNewStateObject rd addr s of
        (o1, s') \<Rightarrow>
          (case CodeObj rd o1 of
             (prevcode, o2) \<Rightarrow>
               setStateObject (setCodeObj (keccak rd code) (Some code) o2)
                 (record_change (codeChange (so_address o2) prevcode (CodeHash (so_data o2))) s')))"

definition SetState :: "reader \<Rightarrow> address \<Rightarrow> hash \<Rightarrow> hash \<Rightarrow> StateDB \<Rightarrow> StateDB" where
  "SetState rd addr key value s =
     (case GetOrNewStateObject rd addr s of
        (o1, s') \<Rightarrow>
          (case fakeStorage o1 of
             Some f \<Rightarrow> setStateObject (o1\<lparr>fakeStorage := Some (f(key \<mapsto> value))\<rparr>) s'
           | None \<Rightarrow>
               (case GetStateObj rd s' key o1 of
                  (prev, o2) \<Rightarrow>
                    if prev = value then setStateObject o2 s'
                    else setStateObject (setStateObj key value o2)
                           (record_change (storageChange (so_address o2) key prev) s'))))"

definition Suicide :: "reader \<Rightarrow> address \<Rightarrow> StateDB \<Rightarrow> bool \<times> StateDB" where
  "Suicide rd addr s =
     (case getStateObject rd addr s of
        (None, s') \<Rightarrow> (False, s')
      | (Some o1, s') \<Rightarrow>
          (True, setStateObject (setBalanceObj 0 (o1\<lparr>suicided := True\<rparr>))
             (record_change (suicideChange addr (suicided o1) (Balance (so_data o1))) s')))"

definition AddLog :: "Log \<Rightarrow> StateDB \<Rightarrow> StateDB" where
  "AddLog log s0 =
     (let s = record_change (addLogChange (thash s0)) s0;
          log' = log\<lparr>log_TxHash := thash s, log_BlockHash := bhash s,
                     log_TxIndex := of_int (txIndex s), log_Index := logSize s\<rparr>;
          old = (case logs s (thash s) of None \<Rightarrow> [] | Some l \<Rightarrow> l)
      in s\<lparr>logs := (logs s)(thash s \<mapsto> old @ [log']), logSize := logSize s + 1\<rparr>)"

definition AddPreimage :: "hash \<Rightarrow> bytes \<Rightarrow> StateDB \<Rightarrow> StateDB" where
  "AddPreimage h pre s =
     (if preimages s h = None
      then (record_change (addPreimageChange h) s)\<lparr>preimages := (preimages s)(h \<mapsto> pre)\<rparr>
      else s)"

definition AddRefund :: "u64 \<Rightarrow> StateDB \<Rightarrow> StateDB" where
  "AddRefund gas s = (record_change (refundChange (refund s)) s)\<lparr>refund := refund s + gas\<rparr>"

definition GetRefund :: "StateDB \<Rightarrow> u64" where
  "GetRefund s = refund s"

text \<open>\<^verbatim>\<open>SubRefund\<close> panics below zero; the panic is \<open>None\<close>.\<close>

definition SubRefund :: "u64 \<Rightarrow> StateDB \<Rightarrow> StateDB option" where
  "SubRefund gas s =
     (let s' = record_change (refundChange (refund s)) s
      in if gas > refund s' then None else Some (s'\<lparr>refund := refund s' - gas\<rparr>))"

definition Prepare :: "hash \<Rightarrow> hash \<Rightarrow> int \<Rightarrow> StateDB \<Rightarrow> StateDB" where
  "Prepare th bh ti s = s\<lparr>thash := th, bhash := bh, txIndex := ti\<rparr>"

subsection \<open>Snapshots and reverting\<close>

text \<open>
  Undoing one journal entry. The nil dereference of the account setters, when the account
  is gone, is \<open>None\<close>.
\<close>

definition onObject :: "reader \<Rightarrow> address \<Rightarrow> (stateObject \<Rightarrow> stateObject) \<Rightarrow> StateDB \<Rightarrow> StateDB option" where
  "onObject rd addr f s =
     (case getStateObject rd addr s of
        (Some o1, s') \<Rightarrow> Some (setStateObject (f o1) s')
      | (None, _) \<Rightarrow> None)"

fun revertEntry :: "reader \<Rightarrow> journalEntry \<Rightarrow> StateDB \<Rightarrow> StateDB option" where
  "revertEntry rd (createObjectChange a) s =
     Some (s\<lparr>stateObjects := (stateObjects s)(a := None),
             stateObjectsDirty := stateObjectsDirty s - {a}\<rparr>)"
| "revertEntry rd (resetObjectChange prev prevdestruct) s =
     (let s' = setStateObject prev s
      in Some (if \<not> prevdestruct \<and> snap s' \<noteq> None
               then s'\<lparr>snapDestructs := snapDestructs s' - {so_addrHash prev}\<rparr> else s'))"
| "revertEntry rd (suicideChange a prev prevbalance) s =
     (case getStateObject rd a s of
        (Some o1, s') \<Rightarrow> Some (setStateObject (setBalanceObj prevbalance (o1\<lparr>suicided := prev\<rparr>)) s')
      | (None, s') \<Rightarrow> Some s')"
| "revertEntry rd (touchChange a) s = Some s"
| "revertEntry rd (balanceChange a prev) s = onObject rd a (setBalanceObj prev) s"
| "revertEntry rd (nonceChange a prev) s = onObject rd a (setNonceObj prev) s"
| "revertEntry rd (codeChange a prevcode prevhash) s = onObject rd a (setCodeObj prevhash prevcode) s"
| "revertEntry rd (storageChange a key prevalue) s = onObject rd a (setStateObj key prevalue) s"
| "revertEntry rd (refundChange prev) s = Some (s\<lparr>refund := prev\<rparr>)"
| "revertEntry rd (addLogChange th) s =
     (let ls = (case logs s th of None \<Rightarrow> [] | Some l \<Rightarrow> l)
      in if length ls = 1
         then Some (s\<lparr>logs := (logs s)(th := None), logSize := logSize s - 1\<rparr>)
         else if ls = [] then None
         else Some (s\<lparr>logs := (logs s)(th \<mapsto> butlast ls), logSize := logSize s - 1\<rparr>))"
| "revertEntry rd (addPreimageChange h) s = Some (s\<lparr>preimages := (preimages s)(h := None)\<rparr>)"

text \<open>The loop of \<^verbatim>\<open>journal.revert\<close>, over the entries to undo, latest first.\<close>

fun revertLoop :: "reader \<Rightarrow> journalEntry list \<Rightarrow> StateDB \<Rightarrow> StateDB option" where
  "revertLoop rd [] s = Some s"
| "revertLoop rd (e # es) s =
     (case revertEntry rd e s of
        None \<Rightarrow> None
      | Some s1 \<Rightarrow>
          revertLoop rd es (case dirtied e of
              None \<Rightarrow> s1
            | Some a \<Rightarrow> s1\<lparr>journal := journal_undirty a (journal s1)\<rparr>))"

definition journal_revert :: "reader \<Rightarrow> nat \<Rightarrow> StateDB \<Rightarrow> StateDB option" where
  "journal_revert rd snapshotIdx s =
     map_option (\<lambda>s'. s'\<lparr>journal := (journal s')\<lparr>entries := take snapshotIdx (entries (journal s'))\<rparr>\<rparr>)
       (revertLoop rd (rev (drop snapshotIdx (entries (journal s)))) s)"

definition Snapshot :: "StateDB \<Rightarrow> int \<times> StateDB" where
  "Snapshot s =
     (let id = nextRevisionId s
      in (id, s\<lparr>nextRevisionId := id + 1,
                validRevisions := validRevisions s @
                  [\<lparr>rev_id = id, rev_journalIndex = length (entries (journal s))\<rparr>]\<rparr>))"

text \<open>\<^verbatim>\<open>sort.Search\<close> on the ascending revision list: the first index that satisfies the test.\<close>

fun searchRevision :: "revision list \<Rightarrow> int \<Rightarrow> nat" where
  "searchRevision [] revid = 0"
| "searchRevision (r # rs) revid = (if rev_id r \<ge> revid then 0 else Suc (searchRevision rs revid))"

definition RevertToSnapshot :: "reader \<Rightarrow> int \<Rightarrow> StateDB \<Rightarrow> StateDB option" where
  "RevertToSnapshot rd revid s =
     (let idx = searchRevision (validRevisions s) revid
      in if idx = length (validRevisions s) \<or> rev_id (validRevisions s ! idx) \<noteq> revid then None
         else map_option (\<lambda>s'. s'\<lparr>validRevisions := take idx (validRevisions s')\<rparr>)
                (journal_revert rd (rev_journalIndex (validRevisions s ! idx)) s))"

subsection \<open>The end of a transaction\<close>

definition clearJournalAndRefund :: "StateDB \<Rightarrow> StateDB" where
  "clearJournalAndRefund s0 =
     (let s = (if length (entries (journal s0)) > 0
               then s0\<lparr>journal := newJournal, refund := 0\<rparr> else s0)
      in s\<lparr>validRevisions := []\<rparr>)"

definition finaliseOne :: "reader \<Rightarrow> bool \<Rightarrow> address \<Rightarrow> StateDB \<Rightarrow> StateDB" where
  "finaliseOne rd deleteEmptyObjects addr s =
     (case stateObjects s addr of
        None \<Rightarrow> s
      | Some o1 \<Rightarrow>
          let s1 = (if suicided o1 \<or> deleteEmptyObjects \<and> so_empty rd o1
                    then let s1 = s\<lparr>stateObjects := (stateObjects s)(addr \<mapsto> o1\<lparr>deleted := True\<rparr>)\<rparr>
                         in if snap s1 \<noteq> None
                            then s1\<lparr>snapDestructs := insert (so_addrHash o1) (snapDestructs s1),
                                    snapAccounts := (snapAccounts s1)(so_addrHash o1 := None),
                                    snapStorage := (snapStorage s1)(so_addrHash o1 := None)\<rparr>
                            else s1
                    else s\<lparr>stateObjects := (stateObjects s)(addr \<mapsto> finaliseObj o1)\<rparr>)
          in s1\<lparr>stateObjectsPending := insert addr (stateObjectsPending s1),
                stateObjectsDirty := insert addr (stateObjectsDirty s1)\<rparr>)"

text \<open>\<open>order\<close> lists the addresses of \<^verbatim>\<open>journal.dirties\<close> in the order the map is walked.\<close>

definition Finalise :: "reader \<Rightarrow> address list \<Rightarrow> bool \<Rightarrow> StateDB \<Rightarrow> StateDB" where
  "Finalise rd order deleteEmptyObjects s =
     clearJournalAndRefund (fold (finaliseOne rd deleteEmptyObjects) order s)"

subsection \<open>Transfers\<close>

definition CanTransfer :: "reader \<Rightarrow> address \<Rightarrow> int \<Rightarrow> StateDB \<Rightarrow> bool \<times> StateDB" where
  "CanTransfer rd addr amount s =
     (case GetBalance rd addr s of (b, s') \<Rightarrow> (amount \<le> b, s'))"

definition Transfer :: "reader \<Rightarrow> address \<Rightarrow> address \<Rightarrow> int \<Rightarrow> StateDB \<Rightarrow> StateDB" where
  "Transfer rd sender recipient amount s =
     AddBalance rd recipient amount (SubBalance rd sender amount s)"

end
