(* ===== verification/StateWorld.thy ===== *)
theory StateWorld
  imports StateDB
begin

text \<open>
  The world a state database stands for, and what its operations do to it. \<open>absState\<close> maps the
  caches of \<^verbatim>\<open>StateDB\<close> (live objects, slots read from disk, code read from disk) to the
  accounts an observer can read. Queries are shown to be \<open>quiet\<close>: they may load and cache, but
  the world stays the same. Every mutator is shown to be a \<open>changes\<close> step: it appends journal
  entries, and undoing these entries leads back to the world before the call, from any
  database that stands for the world after it.
\<close>

subsection \<open>The world a state database represents\<close>

record acctView =
  av_data :: Account
  av_code :: bytes
  av_suicided :: bool
  av_deleted :: bool
  av_storage :: "hash \<Rightarrow> hash"
  av_committed :: "hash \<Rightarrow> hash"

definition viewObj :: "reader \<Rightarrow> StateDB \<Rightarrow> stateObject \<Rightarrow> acctView" where
  "viewObj rd s o1 =
     \<lparr>av_data = so_data o1,
      av_code = (case fst (CodeObj rd o1) of None \<Rightarrow> [] | Some c \<Rightarrow> c),
      av_suicided = suicided o1, av_deleted = deleted o1,
      av_storage = (\<lambda>k. fst (GetStateObj rd s k o1)),
      av_committed = (\<lambda>k. fst (GetCommittedStateObj rd s k o1))\<rparr>"

definition peekObj :: "reader \<Rightarrow> StateDB \<Rightarrow> address \<Rightarrow> stateObject option" where
  "peekObj rd s addr =
     (case stateObjects s addr of
        Some o1 \<Rightarrow> Some o1
      | None \<Rightarrow> (case loadAccount rd (snap s) addr of
                    Inr (Some data) \<Rightarrow> Some (newObject rd addr data) | _ \<Rightarrow> None))"

record world =
  w_accts :: "address \<Rightarrow> acctView option"
  w_snap :: "snapshot option"
  w_destructs :: "hash set"
  w_refund :: u64
  w_logs :: "hash \<Rightarrow> Log list"
  w_logSize :: u64
  w_preimages :: "hash \<rightharpoonup> bytes"
  w_tx :: "hash \<times> hash \<times> int"

definition absState :: "reader \<Rightarrow> StateDB \<Rightarrow> world" where
  "absState rd s =
     \<lparr>w_accts = (\<lambda>a. map_option (viewObj rd s) (peekObj rd s a)),
      w_snap = snap s, w_destructs = snapDestructs s, w_refund = refund s, w_logs = (\<lambda>h. case logs s h of None \<Rightarrow> [] | Some l \<Rightarrow> l),
      w_logSize = logSize s, w_preimages = preimages s, w_tx = (thash s, bhash s, txIndex s)\<rparr>"

text \<open>
  Well-formedness: objects sit under their own address, carry the hash of that address
  and have no debugging storage.
\<close>

definition objOk :: "reader \<Rightarrow> stateObject \<Rightarrow> bool" where
  "objOk rd o1 \<longleftrightarrow> so_addrHash o1 = keccak rd (addrBytes (so_address o1)) \<and> fakeStorage o1 = None"

definition objectsOk :: "reader \<Rightarrow> StateDB \<Rightarrow> bool" where
  "objectsOk rd s \<longleftrightarrow>
     (\<forall>a o1. stateObjects s a = Some o1 \<longrightarrow> so_address o1 = a \<and> objOk rd o1)"

named_theorems obj_simps \<open>selectors of updated state objects\<close>

lemma obj_update_simps [simp, obj_simps]:
  "so_address (setBalanceObj x o1) = so_address o1"
  "so_address (setNonceObj n o1) = so_address o1"
  "so_address (setCodeObj h c o1) = so_address o1"
  "so_address (setStateObj k v o1) = so_address o1"
  "so_address (newObject rd a d) = a"
  "so_address (so_setError e o1) = so_address o1"
  "objOk rd (setBalanceObj x o1) = objOk rd o1"
  "objOk rd (setNonceObj n o1) = objOk rd o1"
  "objOk rd (setCodeObj h c o1) = objOk rd o1"
  "objOk rd (setStateObj k v o1) = objOk rd o1"
  "objOk rd (newObject rd a d)"
  "objOk rd (so_setError e o1) = objOk rd o1"
  "deleted (newObject rd a d) = False"
  by (simp_all add: setBalanceObj_def setNonceObj_def setCodeObj_def setStateObj_def
      newObject_def so_setError_def objOk_def)

lemma diskSlot_cong:
  "snap s = snap t \<Longrightarrow> h \<in> snapDestructs s \<longleftrightarrow> h \<in> snapDestructs t \<Longrightarrow>
     diskSlot rd s h r k = diskSlot rd t h r k"
  by (simp add: diskSlot_def split: option.split)

lemma viewObj_cong:
  assumes "snap s = snap t" "so_addrHash o1 \<in> snapDestructs s \<longleftrightarrow> so_addrHash o1 \<in> snapDestructs t"
  shows "viewObj rd s o1 = viewObj rd t o1"
proof -
  have c: "GetCommittedStateObj rd s k o1 = GetCommittedStateObj rd t k o1" for k
    using diskSlot_cong [OF assms] by (simp add: GetCommittedStateObj_def split: option.split)
  then have "GetStateObj rd s k o1 = GetStateObj rd t k o1" for k
    by (simp add: GetStateObj_def split: option.split)
  with c show ?thesis by (simp add: viewObj_def)
qed

lemma viewObj_same [simp]:
  "viewObj rd (s\<lparr>stateObjects := x\<rparr>) = viewObj rd s"
  "viewObj rd (s\<lparr>journal := j\<rparr>) = viewObj rd s"
  "viewObj rd (s\<lparr>dbErr := e\<rparr>) = viewObj rd s"
  "viewObj rd (s\<lparr>refund := r\<rparr>) = viewObj rd s"
  "viewObj rd (s\<lparr>logs := l\<rparr>) = viewObj rd s"
  "viewObj rd (s\<lparr>logSize := n\<rparr>) = viewObj rd s"
  "viewObj rd (s\<lparr>preimages := p\<rparr>) = viewObj rd s"
  "viewObj rd (s\<lparr>stateObjectsDirty := d\<rparr>) = viewObj rd s"
  "viewObj rd (s\<lparr>validRevisions := v\<rparr>) = viewObj rd s"
  "viewObj rd (s\<lparr>nextRevisionId := n'\<rparr>) = viewObj rd s"
  by (rule ext, rule viewObj_cong, simp_all)+

subsection \<open>Reads do not change the world\<close>

lemma so_setError_simps [simp]:
  "so_data (so_setError e o1) = so_data o1"
  "so_code (so_setError e o1) = so_code o1"
  "so_addrHash (so_setError e o1) = so_addrHash o1"
  "suicided (so_setError e o1) = suicided o1"
  "deleted (so_setError e o1) = deleted o1"
  "originStorage (so_setError e o1) = originStorage o1"
  "pendingStorage (so_setError e o1) = pendingStorage o1"
  "dirtyStorage (so_setError e o1) = dirtyStorage o1"
  "fakeStorage (so_setError e o1) = fakeStorage o1"
  by (simp_all add: so_setError_def)

lemma fst_GetCommittedStateObj_cong:
  assumes "fakeStorage o1 = fakeStorage o2" "pendingStorage o1 = pendingStorage o2"
    "originStorage o1 = originStorage o2" "so_addrHash o1 = so_addrHash o2"
    "Root (so_data o1) = Root (so_data o2)"
  shows "fst (GetCommittedStateObj rd s k o1) = fst (GetCommittedStateObj rd s k o2)"
  using assms by (simp add: GetCommittedStateObj_def split: option.split storage_read.split slot_read.split)

lemma fst_GetStateObj_cong:
  assumes "fakeStorage o1 = fakeStorage o2" "pendingStorage o1 = pendingStorage o2"
    "originStorage o1 = originStorage o2" "so_addrHash o1 = so_addrHash o2"
    "Root (so_data o1) = Root (so_data o2)" "dirtyStorage o1 = dirtyStorage o2"
  shows "fst (GetStateObj rd s k o1) = fst (GetStateObj rd s k o2)"
  using assms fst_GetCommittedStateObj_cong [of o1 o2 rd s k]
  by (simp add: GetStateObj_def split: option.split)

lemma fst_CodeObj_cong:
  assumes "so_code o1 = so_code o2" "CodeHash (so_data o1) = CodeHash (so_data o2)"
    "so_addrHash o1 = so_addrHash o2"
  shows "fst (CodeObj rd o1) = fst (CodeObj rd o2)"
  using assms by (simp add: CodeObj_def split: option.split sum.split)

lemma viewObj_setError [simp]: "viewObj rd s (so_setError e o1) = viewObj rd s o1"
  by (simp add: viewObj_def fst_GetCommittedStateObj_cong [of "so_setError e o1" o1]
      fst_GetStateObj_cong [of "so_setError e o1" o1] fst_CodeObj_cong [of "so_setError e o1" o1])

lemma viewObj_CodeObj [simp]: "viewObj rd s (snd (CodeObj rd o1)) = viewObj rd s o1"
proof (cases "so_code o1")
  case (Some c)
  then show ?thesis by (simp add: CodeObj_def)
next
  case None
  show ?thesis
  proof (cases "CodeHash (so_data o1) = emptyCodeHash rd")
    case True
    with None show ?thesis by (simp add: CodeObj_def)
  next
    case False
    show ?thesis
    proof (cases "contractCode rd (so_addrHash o1) (CodeHash (so_data o1))")
      case (Inl e)
      with None False show ?thesis by (simp add: CodeObj_def)
    next
      case (Inr c)
      let ?o = "o1\<lparr>so_code := Some c\<rparr>"
      have "CodeObj rd o1 = (Some c, ?o)" "fst (CodeObj rd ?o) = Some c"
        using None False Inr by (simp_all add: CodeObj_def)
      then show ?thesis
        by (simp add: viewObj_def fst_GetCommittedStateObj_cong [of ?o o1] fst_GetStateObj_cong [of ?o o1])
    qed
  qed
qed

text \<open>Caching a slot that was just read leaves every committed slot as it was.\<close>

lemma GetCommittedStateObj_cached:
  "fst (GetCommittedStateObj rd s k (snd (GetCommittedStateObj rd s key o1))) =
   fst (GetCommittedStateObj rd s k o1)"
  by (simp add: GetCommittedStateObj_def split: option.split storage_read.split slot_read.split)

lemma GetStateObj_cached:
  "fst (GetStateObj rd s k (snd (GetStateObj rd s key o1))) = fst (GetStateObj rd s k o1)"
proof (cases "fakeStorage o1 = None \<and> dirtyStorage o1 key = None")
  case True
  have "fakeStorage (snd (GetCommittedStateObj rd s key o1)) = fakeStorage o1"
    "dirtyStorage (snd (GetCommittedStateObj rd s key o1)) = dirtyStorage o1"
    by (simp_all add: GetCommittedStateObj_def split: option.split storage_read.split slot_read.split)
  with True show ?thesis
    by (simp add: GetStateObj_def GetCommittedStateObj_cached split: option.split)
next
  case False
  then have "snd (GetStateObj rd s key o1) = o1" by (auto simp: GetStateObj_def split: option.splits)
  then show ?thesis by simp
qed

lemma GetCommittedStateObj_keeps:
  "so_data (snd (GetCommittedStateObj rd s key o1)) = so_data o1"
  "so_code (snd (GetCommittedStateObj rd s key o1)) = so_code o1"
  "so_address (snd (GetCommittedStateObj rd s key o1)) = so_address o1"
  "so_addrHash (snd (GetCommittedStateObj rd s key o1)) = so_addrHash o1"
  "suicided (snd (GetCommittedStateObj rd s key o1)) = suicided o1"
  "deleted (snd (GetCommittedStateObj rd s key o1)) = deleted o1"
  "fakeStorage (snd (GetCommittedStateObj rd s key o1)) = fakeStorage o1"
  "dirtyStorage (snd (GetCommittedStateObj rd s key o1)) = dirtyStorage o1"
  by (simp_all add: GetCommittedStateObj_def split: option.split storage_read.split slot_read.split)

lemma GetStateObj_keeps:
  "so_data (snd (GetStateObj rd s key o1)) = so_data o1"
  "so_code (snd (GetStateObj rd s key o1)) = so_code o1"
  "so_address (snd (GetStateObj rd s key o1)) = so_address o1"
  "so_addrHash (snd (GetStateObj rd s key o1)) = so_addrHash o1"
  "suicided (snd (GetStateObj rd s key o1)) = suicided o1"
  "deleted (snd (GetStateObj rd s key o1)) = deleted o1"
  "fakeStorage (snd (GetStateObj rd s key o1)) = fakeStorage o1"
  by (simp_all add: GetStateObj_def GetCommittedStateObj_keeps split: option.split)

lemma CodeObj_keeps:
  "so_data (snd (CodeObj rd o1)) = so_data o1"
  "so_address (snd (CodeObj rd o1)) = so_address o1"
  "so_addrHash (snd (CodeObj rd o1)) = so_addrHash o1"
  "suicided (snd (CodeObj rd o1)) = suicided o1"
  "deleted (snd (CodeObj rd o1)) = deleted o1"
  "fakeStorage (snd (CodeObj rd o1)) = fakeStorage o1"
  by (simp_all add: CodeObj_def split: option.split sum.split)

lemma CodeSizeObj_keeps:
  "so_address (snd (CodeSizeObj rd o1)) = so_address o1"
  "objOk rd (snd (CodeSizeObj rd o1)) = objOk rd o1"
  "viewObj rd s (snd (CodeSizeObj rd o1)) = viewObj rd s o1"
  by (simp_all add: CodeSizeObj_def split: option.split sum.split)

lemmas read_keeps = GetCommittedStateObj_keeps GetStateObj_keeps CodeObj_keeps

lemma objOk_read [simp]:
  "objOk rd (snd (GetCommittedStateObj rd s key o1)) = objOk rd o1"
  "objOk rd (snd (GetStateObj rd s key o1)) = objOk rd o1"
  "objOk rd (snd (CodeObj rd o1)) = objOk rd o1"
  by (simp_all add: objOk_def read_keeps)

lemma viewObj_GetCommittedStateObj [simp]:
  "viewObj rd s (snd (GetCommittedStateObj rd s key o1)) = viewObj rd s o1"
proof -
  let ?o = "snd (GetCommittedStateObj rd s key o1)"
  have "fst (GetStateObj rd s k ?o) = fst (GetStateObj rd s k o1)" for k
    by (simp add: GetStateObj_def read_keeps GetCommittedStateObj_cached split: option.split)
  then show ?thesis
    using fst_CodeObj_cong [of ?o o1 rd]
    by (simp add: viewObj_def read_keeps GetCommittedStateObj_cached)
qed

lemma viewObj_GetStateObj [simp]: "viewObj rd s (snd (GetStateObj rd s key o1)) = viewObj rd s o1"
proof (cases "fakeStorage o1 = None \<and> dirtyStorage o1 key = None")
  case True
  then have "GetStateObj rd s key o1 = GetCommittedStateObj rd s key o1" by (simp add: GetStateObj_def)
  then show ?thesis by simp
next
  case False
  then have "snd (GetStateObj rd s key o1) = o1" by (auto simp: GetStateObj_def split: option.splits)
  then show ?thesis by simp
qed

subsection \<open>Quiet steps: reads that load and cache\<close>

definition sameFrame :: "StateDB \<Rightarrow> StateDB \<Rightarrow> bool" where
  "sameFrame s s' \<longleftrightarrow> journal s' = journal s \<and> validRevisions s' = validRevisions s
     \<and> nextRevisionId s' = nextRevisionId s"

definition quiet :: "reader \<Rightarrow> StateDB \<Rightarrow> StateDB \<Rightarrow> bool" where
  "quiet rd s s' \<longleftrightarrow> sameFrame s s' \<and> absState rd s' = absState rd s
     \<and> (objectsOk rd s \<longrightarrow> objectsOk rd s')"

lemma quiet_refl [simp]: "quiet rd s s"
  by (simp add: quiet_def sameFrame_def)

lemma quiet_trans: "quiet rd s t \<Longrightarrow> quiet rd t u \<Longrightarrow> quiet rd s u"
  by (auto simp: quiet_def sameFrame_def)

lemma absState_cong:
  assumes "\<And>a. peekObj rd s' a = peekObj rd s a" "snap s' = snap s" "snapDestructs s' = snapDestructs s"
    "refund s' = refund s" "logs s' = logs s" "logSize s' = logSize s" "preimages s' = preimages s"
    "thash s' = thash s" "bhash s' = bhash s" "txIndex s' = txIndex s"
  shows "absState rd s' = absState rd s"
proof -
  have "viewObj rd s' = viewObj rd s" by (rule ext, rule viewObj_cong) (use assms in auto)
  with assms show ?thesis by (simp add: absState_def)
qed

lemma peekObj_cong:
  "stateObjects s' a = stateObjects s a \<Longrightarrow> snap s' = snap s \<Longrightarrow> peekObj rd s' a = peekObj rd s a"
  unfolding peekObj_def by (simp split: option.split)

lemma peekObj_setError [simp]: "peekObj rd (setError e s) = peekObj rd s"
  by (rule ext, rule peekObj_cong) (simp_all add: setError_def)

lemma quiet_setError [simp]: "quiet rd s (setError e s)"
proof -
  have "absState rd (setError e s) = absState rd s"
    by (rule absState_cong) (simp, simp_all add: setError_def)
  then show ?thesis by (simp add: quiet_def sameFrame_def setError_def objectsOk_def)
qed

text \<open>Storing an object under its address replaces that account's view.\<close>

lemma peekObj_setStateObject:
  "peekObj rd (setStateObject o1 s) a = (if a = so_address o1 then Some o1 else peekObj rd s a)"
  using peekObj_cong [of "setStateObject o1 s" a s rd]
  by (cases "a = so_address o1") (simp_all add: peekObj_def setStateObject_def)

lemma absState_setStateObject:
  "absState rd (setStateObject o1 s) =
     (absState rd s)\<lparr>w_accts := (w_accts (absState rd s))(so_address o1 \<mapsto> viewObj rd s o1)\<rparr>"
proof -
  have "viewObj rd (setStateObject o1 s) = viewObj rd s"
    by (simp add: setStateObject_def)
  then show ?thesis
    by (auto simp: absState_def peekObj_setStateObject fun_eq_iff) (simp_all add: setStateObject_def)
qed

lemma objectsOk_setStateObject:
  "objectsOk rd s \<Longrightarrow> objOk rd o1 \<Longrightarrow> objectsOk rd (setStateObject o1 s)"
  by (auto simp: objectsOk_def setStateObject_def)

lemma quiet_setStateObject:
  assumes "peekObj rd s (so_address o1) = Some o2" "viewObj rd s o1 = viewObj rd s o2" "objOk rd o2 \<Longrightarrow> objOk rd o1"
    "objectsOk rd s \<Longrightarrow> objOk rd o2"
  shows "quiet rd s (setStateObject o1 s)"
proof -
  have "w_accts (absState rd s) (so_address o1) = Some (viewObj rd s o1)"
    using assms by (simp add: absState_def)
  then have "absState rd (setStateObject o1 s) = absState rd s"
    unfolding absState_setStateObject by (simp add: fun_upd_idem)
  with assms show ?thesis
    by (auto simp: quiet_def sameFrame_def intro: objectsOk_setStateObject) (simp_all add: setStateObject_def)
qed

lemma peekObj_ok:
  "objectsOk rd s \<Longrightarrow> peekObj rd s a = Some o1 \<Longrightarrow> so_address o1 = a \<and> objOk rd o1"
  by (auto simp: peekObj_def objectsOk_def split: option.splits sum.splits)

lemma getDeletedStateObject_spec:
  assumes "getDeletedStateObject rd a s = (r, s')"
  shows "r = peekObj rd s a" "quiet rd s s'" "peekObj rd s' = peekObj rd s"
    "r \<noteq> None \<Longrightarrow> stateObjects s' a = r"
proof -
  have load: "quiet rd s (setStateObject (newObject rd a d) s)"
    if "stateObjects s a = None" "loadAccount rd (snap s) a = Inr (Some d)" for d
    using that by (intro quiet_setStateObject [of rd s _ "newObject rd a d"]) (simp_all add: peekObj_def)
  have "r = peekObj rd s a \<and> quiet rd s s' \<and> peekObj rd s' = peekObj rd s
    \<and> (r \<noteq> None \<longrightarrow> stateObjects s' a = r)"
  proof (cases "stateObjects s a")
    case None
    show ?thesis
    proof (cases "loadAccount rd (snap s) a")
      case (Inl e)
      with None assms show ?thesis by (auto simp: getDeletedStateObject_def peekObj_def)
    next
      case (Inr x)
      show ?thesis
      proof (cases x)
        case None
        with Inr \<open>stateObjects s a = None\<close> assms show ?thesis
          by (auto simp: getDeletedStateObject_def peekObj_def)
      next
        case (Some d)
        have "r = Some (newObject rd a d)" "s' = setStateObject (newObject rd a d) s"
          using Some Inr \<open>stateObjects s a = None\<close> assms by (auto simp: getDeletedStateObject_def Let_def)
        moreover have "peekObj rd (setStateObject (newObject rd a d) s) = peekObj rd s"
          using Some Inr \<open>stateObjects s a = None\<close> by (simp add: peekObj_setStateObject fun_eq_iff) (simp add: peekObj_def)
        ultimately show ?thesis
          using load [of d] Some Inr \<open>stateObjects s a = None\<close>
          by (simp add: peekObj_def setStateObject_def)
      qed
    qed
  next
    case (Some o1)
    with assms have "r = Some o1" "s' = s" by (simp_all add: getDeletedStateObject_def)
    with Some show ?thesis by (simp add: peekObj_def)
  qed
  then show "r = peekObj rd s a" "quiet rd s s'" "peekObj rd s' = peekObj rd s"
    "r \<noteq> None \<Longrightarrow> stateObjects s' a = r" by auto
qed

definition liveObj :: "reader \<Rightarrow> StateDB \<Rightarrow> address \<Rightarrow> stateObject option" where
  "liveObj rd s a = (case peekObj rd s a of Some o1 \<Rightarrow> if deleted o1 then None else Some o1 | None \<Rightarrow> None)"

lemma getStateObject_spec:
  assumes "getStateObject rd a s = (r, s')"
  shows "r = liveObj rd s a" "quiet rd s s'" "peekObj rd s' = peekObj rd s"
    "r \<noteq> None \<Longrightarrow> stateObjects s' a = r"
proof -
  obtain p t where g: "getDeletedStateObject rd a s = (p, t)" by (cases "getDeletedStateObject rd a s")
  note sp = getDeletedStateObject_spec [OF g]
  from assms g have "s' = t" "r = (case p of Some o1 \<Rightarrow> if deleted o1 then None else Some o1 | None \<Rightarrow> None)"
    by (auto simp: getStateObject_def split: option.splits)
  with sp show "r = liveObj rd s a" "quiet rd s s'" "peekObj rd s' = peekObj rd s"
    "r \<noteq> None \<Longrightarrow> stateObjects s' a = r"
    by (auto simp: liveObj_def split: option.splits if_splits)
qed

subsection \<open>Undoing journal entries\<close>

definition undoes :: "reader \<Rightarrow> journalEntry list \<Rightarrow> world \<Rightarrow> world \<Rightarrow> bool" where
  "undoes rd es w w' \<longleftrightarrow>
     (\<forall>t. objectsOk rd t \<and> absState rd t = w' \<longrightarrow>
        (\<exists>t'. revertLoop rd (rev es) t = Some t' \<and> objectsOk rd t' \<and> absState rd t' = w
           \<and> entries (journal t') = entries (journal t) \<and> validRevisions t' = validRevisions t
           \<and> nextRevisionId t' = nextRevisionId t))"

lemma undoes_Nil [simp]: "undoes rd [] w w"
  by (simp add: undoes_def)

lemma revertLoop_append:
  "revertLoop rd (xs @ ys) s = (case revertLoop rd xs s of None \<Rightarrow> None | Some t \<Rightarrow> revertLoop rd ys t)"
  by (induction xs arbitrary: s) (auto split: option.split)

lemma undoes_append:
  assumes "undoes rd es w w'" "undoes rd es' w' w''"
  shows "undoes rd (es @ es') w w''"
  unfolding undoes_def
proof (intro allI impI)
  fix t
  assume "objectsOk rd t \<and> absState rd t = w''"
  with assms(2) obtain t1 where 1: "revertLoop rd (rev es') t = Some t1" "objectsOk rd t1" "absState rd t1 = w'"
    "entries (journal t1) = entries (journal t)" "validRevisions t1 = validRevisions t"
    "nextRevisionId t1 = nextRevisionId t"
    unfolding undoes_def by blast
  with assms(1) obtain t2 where "revertLoop rd (rev es) t1 = Some t2" "objectsOk rd t2" "absState rd t2 = w"
    "entries (journal t2) = entries (journal t1)" "validRevisions t2 = validRevisions t1"
    "nextRevisionId t2 = nextRevisionId t1"
    unfolding undoes_def by blast
  with 1 show "\<exists>t'. revertLoop rd (rev (es @ es')) t = Some t' \<and> objectsOk rd t' \<and> absState rd t' = w
      \<and> entries (journal t') = entries (journal t) \<and> validRevisions t' = validRevisions t
      \<and> nextRevisionId t' = nextRevisionId t"
    by (simp add: revertLoop_append)
qed

lemma absState_journal [simp]: "absState rd (s\<lparr>journal := j\<rparr>) = absState rd s"
  by (rule absState_cong, rule peekObj_cong) simp_all

lemma objectsOk_journal [simp]: "objectsOk rd (s\<lparr>journal := j\<rparr>) = objectsOk rd s"
  by (simp add: objectsOk_def)

lemma peekObj_journal [simp]: "peekObj rd (s\<lparr>journal := j\<rparr>) = peekObj rd s"
  by (rule ext, rule peekObj_cong) simp_all

lemma entries_undirty [simp]: "entries (journal_undirty a j) = entries j"
  by (simp add: journal_undirty_def Let_def)

lemma undoes_single:
  assumes "\<And>t. objectsOk rd t \<Longrightarrow> absState rd t = w' \<Longrightarrow>
     \<exists>t'. revertEntry rd e t = Some t' \<and> objectsOk rd t' \<and> absState rd t' = w \<and> sameFrame t t'"
  shows "undoes rd [e] w w'"
  unfolding undoes_def
proof (intro allI impI)
  fix t
  assume "objectsOk rd t \<and> absState rd t = w'"
  with assms obtain t' where "revertEntry rd e t = Some t'" "objectsOk rd t'" "absState rd t' = w" "sameFrame t t'"
    by blast
  then show "\<exists>t'. revertLoop rd (rev [e]) t = Some t' \<and> objectsOk rd t' \<and> absState rd t' = w
      \<and> entries (journal t') = entries (journal t) \<and> validRevisions t' = validRevisions t
      \<and> nextRevisionId t' = nextRevisionId t"
    by (cases "dirtied e") (simp_all add: sameFrame_def)
qed

definition changes :: "reader \<Rightarrow> StateDB \<Rightarrow> StateDB \<Rightarrow> bool" where
  "changes rd s s' \<longleftrightarrow>
     (\<exists>es. entries (journal s') = entries (journal s) @ es \<and> validRevisions s' = validRevisions s
        \<and> nextRevisionId s' = nextRevisionId s
        \<and> objectsOk rd s' \<and> undoes rd es (absState rd s) (absState rd s'))"

lemma changes_ok: "changes rd s s' \<Longrightarrow> objectsOk rd s'"
  by (auto simp: changes_def)

lemma changes_quiet: "objectsOk rd s \<Longrightarrow> quiet rd s s' \<Longrightarrow> changes rd s s'"
  by (auto simp: changes_def quiet_def sameFrame_def)

lemma changes_trans [trans]:
  assumes "changes rd s t" "changes rd t u"
  shows "changes rd s u"
proof -
  from assms(1) obtain es where 1: "entries (journal t) = entries (journal s) @ es"
    "validRevisions t = validRevisions s" "nextRevisionId t = nextRevisionId s"
    "undoes rd es (absState rd s) (absState rd t)"
    unfolding changes_def by blast
  from assms(2) obtain es' where 2: "entries (journal u) = entries (journal t) @ es'"
    "validRevisions u = validRevisions t" "nextRevisionId u = nextRevisionId t"
    "objectsOk rd u" "undoes rd es' (absState rd t) (absState rd u)"
    unfolding changes_def by blast
  show ?thesis
    unfolding changes_def
    using 1 2 undoes_append [of rd es _ _ es'] by (intro exI [of _ "es @ es'"]) auto
qed

lemma changes_single:
  assumes "entries (journal s') = entries (journal s) @ [e]"
    "validRevisions s' = validRevisions s" "nextRevisionId s' = nextRevisionId s" "objectsOk rd s'"
    "\<And>t. objectsOk rd t \<Longrightarrow> absState rd t = absState rd s' \<Longrightarrow>
       \<exists>t'. revertEntry rd e t = Some t' \<and> objectsOk rd t' \<and> absState rd t' = absState rd s \<and> sameFrame t t'"
  shows "changes rd s s'"
proof -
  have "undoes rd [e] (absState rd s) (absState rd s')" by (rule undoes_single) (rule assms(5))
  with assms(1-4) show ?thesis unfolding changes_def by blast
qed

lemma record_change_frame [simp]:
  "entries (journal (record_change e s)) = entries (journal s) @ [e]"
  "validRevisions (record_change e s) = validRevisions s"
  "nextRevisionId (record_change e s) = nextRevisionId s"
  "absState rd (record_change e s) = absState rd s"
  "objectsOk rd (record_change e s) = objectsOk rd s"
  "peekObj rd (record_change e s) = peekObj rd s"
  "viewObj rd (record_change e s) = viewObj rd s"
  by (auto simp: record_change_def journal_append_def Let_def journal_dirty_def split: option.split)

lemma setStateObject_frame [simp]:
  "journal (setStateObject o1 s) = journal s"
  "validRevisions (setStateObject o1 s) = validRevisions s"
  "nextRevisionId (setStateObject o1 s) = nextRevisionId s"
  "stateObjects (setStateObject o1 s) = (stateObjects s)(so_address o1 \<mapsto> o1)"
  by (simp_all add: setStateObject_def)

text \<open>A setter on an object refines a change of the view, for a live account of the world.\<close>

definition refinesView :: "reader \<Rightarrow> address \<Rightarrow> (stateObject \<Rightarrow> stateObject) \<Rightarrow> (acctView \<Rightarrow> acctView) \<Rightarrow> bool" where
  "refinesView rd a f g \<longleftrightarrow>
     (\<forall>s o1. objOk rd o1 \<and> so_address o1 = a \<longrightarrow>
        objOk rd (f o1) \<and> so_address (f o1) = a \<and> viewObj rd s (f o1) = g (viewObj rd s o1))"

lemma w_accts_live:
  "w_accts (absState rd s) a = Some v \<Longrightarrow> \<not> av_deleted v \<Longrightarrow>
     \<exists>o1. peekObj rd s a = Some o1 \<and> liveObj rd s a = Some o1 \<and> viewObj rd s o1 = v"
  by (auto simp: absState_def liveObj_def viewObj_def split: option.splits)

lemma quiet_viewObj: "quiet rd s s' \<Longrightarrow> viewObj rd s' = viewObj rd s"
  by (rule ext, rule viewObj_cong) (auto simp: quiet_def absState_def)

lemma onObject_refines:
  assumes "refinesView rd a f g" "objectsOk rd t" "w_accts (absState rd t) a = Some v" "\<not> av_deleted v"
  shows "\<exists>t'. onObject rd a f t = Some t' \<and> objectsOk rd t' \<and> sameFrame t t'
     \<and> absState rd t' = (absState rd t)\<lparr>w_accts := (w_accts (absState rd t))(a \<mapsto> g v)\<rparr>"
proof -
  from w_accts_live [OF assms(3,4)] obtain o1 where o1: "peekObj rd t a = Some o1" "liveObj rd t a = Some o1"
    "viewObj rd t o1 = v" by blast
  obtain r s' where g: "getStateObject rd a t = (r, s')" by (cases "getStateObject rd a t")
  note sp = getStateObject_spec [OF g]
  have ok: "so_address o1 = a" "objOk rd o1" using peekObj_ok [OF assms(2) o1(1)] by auto
  with assms(1) have f: "objOk rd (f o1)" "so_address (f o1) = a" "viewObj rd s' (f o1) = g (viewObj rd s' o1)"
    unfolding refinesView_def by blast+
  have q: "objectsOk rd s'" "absState rd s' = absState rd t" "viewObj rd s' = viewObj rd t" "sameFrame t s'"
    using sp(2) assms(2) quiet_viewObj [OF sp(2)] by (auto simp: quiet_def)
  have "onObject rd a f t = Some (setStateObject (f o1) s')"
    using g sp(1) o1(2) by (simp add: onObject_def)
  moreover have "objectsOk rd (setStateObject (f o1) s')"
    using q f by (simp add: objectsOk_setStateObject)
  moreover have "sameFrame t (setStateObject (f o1) s')" using q(4) by (simp add: sameFrame_def)
  moreover have "absState rd (setStateObject (f o1) s') =
      (absState rd t)\<lparr>w_accts := (w_accts (absState rd t))(a \<mapsto> g v)\<rparr>"
    unfolding absState_setStateObject using f q o1(3) by simp
  ultimately show ?thesis by blast
qed

lemma viewObj_sels [simp]:
  "av_data (viewObj rd s o1) = so_data o1" "av_suicided (viewObj rd s o1) = suicided o1"
  "av_deleted (viewObj rd s o1) = deleted o1"
  "av_storage (viewObj rd s o1) k = fst (GetStateObj rd s k o1)"
  by (simp_all add: viewObj_def)

lemma objOkD: "objOk rd o1 \<Longrightarrow> so_addrHash o1 = keccak rd (addrBytes (so_address o1)) \<and> fakeStorage o1 = None"
  by (simp add: objOk_def)

lemma objOk_suicided [simp]: "objOk rd (o1\<lparr>suicided := b\<rparr>) = objOk rd o1"
  by (simp add: objOk_def)

lemma viewObj_setBalanceObj:
  "viewObj rd s (setBalanceObj x o1) =
     (viewObj rd s o1)\<lparr>av_data := (so_data o1)\<lparr>Balance := x\<rparr>\<rparr>"
  using fst_GetCommittedStateObj_cong [of "setBalanceObj x o1" o1] fst_GetStateObj_cong [of "setBalanceObj x o1" o1]
    fst_CodeObj_cong [of "setBalanceObj x o1" o1]
  by (simp add: viewObj_def setBalanceObj_def)

lemma viewObj_setNonceObj:
  "viewObj rd s (setNonceObj n o1) =
     (viewObj rd s o1)\<lparr>av_data := (so_data o1)\<lparr>Nonce := n\<rparr>\<rparr>"
  using fst_GetCommittedStateObj_cong [of "setNonceObj n o1" o1] fst_GetStateObj_cong [of "setNonceObj n o1" o1]
    fst_CodeObj_cong [of "setNonceObj n o1" o1]
  by (simp add: viewObj_def setNonceObj_def)

lemma viewObj_suicided:
  "viewObj rd s (o1\<lparr>suicided := b\<rparr>) = (viewObj rd s o1)\<lparr>av_suicided := b\<rparr>"
  using fst_GetCommittedStateObj_cong [of "o1\<lparr>suicided := b\<rparr>" o1] fst_GetStateObj_cong [of "o1\<lparr>suicided := b\<rparr>" o1]
    fst_CodeObj_cong [of "o1\<lparr>suicided := b\<rparr>" o1]
  by (simp add: viewObj_def)

lemma viewObj_setStateObj:
  assumes "fakeStorage o1 = None"
  shows "viewObj rd s (setStateObj k x o1) =
     (viewObj rd s o1)\<lparr>av_storage := (av_storage (viewObj rd s o1))(k := x)\<rparr>"
proof -
  have "fst (GetStateObj rd s k' (setStateObj k x o1)) = (if k' = k then x else fst (GetStateObj rd s k' o1))" for k'
    using assms fst_GetCommittedStateObj_cong [of "setStateObj k x o1" o1 rd s k']
    by (simp add: GetStateObj_def setStateObj_def split: option.split)
  then show ?thesis
    using fst_GetCommittedStateObj_cong [of "setStateObj k x o1" o1] fst_CodeObj_cong [of "setStateObj k x o1" o1]
    by (simp add: viewObj_def setStateObj_def fun_eq_iff)
qed

lemma refines_setBalance:
  "refinesView rd a (setBalanceObj x) (\<lambda>v. v\<lparr>av_data := (av_data v)\<lparr>Balance := x\<rparr>\<rparr>)"
  "refinesView rd a (setNonceObj n) (\<lambda>v. v\<lparr>av_data := (av_data v)\<lparr>Nonce := n\<rparr>\<rparr>)"
  by (auto simp: refinesView_def viewObj_setBalanceObj viewObj_setNonceObj)

lemma refines_setState:
  "refinesView rd a (setStateObj k x) (\<lambda>v. v\<lparr>av_storage := (av_storage v)(k := x)\<rparr>)"
  by (auto simp: refinesView_def viewObj_setStateObj dest: objOkD)

definition codeAt :: "reader \<Rightarrow> address \<Rightarrow> hash \<Rightarrow> bytes option \<Rightarrow> bytes" where
  "codeAt rd a h c =
     (case c of Some c' \<Rightarrow> c' | None \<Rightarrow> 
        if h = emptyCodeHash rd then [] else
          (case contractCode rd (keccak rd (addrBytes a)) h of Inl e \<Rightarrow> [] | Inr c' \<Rightarrow> c'))"

lemma viewObj_setCodeObj:
  assumes "so_addrHash o1 = keccak rd (addrBytes a)"
  shows "viewObj rd s (setCodeObj h c o1) =
     (viewObj rd s o1)\<lparr>av_data := (so_data o1)\<lparr>CodeHash := h\<rparr>, av_code := codeAt rd a h c\<rparr>"
proof -
  have "(case fst (CodeObj rd (setCodeObj h c o1)) of None \<Rightarrow> [] | Some c \<Rightarrow> c) = codeAt rd a h c"
    using assms by (simp add: CodeObj_def setCodeObj_def codeAt_def split: option.split sum.split)
  then show ?thesis
    using fst_GetCommittedStateObj_cong [of "setCodeObj h c o1" o1] fst_GetStateObj_cong [of "setCodeObj h c o1" o1]
    by (simp add: viewObj_def setCodeObj_def)
qed

lemma refines_setCode:
  "refinesView rd a (setCodeObj h c)
     (\<lambda>v. v\<lparr>av_data := (av_data v)\<lparr>CodeHash := h\<rparr>, av_code := codeAt rd a h c\<rparr>)"
  by (auto simp: refinesView_def viewObj_setCodeObj dest: objOkD)

lemma refines_suicide:
  "refinesView rd a (\<lambda>o1. setBalanceObj x (o1\<lparr>suicided := b\<rparr>))
     (\<lambda>v. v\<lparr>av_data := (av_data v)\<lparr>Balance := x\<rparr>, av_suicided := b\<rparr>)"
  by (auto simp: refinesView_def viewObj_setBalanceObj viewObj_suicided)


text \<open>Recording an entry and applying a setter, when the entry's undo inverts the setter.\<close>

lemma changes_setter:
  assumes ok: "objectsOk rd s" and o1: "peekObj rd s a = Some o1" "\<not> deleted o1"
    and f: "refinesView rd a f g" and bk: "refinesView rd a f' g'"
    and e: "\<And>t t'. onObject rd a f' t = Some t' \<Longrightarrow> revertEntry rd e t = Some t'"
    and inv: "g' (g (viewObj rd s o1)) = viewObj rd s o1" "\<not> av_deleted (g (viewObj rd s o1))"
  shows "changes rd s (setStateObject (f o1) (record_change e s))"
proof (rule changes_single)
  have a: "so_address o1 = a" "objOk rd o1" using peekObj_ok [OF ok o1(1)] by auto
  with f have f1: "objOk rd (f o1)" "so_address (f o1) = a" "viewObj rd s (f o1) = g (viewObj rd s o1)"
    unfolding refinesView_def by blast+
  show "objectsOk rd (setStateObject (f o1) (record_change e s))"
    using ok f1 by (simp add: objectsOk_setStateObject)
  fix t
  assume t: "objectsOk rd t" "absState rd t = absState rd (setStateObject (f o1) (record_change e s))"
  then have abs: "absState rd t = (absState rd s)\<lparr>w_accts := (w_accts (absState rd s))(a \<mapsto> g (viewObj rd s o1))\<rparr>"
    using f1 by (simp add: absState_setStateObject)
  have "w_accts (absState rd s) a = Some (viewObj rd s o1)" using o1 by (simp add: absState_def)
  then have "(w_accts (absState rd s))(a \<mapsto> viewObj rd s o1) = w_accts (absState rd s)"
    by (simp add: fun_upd_idem)
  then show "\<exists>t'. revertEntry rd e t = Some t' \<and> objectsOk rd t' \<and> absState rd t' = absState rd s \<and> sameFrame t t'"
    using onObject_refines [OF bk t(1), of "g (viewObj rd s o1)"] abs inv e by auto
qed simp_all

subsection \<open>Creating and resetting accounts\<close>

text \<open>Distinct addresses have distinct hashes: what the code relies on Keccak-256 for.\<close>

definition hashInj :: "reader \<Rightarrow> bool" where
  "hashInj rd \<longleftrightarrow> (\<forall>a b. keccak rd (addrBytes a) = keccak rd (addrBytes b) \<longrightarrow> a = b)"

lemma absState_remove:
  assumes "w_snap w = snap t" "w_accts (absState rd s) a = None" "snap s = snap t"
  shows "absState rd (t\<lparr>stateObjects := (stateObjects t)(a := None), stateObjectsDirty := d\<rparr>) =
     (absState rd t)\<lparr>w_accts := (w_accts (absState rd t))(a := None)\<rparr>" (is "absState rd ?t = _")
proof -
  have "peekObj rd ?t b = (if b = a then None else peekObj rd t b)" for b
  proof (cases "b = a")
    case True
    from assms have "stateObjects s a = None" "(case loadAccount rd (snap t) a of
        Inr (Some data) \<Rightarrow> Some (newObject rd a data) | _ \<Rightarrow> None) = None"
      by (auto simp: absState_def peekObj_def split: option.splits)
    with True show ?thesis by (simp add: peekObj_def)
  next
    case False
    then show ?thesis by (simp, intro peekObj_cong) simp_all
  qed
  then show ?thesis by (simp add: absState_def fun_eq_iff)
qed

lemma absState_reset:
  assumes ok: "objectsOk rd s" and h: "hashInj rd" and a: "so_address o1 = a"
    and D: "\<And>h. h \<noteq> keccak rd (addrBytes a) \<Longrightarrow> h \<in> D \<longleftrightarrow> h \<in> snapDestructs s"
  shows "absState rd (setStateObject o1 (s\<lparr>snapDestructs := D\<rparr>)) =
     (absState rd s)\<lparr>w_accts := (w_accts (absState rd s))(a \<mapsto> viewObj rd (s\<lparr>snapDestructs := D\<rparr>) o1),
        w_destructs := D\<rparr>"
proof -
  let ?s = "s\<lparr>snapDestructs := D\<rparr>"
  have pk: "peekObj rd ?s b = peekObj rd s b" for b by (rule peekObj_cong) simp_all
  have "viewObj rd ?s o2 = viewObj rd s o2" if "peekObj rd s b = Some o2" "b \<noteq> a" for b o2
  proof (rule viewObj_cong)
    from peekObj_ok [OF ok that(1)] have "so_addrHash o2 = keccak rd (addrBytes b)" by (simp add: objOk_def)
    moreover have "keccak rd (addrBytes b) \<noteq> keccak rd (addrBytes a)"
      using h that(2) unfolding hashInj_def by blast
    ultimately show "so_addrHash o2 \<in> snapDestructs ?s \<longleftrightarrow> so_addrHash o2 \<in> snapDestructs s"
      using D by simp
  qed simp
  then have "map_option (viewObj rd ?s) (peekObj rd s b) = map_option (viewObj rd s) (peekObj rd s b)"
    if "b \<noteq> a" for b using that by (cases "peekObj rd s b") auto
  then have "w_accts (absState rd ?s) b = w_accts (absState rd s) b" if "b \<noteq> a" for b
    using that by (simp add: absState_def pk)
  then have "(w_accts (absState rd ?s))(a \<mapsto> x) = (w_accts (absState rd s))(a \<mapsto> x)" for x
    by (simp add: fun_eq_iff)
  moreover have "(absState rd ?s)\<lparr>w_accts := x\<rparr> = (absState rd s)\<lparr>w_accts := x, w_destructs := D\<rparr>" for x
    by (simp add: absState_def)
  ultimately show ?thesis
    unfolding absState_setStateObject a by simp
qed

lemma setStateObject_snapDestructs:
  "(setStateObject o1 s)\<lparr>snapDestructs := D\<rparr> = setStateObject o1 (s\<lparr>snapDestructs := D\<rparr>)"
  by (simp add: setStateObject_def)

lemma record_change_snapDestructs:
  "record_change e (s\<lparr>snapDestructs := D\<rparr>) = (record_change e s)\<lparr>snapDestructs := D\<rparr>"
  by (simp add: record_change_def)

definition freshObj :: "reader \<Rightarrow> address \<Rightarrow> stateObject" where
  "freshObj rd a = setNonceObj 0 (newObject rd a (zeroAccount rd))"

lemma freshObj_simps [simp]:
  "so_address (freshObj rd a) = a" "objOk rd (freshObj rd a)" "deleted (freshObj rd a) = False"
  "Balance (so_data (freshObj rd a)) = 0" "Nonce (so_data (freshObj rd a)) = 0"
  by (simp_all add: freshObj_def) (simp_all add: setNonceObj_def newObject_def zeroAccount_def)

lemma changes_create:
  assumes ok: "objectsOk rd s" and n: "peekObj rd s a = None"
  shows "changes rd s (setStateObject (freshObj rd a) (record_change (createObjectChange a) s))"
proof (rule changes_single)
  show "objectsOk rd (setStateObject (freshObj rd a) (record_change (createObjectChange a) s))"
    using ok by (simp add: objectsOk_setStateObject)
  fix t
  assume t: "objectsOk rd t"
    "absState rd t = absState rd (setStateObject (freshObj rd a) (record_change (createObjectChange a) s))"
  then have abs: "absState rd t = (absState rd s)\<lparr>w_accts := (w_accts (absState rd s))(a \<mapsto> viewObj rd s (freshObj rd a))\<rparr>"
    by (simp add: absState_setStateObject)
  have none: "w_accts (absState rd s) a = None" using n by (simp add: absState_def)
  have "w_snap (absState rd t) = w_snap (absState rd s)" by (simp add: abs)
  then have sn: "snap s = snap t" by (simp add: absState_def)
  let ?t = "t\<lparr>stateObjects := (stateObjects t)(a := None), stateObjectsDirty := stateObjectsDirty t - {a}\<rparr>"
  have "absState rd ?t = absState rd s"
    using absState_remove [OF _ none sn, of "absState rd t"] sn none
    by (simp add: abs fun_upd_idem) (simp add: absState_def)
  moreover have "objectsOk rd ?t" using t(1) by (simp add: objectsOk_def)
  moreover have "sameFrame t ?t" by (simp add: sameFrame_def)
  ultimately show "\<exists>t'. revertEntry rd (createObjectChange a) t = Some t' \<and> objectsOk rd t'
      \<and> absState rd t' = absState rd s \<and> sameFrame t t'" by simp
qed simp_all

text \<open>Replacing an existing account: the reset entry holds the old object.\<close>

lemma changes_reset:
  assumes ok: "objectsOk rd s" and h: "hashInj rd" and p: "peekObj rd s a = Some p"
    and D: "D = (if snap s = None then snapDestructs s else insert (so_addrHash p) (snapDestructs s))"
    and nb: "so_address nb = a" "objOk rd nb"
    and pd: "pd \<longleftrightarrow> snap s \<noteq> None \<and> so_addrHash p \<in> snapDestructs s"
  shows "changes rd s
    (setStateObject nb (record_change (resetObjectChange p pd) (s\<lparr>snapDestructs := D\<rparr>)))"
    (is "changes rd s ?s'")
proof (rule changes_single)
  have pa: "so_address p = a" "so_addrHash p = keccak rd (addrBytes a)" "objOk rd p"
    using peekObj_ok [OF ok p] by (auto simp: objOk_def)
  have s': "?s' = setStateObject nb ((record_change (resetObjectChange p pd) s)\<lparr>snapDestructs := D\<rparr>)"
    by (simp only: record_change_snapDestructs)
  have abs': "absState rd ?s' = (absState rd s)\<lparr>w_accts := (w_accts (absState rd s))(a \<mapsto>
      viewObj rd ((record_change (resetObjectChange p pd) s)\<lparr>snapDestructs := D\<rparr>) nb), w_destructs := D\<rparr>"
    unfolding s' by (subst absState_reset [where a = a]) (use ok h D pa nb in \<open>auto simp: record_change_def\<close>)
  show "objectsOk rd ?s'"
    unfolding s' by (rule objectsOk_setStateObject) (use ok nb in \<open>simp_all add: objectsOk_def record_change_def\<close>)
  fix t
  assume t: "objectsOk rd t" "absState rd t = absState rd ?s'"
  have sn: "snap t = snap s" "snapDestructs t = D"
    using arg_cong [OF t(2), of w_snap] arg_cong [OF t(2), of w_destructs]
    unfolding abs' by (simp_all add: absState_def)
  let ?D = "if \<not> pd \<and> snap s \<noteq> None then D - {so_addrHash p} else D"
  have D': "?D = snapDestructs s" using D pd by auto
  let ?t = "setStateObject p (t\<lparr>snapDestructs := ?D\<rparr>)"
  have "revertEntry rd (resetObjectChange p pd) t = Some ?t"
    using sn by (auto simp: Let_def setStateObject_snapDestructs) (simp_all add: setStateObject_def)
  moreover have "objectsOk rd ?t"
    by (rule objectsOk_setStateObject) (use t(1) pa in \<open>simp_all add: objectsOk_def\<close>)
  moreover have "absState rd ?t = absState rd s"
  proof -
    have v: "viewObj rd (t\<lparr>snapDestructs := ?D\<rparr>) p = viewObj rd s p"
      by (rule viewObj_cong) (simp_all only: D', use sn in simp_all)
    have "absState rd ?t = (absState rd t)\<lparr>w_accts := (w_accts (absState rd t))(a \<mapsto> viewObj rd s p),
        w_destructs := ?D\<rparr>"
      using absState_reset [OF t(1) h pa(1), of ?D] sn pa(2) v by auto
    also have "\<dots> = (absState rd s)\<lparr>w_accts := (w_accts (absState rd s))(a \<mapsto> viewObj rd s p),
        w_destructs := snapDestructs s\<rparr>"
      unfolding t(2) abs' D' by simp
    also have "\<dots> = absState rd s" using p by (simp add: absState_def fun_upd_idem)
    finally show ?thesis .
  qed
  moreover have "sameFrame t ?t" by (simp add: sameFrame_def)
  ultimately show "\<exists>t'. revertEntry rd (resetObjectChange p pd) t = Some t' \<and> objectsOk rd t'
      \<and> absState rd t' = absState rd s \<and> sameFrame t t'" by blast
qed simp_all

lemma sameFrame_journal: "sameFrame s s' \<Longrightarrow> journal s' = journal s"
  by (simp add: sameFrame_def)

lemma createObject_cases:
  assumes "createObject rd a s = (n, p, s')"
  obtains (new) s1 where "quiet rd s s1" "peekObj rd s1 a = None" "n = freshObj rd a" "p = None"
      "s' = setStateObject n (record_change (createObjectChange a) s1)" "liveObj rd s a = None"
  | (reset) s1 q D pd where "quiet rd s s1" "peekObj rd s1 a = Some q" "n = freshObj rd a" "p = liveObj rd s a"
      "D = (if snap s1 = None then snapDestructs s1 else insert (so_addrHash q) (snapDestructs s1))"
      "pd \<longleftrightarrow> snap s1 \<noteq> None \<and> so_addrHash q \<in> snapDestructs s1"
      "s' = setStateObject n (record_change (resetObjectChange q pd) (s1\<lparr>snapDestructs := D\<rparr>))"
proof -
  obtain prev s1 where g: "getDeletedStateObject rd a s = (prev, s1)" by (cases "getDeletedStateObject rd a s")
  note sp = getDeletedStateObject_spec [OF g]
  show ?thesis
  proof (cases prev)
    case None
    show ?thesis
      by (rule new [of s1]) (use assms g None sp in \<open>auto simp: createObject_def freshObj_def liveObj_def Let_def split: option.splits\<close>)
  next
    case (Some q)
    show ?thesis
      by (rule reset [of s1 q]) (use assms g Some sp in \<open>auto simp: createObject_def freshObj_def liveObj_def Let_def split: option.splits\<close>)
  qed
qed

lemma createObject_changes:
  assumes "createObject rd a s = (n, p, s')" and ok: "objectsOk rd s" and h: "hashInj rd"
  shows "changes rd s s'" "peekObj rd s' a = Some n" "n = freshObj rd a" "p = liveObj rd s a"
proof -
  from assms(1) have "changes rd s s' \<and> n = freshObj rd a \<and> p = liveObj rd s a \<and> stateObjects s' a = Some n"
  proof (cases rule: createObject_cases)
    case (new s1)
    note ch = changes_quiet [OF ok new(1)]
    show ?thesis
      using changes_trans [OF ch changes_create [OF changes_ok [OF ch] new(2)]] new by simp
  next
    case (reset s1 q D pd)
    note ch = changes_quiet [OF ok reset(1)]
    show ?thesis
      using changes_trans [OF ch changes_reset [OF changes_ok [OF ch] h reset(2,5) _ _ reset(6), of n]] reset by simp
  qed
  then show "changes rd s s'" "n = freshObj rd a" "p = liveObj rd s a" "peekObj rd s' a = Some n"
    by (auto simp: peekObj_def)
qed

lemma setStateObject_again:
  "so_address o2 = so_address o1 \<Longrightarrow> setStateObject o2 (setStateObject o1 s) = setStateObject o2 s"
  by (simp add: setStateObject_def)

lemma CreateAccount_changes:
  assumes ok: "objectsOk rd s" and h: "hashInj rd"
  shows "changes rd s (CreateAccount rd a s)"
proof -
  obtain n p s' where c: "createObject rd a s = (n, p, s')" by (cases "createObject rd a s") auto
  show ?thesis
  proof (cases p)
    case None
    with createObject_changes(1) [OF c ok h] c show ?thesis by (simp add: CreateAccount_def)
  next
    case (Some q)
    from c show ?thesis
    proof (cases rule: createObject_cases)
      case (reset s1 o1 D pd)
      let ?n = "setBalanceObj (Balance (so_data q)) n"
      note ch = changes_quiet [OF ok reset(1)]
      have "CreateAccount rd a s =
          setStateObject ?n (record_change (resetObjectChange o1 pd) (s1\<lparr>snapDestructs := D\<rparr>))"
        using c Some reset(7) by (simp add: CreateAccount_def setStateObject_again)
      with changes_trans [OF ch changes_reset [OF changes_ok [OF ch] h reset(2,5) _ _ reset(6), of ?n]] reset(3)
      show ?thesis by simp
    qed (use Some in simp)
  qed
qed

lemma GetOrNewStateObject_changes:
  assumes "GetOrNewStateObject rd a s = (o1, s')" and ok: "objectsOk rd s" and h: "hashInj rd"
  shows "changes rd s s'" "peekObj rd s' a = Some o1" "\<not> deleted o1" "objectsOk rd s'"
    "so_address o1 = a" "objOk rd o1"
proof -
  obtain r s1 where g: "getStateObject rd a s = (r, s1)" by (cases "getStateObject rd a s")
  note sp = getStateObject_spec [OF g]
  have ch: "changes rd s s1" using changes_quiet [OF ok sp(2)] .
  have "changes rd s s' \<and> peekObj rd s' a = Some o1 \<and> \<not> deleted o1"
  proof (cases r)
    case None
    obtain n p t where c: "createObject rd a s1 = (n, p, t)" by (cases "createObject rd a s1") auto
    note cc = createObject_changes [OF c changes_ok [OF ch] h]
    have "o1 = n" "s' = t" using assms(1) g None c by (simp_all add: GetOrNewStateObject_def)
    with cc show ?thesis using changes_trans [OF ch] by simp
  next
    case (Some q)
    then have "o1 = q" "s' = s1" using assms(1) g by (simp_all add: GetOrNewStateObject_def)
    moreover have "peekObj rd s1 a = Some q" "\<not> deleted q"
      using sp(1,3) Some by (auto simp: liveObj_def split: option.splits if_splits)
    ultimately show ?thesis using ch by simp
  qed
  then show *: "changes rd s s'" "peekObj rd s' a = Some o1" "\<not> deleted o1" by auto
  then show "objectsOk rd s'" using changes_ok by blast
  then show "so_address o1 = a" "objOk rd o1" using peekObj_ok * by auto
qed

lemma w_accts_peek: "peekObj rd s a = Some o1 \<Longrightarrow> w_accts (absState rd s) a = Some (viewObj rd s o1)"
  by (simp add: absState_def)

lemma changes_touch:
  assumes "objectsOk rd s"
  shows "changes rd s (touch o1 s)"
proof (rule changes_single)
  show "entries (journal (touch o1 s)) = entries (journal s) @ [touchChange (so_address o1)]"
    by (simp add: touch_def Let_def journal_dirty_def)
  show "objectsOk rd (touch o1 s)" using assms by (simp add: touch_def Let_def)
qed (simp_all add: touch_def Let_def sameFrame_def)

lemma changes_SetBalanceObj:
  assumes "objectsOk rd s" "peekObj rd s a = Some o1" "\<not> deleted o1"
  shows "changes rd s (SetBalanceObj x o1 s)"
  unfolding SetBalanceObj_def
  by (rule changes_setter [OF assms refines_setBalance(1) refines_setBalance(1) [of _ _ "Balance (so_data o1)"]])
    (use peekObj_ok [OF assms(1,2)] assms(3) in \<open>simp_all \<close>)

lemma AddBalance_changes:
  assumes "objectsOk rd s" "hashInj rd"
  shows "changes rd s (AddBalance rd a x s)"
proof -
  obtain o1 s' where g: "GetOrNewStateObject rd a s = (o1, s')" by (cases "GetOrNewStateObject rd a s")
  note sp = GetOrNewStateObject_changes [OF g assms]
  have "changes rd s' (AddBalance rd a x s)"
    using g changes_touch [OF sp(4)] changes_SetBalanceObj [OF sp(4) sp(2,3)] changes_quiet [OF sp(4) quiet_refl]
    by (simp add: AddBalance_def)
  with sp(1) show ?thesis by (rule changes_trans)
qed

lemma SubBalance_changes:
  assumes "objectsOk rd s" "hashInj rd"
  shows "changes rd s (SubBalance rd a x s)"
proof -
  obtain o1 s' where g: "GetOrNewStateObject rd a s = (o1, s')" by (cases "GetOrNewStateObject rd a s")
  note sp = GetOrNewStateObject_changes [OF g assms]
  have "changes rd s' (SubBalance rd a x s)"
    using g changes_SetBalanceObj [OF sp(4) sp(2,3)] changes_quiet [OF sp(4) quiet_refl]
    by (simp add: SubBalance_def)
  with sp(1) show ?thesis by (rule changes_trans)
qed

lemma SetBalance_changes:
  assumes "objectsOk rd s" "hashInj rd"
  shows "changes rd s (SetBalance rd a x s)"
proof -
  obtain o1 s' where g: "GetOrNewStateObject rd a s = (o1, s')" by (cases "GetOrNewStateObject rd a s")
  note sp = GetOrNewStateObject_changes [OF g assms]
  from changes_trans [OF sp(1) changes_SetBalanceObj [OF sp(4) sp(2,3)]] g
  show ?thesis by (simp add: SetBalance_def)
qed

lemma SetNonce_changes:
  assumes "objectsOk rd s" "hashInj rd"
  shows "changes rd s (SetNonce rd a n s)"
proof -
  obtain o1 s' where g: "GetOrNewStateObject rd a s = (o1, s')" by (cases "GetOrNewStateObject rd a s")
  note sp = GetOrNewStateObject_changes [OF g assms]
  have "changes rd s' (setStateObject (setNonceObj n o1)
      (record_change (nonceChange (so_address o1) (Nonce (so_data o1))) s'))"
    by (rule changes_setter [OF sp(4) sp(2,3) refines_setBalance(2) refines_setBalance(2) [of _ _ "Nonce (so_data o1)"]])
      (use sp in \<open>simp_all \<close>)
  with sp(1) g show ?thesis by (auto simp: SetNonce_def intro: changes_trans)
qed

lemma codeAt_CodeObj:
  assumes "objOk rd o1" "so_address o1 = a"
  shows "codeAt rd a (CodeHash (so_data o1)) (fst (CodeObj rd o1)) = av_code (viewObj rd s o1)"
proof (cases "fst (CodeObj rd o1)")
  case (Some c)
  then show ?thesis by (simp add: viewObj_def codeAt_def)
next
  case None
  with assms show ?thesis
    by (auto simp: viewObj_def codeAt_def CodeObj_def objOk_def split: option.splits sum.splits if_splits)
qed

text \<open>Reading the code caches it in the object, which the following setter stores.\<close>

lemma changes_setter':
  assumes "objectsOk rd s" "peekObj rd s a = Some o1" "\<not> deleted o1" "objOk rd o2" "so_address o2 = a"
    "viewObj rd s o2 = viewObj rd s o1"
    and "refinesView rd a f g" "refinesView rd a f' g'"
    "\<And>t t'. onObject rd a f' t = Some t' \<Longrightarrow> revertEntry rd e t = Some t'"
    "g' (g (viewObj rd s o1)) = viewObj rd s o1" "\<not> av_deleted (g (viewObj rd s o1))"
  shows "changes rd s (setStateObject (f o2) (record_change e s))"
proof -
  let ?t = "setStateObject o2 s"
  have "quiet rd s ?t"
    by (rule quiet_setStateObject [of rd s o2 o1]) (use assms(2,4,5,6) peekObj_ok [OF assms(1,2)] in auto)
  then have 1: "changes rd s ?t" using changes_quiet assms(1) by blast
  have v: "viewObj rd ?t = viewObj rd s" by (rule quiet_viewObj) fact
  have d: "\<not> deleted o2" using assms(3,6) viewObj_sels(3) by metis
  have "changes rd ?t (setStateObject (f o2) (record_change e ?t))"
    by (rule changes_setter [OF changes_ok [OF 1] _ d assms(7-9)])
      (use assms v in \<open>simp_all add: peekObj_setStateObject\<close>)
  moreover have "so_address (f o2) = a" using assms(4,5,7) unfolding refinesView_def by blast
  then have "setStateObject (f o2) (record_change e ?t) = setStateObject (f o2) (record_change e s)"
    using assms(5) by (simp add: setStateObject_def record_change_def)
  ultimately show ?thesis using changes_trans [OF 1] by simp
qed

lemma SetCode_changes:
  assumes "objectsOk rd s" "hashInj rd"
  shows "changes rd s (SetCode rd a c s)"
proof -
  obtain o1 s' where g: "GetOrNewStateObject rd a s = (o1, s')" by (cases "GetOrNewStateObject rd a s")
  note sp = GetOrNewStateObject_changes [OF g assms]
  let ?o = "snd (CodeObj rd o1)"
  have "changes rd s' (setStateObject (setCodeObj (keccak rd c) (Some c) ?o)
      (record_change (codeChange (so_address ?o) (fst (CodeObj rd o1)) (CodeHash (so_data ?o))) s'))"
    by (rule changes_setter' [OF sp(4) sp(2,3) _ _ _ refines_setCode
          refines_setCode [of _ _ "CodeHash (so_data o1)" "fst (CodeObj rd o1)"]])
      (use sp in \<open>simp_all add: read_keeps codeAt_CodeObj [where s = s']\<close>)
  with sp(1) g show ?thesis by (auto simp: SetCode_def split_beta intro: changes_trans)
qed

lemma SetState_changes:
  assumes "objectsOk rd s" "hashInj rd"
  shows "changes rd s (SetState rd a k x s)"
proof -
  obtain o1 s' where g: "GetOrNewStateObject rd a s = (o1, s')" by (cases "GetOrNewStateObject rd a s")
  note sp = GetOrNewStateObject_changes [OF g assms]
  let ?o = "snd (GetStateObj rd s' k o1)" and ?p = "fst (GetStateObj rd s' k o1)"
  have v: "(viewObj rd s' o1)\<lparr>av_storage := (av_storage (viewObj rd s' o1))(k := ?p)\<rparr> = viewObj rd s' o1"
    by (simp add: viewObj_def fun_upd_idem)
  have "changes rd s' (setStateObject (setStateObj k x ?o)
      (record_change (storageChange (so_address ?o) k ?p) s'))"
    by (rule changes_setter' [OF sp(4) sp(2,3) _ _ _ refines_setState refines_setState [of _ _ k ?p]])
      (use sp v in \<open>simp_all add: read_keeps\<close>)
  moreover have "changes rd s' (setStateObject ?o s')"
    by (rule changes_quiet [OF sp(4)], rule quiet_setStateObject [of rd s' ?o o1])
      (use sp in \<open>simp_all add: read_keeps\<close>)
  ultimately have "changes rd s' (SetState rd a k x s)"
    using g objOkD [OF sp(6)] by (simp add: SetState_def split_beta)
  with sp(1) show ?thesis by (rule changes_trans)
qed

lemma Suicide_changes:
  assumes ok: "objectsOk rd s"
  shows "changes rd s (snd (Suicide rd a s))"
proof -
  obtain r s' where g: "getStateObject rd a s = (r, s')" by (cases "getStateObject rd a s")
  note sp = getStateObject_spec [OF g]
  note ch = changes_quiet [OF ok sp(2)]
  show ?thesis
  proof (cases r)
    case None
    with g ch show ?thesis by (simp add: Suicide_def)
  next
    case (Some o1)
    then have o1: "peekObj rd s' a = Some o1" "\<not> deleted o1"
      using sp(1,3) by (auto simp: liveObj_def split: option.splits if_splits)
    have "changes rd s' (setStateObject (setBalanceObj 0 (o1\<lparr>suicided := True\<rparr>))
        (record_change (suicideChange a (suicided o1) (Balance (so_data o1))) s'))"
      (is "changes rd s' (setStateObject (?f o1) (record_change ?e s'))")
      by (rule changes_setter [OF changes_ok [OF ch] o1 refines_suicide
            refines_suicide [of _ _ "Balance (so_data o1)" "suicided o1"]])
        (use o1 viewObj_sels in \<open>auto simp: onObject_def split: prod.splits option.splits\<close>)
    with ch g Some show ?thesis by (auto simp: Suicide_def intro: changes_trans)
  qed
qed

subsection \<open>Refunds, logs and preimages\<close>

lemma absState_globals [simp]:
  "absState rd (s\<lparr>refund := r\<rparr>) = (absState rd s)\<lparr>w_refund := r\<rparr>"
  "absState rd (s\<lparr>preimages := p\<rparr>) = (absState rd s)\<lparr>w_preimages := p\<rparr>"
  "absState rd (s\<lparr>logs := l, logSize := n\<rparr>) =
     (absState rd s)\<lparr>w_logs := (\<lambda>h. case l h of None \<Rightarrow> [] | Some l \<Rightarrow> l), w_logSize := n\<rparr>"
  "absState rd (s\<lparr>validRevisions := v\<rparr>) = absState rd s"
  "absState rd (s\<lparr>nextRevisionId := i\<rparr>) = absState rd s"
proof -
  have p: "peekObj rd (s\<lparr>refund := r\<rparr>) = peekObj rd s"
    "peekObj rd (s\<lparr>preimages := p\<rparr>) = peekObj rd s"
    "peekObj rd (s\<lparr>logs := l, logSize := n\<rparr>) = peekObj rd s"
    "peekObj rd (s\<lparr>validRevisions := v\<rparr>) = peekObj rd s"
    "peekObj rd (s\<lparr>nextRevisionId := i\<rparr>) = peekObj rd s"
    by (rule ext, rule peekObj_cong, simp_all)+
  show "absState rd (s\<lparr>refund := r\<rparr>) = (absState rd s)\<lparr>w_refund := r\<rparr>"
    "absState rd (s\<lparr>preimages := p\<rparr>) = (absState rd s)\<lparr>w_preimages := p\<rparr>"
    "absState rd (s\<lparr>logs := l, logSize := n\<rparr>) =
     (absState rd s)\<lparr>w_logs := (\<lambda>h. case l h of None \<Rightarrow> [] | Some l \<Rightarrow> l), w_logSize := n\<rparr>"
    "absState rd (s\<lparr>validRevisions := v\<rparr>) = absState rd s"
    "absState rd (s\<lparr>nextRevisionId := i\<rparr>) = absState rd s"
    by (simp_all add: absState_def p)
qed

lemma objectsOk_globals [simp]:
  "objectsOk rd (s\<lparr>refund := r\<rparr>) = objectsOk rd s"
  "objectsOk rd (s\<lparr>preimages := p\<rparr>) = objectsOk rd s"
  "objectsOk rd (s\<lparr>logs := l, logSize := n\<rparr>) = objectsOk rd s"
  "objectsOk rd (s\<lparr>validRevisions := v\<rparr>) = objectsOk rd s"
  "objectsOk rd (s\<lparr>nextRevisionId := i\<rparr>) = objectsOk rd s"
  by (simp_all add: objectsOk_def)

lemma absState_sels [simp]:
  "w_refund (absState rd s) = refund s" "w_preimages (absState rd s) = preimages s"
  "w_logSize (absState rd s) = logSize s" "w_snap (absState rd s) = snap s"
  "w_logs (absState rd s) h = (case logs s h of None \<Rightarrow> [] | Some l \<Rightarrow> l)"
  by (simp_all add: absState_def)

lemma changes_refund:
  assumes "objectsOk rd s"
  shows "changes rd s ((record_change (refundChange (refund s)) s)\<lparr>refund := r\<rparr>)"
proof (rule changes_single)
  fix t
  assume "absState rd t = absState rd ((record_change (refundChange (refund s)) s)\<lparr>refund := r\<rparr>)"
    and "objectsOk rd t"
  moreover have "(absState rd s)\<lparr>w_refund := refund s\<rparr> = absState rd s" by (simp add: absState_def)
  ultimately show "\<exists>t'. revertEntry rd (refundChange (refund s)) t = Some t' \<and> objectsOk rd t'
      \<and> absState rd t' = absState rd s \<and> sameFrame t t'"
    by (simp add: sameFrame_def)
qed (use assms in simp_all)

lemma AddRefund_changes: "objectsOk rd s \<Longrightarrow> changes rd s (AddRefund g s)"
  by (simp add: AddRefund_def changes_refund)

lemma SubRefund_changes: "objectsOk rd s \<Longrightarrow> SubRefund g s = Some s' \<Longrightarrow> changes rd s s'"
  by (auto simp: SubRefund_def Let_def record_change_def changes_refund [unfolded record_change_def] split: if_splits)

lemma AddPreimage_changes:
  assumes "objectsOk rd s"
  shows "changes rd s (AddPreimage h pre s)"
proof (cases "preimages s h")
  case None
  have "changes rd s ((record_change (addPreimageChange h) s)\<lparr>preimages := (preimages s)(h \<mapsto> pre)\<rparr>)"
  proof (rule changes_single)
    fix t
    assume t: "absState rd t = absState rd ((record_change (addPreimageChange h) s)\<lparr>preimages := (preimages s)(h \<mapsto> pre)\<rparr>)"
      and ok: "objectsOk rd t"
    from arg_cong [OF t, of w_preimages] have "preimages t = (preimages s)(h \<mapsto> pre)" by simp
    moreover from None have "(absState rd s)\<lparr>w_preimages := (preimages s)(h := None)\<rparr> = absState rd s"
      by (simp add: absState_def fun_upd_idem)
    ultimately show "\<exists>t'. revertEntry rd (addPreimageChange h) t = Some t' \<and> objectsOk rd t'
        \<and> absState rd t' = absState rd s \<and> sameFrame t t'"
      using ok t by (simp add: sameFrame_def)
  qed (use assms in simp_all)
  with None show ?thesis by (simp add: AddPreimage_def)
next
  case (Some p)
  then show ?thesis using changes_quiet [OF assms quiet_refl] by (simp add: AddPreimage_def)
qed

lemma AddLog_changes:
  assumes ok: "objectsOk rd s"
  shows "changes rd s (AddLog log s)"
proof (rule changes_single)
  let ?e = "addLogChange (thash s)"
  let ?w = "\<lambda>h. case logs s h of None \<Rightarrow> [] | Some l \<Rightarrow> l"
  obtain l' where abs': "absState rd (AddLog log s) = (absState rd s)\<lparr>
      w_logs := ?w(thash s := ?w (thash s) @ [l']), w_logSize := logSize s + 1\<rparr>"
    by (rule that [of "log\<lparr>log_TxHash := thash s, log_BlockHash := bhash s,
         log_TxIndex := of_int (txIndex s), log_Index := logSize s\<rparr>"])
      (simp add: AddLog_def Let_def record_change_def fun_eq_iff)
  show "entries (journal (AddLog log s)) = entries (journal s) @ [?e]"
    "validRevisions (AddLog log s) = validRevisions s" "nextRevisionId (AddLog log s) = nextRevisionId s"
    by (simp_all add: AddLog_def Let_def)
  show "objectsOk rd (AddLog log s)" using ok by (simp add: AddLog_def Let_def)
  fix t
  assume okt: "objectsOk rd t" and t: "absState rd t = absState rd (AddLog log s)"
  let ?v = "\<lambda>h. case logs t h of None \<Rightarrow> [] | Some l \<Rightarrow> l"
  have v: "?v = ?w(thash s := ?w (thash s) @ [l'])" and sz: "logSize t = logSize s + 1"
    using arg_cong [OF t, of w_logs] arg_cong [OF t, of w_logSize] unfolding abs' by (simp_all add: absState_def)
  have vt: "?v (thash s) = ?w (thash s) @ [l']" using fun_cong [OF v, of "thash s"] by simp
  have bk: "(absState rd t)\<lparr>w_logs := ?v(thash s := ?w (thash s)), w_logSize := logSize t - 1\<rparr> = absState rd s"
    unfolding t abs' v sz by (simp add: absState_def fun_eq_iff)
  define l where "l = (if length (?v (thash s)) = 1 then (logs t)(thash s := None)
      else (logs t)(thash s \<mapsto> butlast (?v (thash s))))"
  have "revertEntry rd ?e t = Some (t\<lparr>logs := l, logSize := logSize t - 1\<rparr>)"
    using vt by (simp add: l_def Let_def)
  moreover have "(\<lambda>h. case l h of None \<Rightarrow> [] | Some l \<Rightarrow> l) = ?v(thash s := ?w (thash s))"
    using vt by (auto simp: l_def fun_eq_iff)
  ultimately show "\<exists>t'. revertEntry rd ?e t = Some t' \<and> objectsOk rd t' \<and> absState rd t' = absState rd s \<and> sameFrame t t'"
    using okt bk by (simp add: sameFrame_def)
qed

subsection \<open>Queries are quiet\<close>

lemma quiet_getStateObject: "quiet rd s (snd (getStateObject rd a s))"
  using getStateObject_spec(2) [of rd a s] by (cases "getStateObject rd a s") simp

lemma quiet_cache:
  assumes "objectsOk rd s" "getStateObject rd a s = (Some o1, s')" "viewObj rd s' o2 = viewObj rd s' o1"
    "so_address o2 = so_address o1" "objOk rd o2 = objOk rd o1"
  shows "quiet rd s (setStateObject o2 s')"
proof -
  note sp = getStateObject_spec [OF assms(2)]
  have p: "peekObj rd s' a = Some o1" using sp(4) by (simp add: peekObj_def)
  have "objectsOk rd s'" using sp(2) assms(1) by (simp add: quiet_def)
  from peekObj_ok [OF this p] have "so_address o1 = a" "objOk rd o1" by auto
  then have "quiet rd s' (setStateObject o2 s')"
    using assms p by (intro quiet_setStateObject [of rd s' o2 o1]) auto
  with sp(2) show ?thesis by (rule quiet_trans)
qed

lemma queries_quiet:
  "quiet rd s (snd (Exist rd a s))" "quiet rd s (snd (Empty rd a s))"
  "quiet rd s (snd (GetBalance rd a s))" "quiet rd s (snd (GetNonce rd a s))"
  "quiet rd s (snd (GetCodeHash rd a s))" "quiet rd s (snd (HasSuicided rd a s))"
  using quiet_getStateObject [of rd s a]
  by (auto simp: Exist_def Empty_def GetBalance_def GetNonce_def GetCodeHash_def HasSuicided_def
      split: prod.splits option.splits)

lemma caching_queries_quiet:
  assumes "objectsOk rd s"
  shows "quiet rd s (snd (GetCode rd a s))" "quiet rd s (snd (GetState rd a k s))"
    "quiet rd s (snd (GetCommittedState rd a k s))" "quiet rd s (snd (GetCodeSize rd a s))"
proof -
  obtain r s' where g: "getStateObject rd a s = (r, s')" by (cases "getStateObject rd a s")
  have q: "quiet rd s s'" using getStateObject_spec(2) [OF g] .
  show "quiet rd s (snd (GetCode rd a s))" "quiet rd s (snd (GetState rd a k s))"
    "quiet rd s (snd (GetCommittedState rd a k s))" "quiet rd s (snd (GetCodeSize rd a s))"
    using g q quiet_cache [OF assms, of a]
    by (cases r; simp add: GetCode_def GetState_def GetCommittedState_def GetCodeSize_def split_beta
        read_keeps CodeSizeObj_keeps)+
qed

end
