(* ===== verification/StateRevert.thy ===== *)
theory StateRevert
  imports StateWorld
begin

text \<open>
  Snapshots and reverts over whole sequences of state operations, and the effect of the
  operations on the balances, nonces, code and storage slots of the world.
\<close>

subsection \<open>Sequences of operations\<close>

datatype stateOp =
    OpCreateAccount address | OpAddBalance address int | OpSubBalance address int
  | OpSetBalance address int | OpSetNonce address u64 | OpSetCode address bytes
  | OpSetState address hash hash | OpSuicide address | OpAddLog Log | OpAddPreimage hash bytes
  | OpAddRefund u64 | OpSubRefund u64 | OpExist address | OpEmpty address | OpGetBalance address
  | OpGetNonce address | OpGetCode address | OpGetCodeHash address | OpHasSuicided address
  | OpGetCodeSize address | OpGetState address hash | OpGetCommittedState address hash | OpSnapshot
  | OpRevertToSnapshot int | OpPrepare hash hash int | OpFinalise "address list" bool

fun runOp :: "reader \<Rightarrow> stateOp \<Rightarrow> StateDB \<Rightarrow> StateDB option" where
  "runOp rd (OpCreateAccount a) s = Some (CreateAccount rd a s)"
| "runOp rd (OpAddBalance a x) s = Some (AddBalance rd a x s)"
| "runOp rd (OpSubBalance a x) s = Some (SubBalance rd a x s)"
| "runOp rd (OpSetBalance a x) s = Some (SetBalance rd a x s)"
| "runOp rd (OpSetNonce a n) s = Some (SetNonce rd a n s)"
| "runOp rd (OpSetCode a c) s = Some (SetCode rd a c s)"
| "runOp rd (OpSetState a k x) s = Some (SetState rd a k x s)"
| "runOp rd (OpSuicide a) s = Some (snd (Suicide rd a s))"
| "runOp rd (OpAddLog l) s = Some (AddLog l s)"
| "runOp rd (OpAddPreimage h p) s = Some (AddPreimage h p s)"
| "runOp rd (OpAddRefund g) s = Some (AddRefund g s)"
| "runOp rd (OpSubRefund g) s = SubRefund g s"
| "runOp rd (OpExist a) s = Some (snd (Exist rd a s))"
| "runOp rd (OpEmpty a) s = Some (snd (Empty rd a s))"
| "runOp rd (OpGetBalance a) s = Some (snd (GetBalance rd a s))"
| "runOp rd (OpGetNonce a) s = Some (snd (GetNonce rd a s))"
| "runOp rd (OpGetCode a) s = Some (snd (GetCode rd a s))"
| "runOp rd (OpGetCodeHash a) s = Some (snd (GetCodeHash rd a s))"
| "runOp rd (OpHasSuicided a) s = Some (snd (HasSuicided rd a s))"
| "runOp rd (OpGetCodeSize a) s = Some (snd (GetCodeSize rd a s))"
| "runOp rd (OpGetState a k) s = Some (snd (GetState rd a k s))"
| "runOp rd (OpGetCommittedState a k) s = Some (snd (GetCommittedState rd a k s))"
| "runOp rd OpSnapshot s = Some (snd (Snapshot s))"
| "runOp rd (OpRevertToSnapshot i) s = RevertToSnapshot rd i s"
| "runOp rd (OpPrepare th bh ti) s = Some (Prepare th bh ti s)"
| "runOp rd (OpFinalise order d) s = Some (Finalise rd order d s)"

fun runOps :: "reader \<Rightarrow> stateOp list \<Rightarrow> StateDB \<Rightarrow> StateDB option" where
  "runOps rd [] s = Some s"
| "runOps rd (x # xs) s = (case runOp rd x s of None \<Rightarrow> None | Some s' \<Rightarrow> runOps rd xs s')"

text \<open>The operations a call frame may use between its snapshot \<open>i\<close> and its end.\<close>

fun inFrame :: "int \<Rightarrow> stateOp \<Rightarrow> bool" where
  "inFrame i (OpRevertToSnapshot j) = (i < j)"
| "inFrame i (OpPrepare th bh ti) = False"
| "inFrame i (OpFinalise order d) = False"
| "inFrame i _ = True"

definition mutates :: "stateOp \<Rightarrow> bool" where
  "mutates op = (case op of OpSnapshot \<Rightarrow> False | OpRevertToSnapshot j \<Rightarrow> False
     | OpPrepare th bh ti \<Rightarrow> False | OpFinalise order d \<Rightarrow> False | _ \<Rightarrow> True)"

lemma runOp_changes:
  assumes "mutates op" "runOp rd op s = Some s'" "objectsOk rd s" "hashInj rd"
  shows "changes rd s s'"
proof (cases op)
  case (OpSubRefund g)
  with assms show ?thesis using SubRefund_changes by simp
qed (use assms CreateAccount_changes AddBalance_changes SubBalance_changes SetBalance_changes
    SetNonce_changes SetCode_changes SetState_changes Suicide_changes AddLog_changes
    AddPreimage_changes AddRefund_changes queries_quiet [THEN changes_quiet [OF assms(3)]]
    caching_queries_quiet [OF assms(3), THEN changes_quiet [OF assms(3)]]
    in \<open>auto simp: mutates_def\<close>)

subsection \<open>The revision stack\<close>

text \<open>
  Each open revision stands for the world at its snapshot: undoing the entries since then
  leads back to it. Revisions are listed latest first.
\<close>

fun hist :: "reader \<Rightarrow> revision list \<Rightarrow> world list \<Rightarrow> journalEntry list \<Rightarrow> world \<Rightarrow> bool" where
  "hist rd [] [] es w = True"
| "hist rd (r # rs) (v # vs) es w =
     (rev_journalIndex r \<le> length es \<and> undoes rd (drop (rev_journalIndex r) es) v w
      \<and> hist rd rs vs (take (rev_journalIndex r) es) v)"
| "hist rd _ _ es w = False"

lemma hist_length: "hist rd rs vs es w \<Longrightarrow> length rs = length vs"
  by (induction rd rs vs es w rule: hist.induct) auto

lemma hist_extend: "hist rd rs vs es w \<Longrightarrow> undoes rd es' w w' \<Longrightarrow> hist rd rs vs (es @ es') w'"
  by (cases rs; cases vs) (auto intro: undoes_append)

lemma hist_split:
  "hist rd (xs @ r # rs) (ys @ v # vs) es w \<Longrightarrow> length xs = length ys \<Longrightarrow>
     rev_journalIndex r \<le> length es \<and> undoes rd (drop (rev_journalIndex r) es) v w
     \<and> hist rd rs vs (take (rev_journalIndex r) es) v"
proof (induction xs arbitrary: ys es w)
  case (Cons x xs)
  then obtain y ys' where ys: "ys = y # ys'" by (cases ys) auto
  let ?n = "rev_journalIndex x" and ?m = "rev_journalIndex r"
  from Cons.prems have h: "?n \<le> length es" "undoes rd (drop ?n es) y w"
    "hist rd (xs @ r # rs) (ys' @ v # vs) (take ?n es) y" by (simp_all add: ys)
  from Cons.IH [OF h(3)] Cons.prems(2) ys have i: "?m \<le> ?n" "undoes rd (drop ?m (take ?n es)) v y"
    "hist rd rs vs (take ?m es) v" using h(1) by (auto simp: min.absorb1)
  have "drop ?m (take ?n es) @ drop ?n es = drop ?m es"
    using i(1) h(1) by (metis append_take_drop_id drop_append diff_is_0_eq drop_0 length_take min.absorb2)
  with undoes_append [OF i(2) h(2)] i h(1) show ?case by (simp add: min.absorb1)
qed simp

definition revsOk :: "StateDB \<Rightarrow> bool" where
  "revsOk s \<longleftrightarrow> sorted_wrt (\<lambda>r q. rev_id r < rev_id q) (validRevisions s)
     \<and> (\<forall>r \<in> set (validRevisions s). rev_id r < nextRevisionId s)"

definition histInv :: "reader \<Rightarrow> world list \<Rightarrow> StateDB \<Rightarrow> bool" where
  "histInv rd vs s \<longleftrightarrow> objectsOk rd s \<and> revsOk s
     \<and> hist rd (rev (validRevisions s)) vs (entries (journal s)) (absState rd s)"

lemma histInv_changes:
  assumes "histInv rd vs s" "changes rd s s'"
  shows "histInv rd vs s'"
proof -
  from assms(2) obtain es where "entries (journal s') = entries (journal s) @ es"
    "validRevisions s' = validRevisions s" "nextRevisionId s' = nextRevisionId s"
    "objectsOk rd s'" "undoes rd es (absState rd s) (absState rd s')" unfolding changes_def by blast
  with assms(1) show ?thesis by (auto simp: histInv_def revsOk_def intro: hist_extend)
qed

lemma histInv_Snapshot:
  assumes "histInv rd vs s"
  shows "histInv rd (absState rd s # vs) (snd (Snapshot s))"
  using assms by (auto simp: histInv_def revsOk_def Snapshot_def Let_def sorted_wrt_append)

lemma searchRevision_sorted:
  assumes "sorted_wrt (\<lambda>r q. rev_id r < rev_id q) (xs @ r # ys)"
  shows "searchRevision (xs @ r # ys) (rev_id r) = length xs"
  using assms by (induction xs) auto

lemma searchRevision_None:
  assumes "rev_id (rs ! searchRevision rs i) = i" "searchRevision rs i < length rs"
  shows "\<exists>xs r ys. rs = xs @ r # ys \<and> rev_id r = i \<and> searchRevision rs i = length xs"
  using assms id_take_nth_drop [of "searchRevision rs i" rs]
  by (intro exI [of _ "take (searchRevision rs i) rs"] exI [of _ "rs ! searchRevision rs i"]
      exI [of _ "drop (Suc (searchRevision rs i)) rs"]) simp

lemma RevertToSnapshot_world:
  assumes inv: "histInv rd (us @ v # vs) s" and r: "validRevisions s = xs @ r # ys"
    and len: "length us = length ys"
  shows "\<exists>s'. RevertToSnapshot rd (rev_id r) s = Some s' \<and> absState rd s' = v \<and> validRevisions s' = xs
     \<and> entries (journal s') = take (rev_journalIndex r) (entries (journal s)) \<and> histInv rd vs s'"
proof -
  let ?n = "rev_journalIndex r"
  have srt: "sorted_wrt (\<lambda>r q. rev_id r < rev_id q) (xs @ r # ys)" using inv r by (simp add: histInv_def revsOk_def)
  have "hist rd (rev ys @ r # rev xs) (us @ v # vs) (entries (journal s)) (absState rd s)"
    using inv r by (simp add: histInv_def)
  from hist_split [OF this] len have h: "?n \<le> length (entries (journal s))"
    "undoes rd (drop ?n (entries (journal s))) v (absState rd s)"
    "hist rd (rev xs) vs (take ?n (entries (journal s))) v" by simp_all
  from h(2) inv obtain t where t: "revertLoop rd (rev (drop ?n (entries (journal s)))) s = Some t"
    "objectsOk rd t" "absState rd t = v" "entries (journal t) = entries (journal s)"
    "validRevisions t = validRevisions s" "nextRevisionId t = nextRevisionId s"
    unfolding undoes_def histInv_def by blast
  let ?t = "t\<lparr>journal := (journal t)\<lparr>entries := take ?n (entries (journal t))\<rparr>, validRevisions := xs\<rparr>"
  have "RevertToSnapshot rd (rev_id r) s = Some ?t"
    using t r searchRevision_sorted [OF srt] by (simp add: RevertToSnapshot_def Let_def journal_revert_def)
  moreover have "histInv rd vs ?t"
    using t h(3) inv srt r by (auto simp: histInv_def revsOk_def sorted_wrt_append)
  ultimately show ?thesis using t by simp
qed

subsection \<open>Call frames\<close>

text \<open>
  What holds at every point between the snapshot \<open>r\<close> and its revert: the revision is still
  open, the journal below it is untouched and its world is \<open>v\<close>.
\<close>

definition frameInv :: "reader \<Rightarrow> revision list \<Rightarrow> revision \<Rightarrow> journalEntry list \<Rightarrow> world \<Rightarrow> world list \<Rightarrow> StateDB \<Rightarrow> bool" where
  "frameInv rd xs r es v vs s \<longleftrightarrow>
     (\<exists>us ys. histInv rd (us @ v # vs) s \<and> validRevisions s = xs @ r # ys \<and> length us = length ys
        \<and> take (rev_journalIndex r) (entries (journal s)) = es)"

lemma histInv_index:
  assumes "histInv rd (us @ v # vs) s" "validRevisions s = xs @ r # ys" "length us = length ys"
  shows "rev_journalIndex r \<le> length (entries (journal s))"
  using assms hist_split [of rd "rev ys" r "rev xs" us v vs] by (auto simp: histInv_def)

lemma frameInv_changes:
  assumes "frameInv rd xs r es v vs s" "changes rd s s'"
  shows "frameInv rd xs r es v vs s'"
proof -
  from assms(1) obtain us ys where f: "histInv rd (us @ v # vs) s" "validRevisions s = xs @ r # ys"
    "length us = length ys" "take (rev_journalIndex r) (entries (journal s)) = es"
    unfolding frameInv_def by blast
  from assms(2) obtain es' where "entries (journal s') = entries (journal s) @ es'"
    "validRevisions s' = validRevisions s" unfolding changes_def by blast
  then have "take (rev_journalIndex r) (entries (journal s')) = es" "validRevisions s' = xs @ r # ys"
    using f histInv_index [OF f(1-3)] by simp_all
  with histInv_changes [OF f(1) assms(2)] f(3) show ?thesis unfolding frameInv_def by blast
qed

lemma frameInv_Snapshot:
  assumes "frameInv rd xs r es v vs s"
  shows "frameInv rd xs r es v vs (snd (Snapshot s))"
proof -
  from assms obtain us ys where f: "histInv rd (us @ v # vs) s" "validRevisions s = xs @ r # ys"
    "length us = length ys" "take (rev_journalIndex r) (entries (journal s)) = es"
    unfolding frameInv_def by blast
  obtain q where q: "validRevisions (snd (Snapshot s)) = xs @ r # ys @ [q]"
    using f(2) by (simp add: Snapshot_def Let_def)
  show ?thesis
    unfolding frameInv_def
    by (rule exI [of _ "absState rd s # us"], rule exI [of _ "ys @ [q]"])
      (use histInv_Snapshot [OF f(1)] q f(3,4) in \<open>simp add: Snapshot_def Let_def\<close>)
qed

lemma RevertToSnapshot_found:
  assumes "RevertToSnapshot rd i s = Some s'"
  shows "\<exists>xs q ys. validRevisions s = xs @ q # ys \<and> rev_id q = i"
proof -
  let ?k = "searchRevision (validRevisions s) i"
  have le: "searchRevision rs i \<le> length rs" for rs by (induction rs) auto
  from assms have "?k \<noteq> length (validRevisions s)" "rev_id (validRevisions s ! ?k) = i"
    by (auto simp: RevertToSnapshot_def Let_def split: if_splits)
  with le [of "validRevisions s"] searchRevision_None [of "validRevisions s" i] show ?thesis by force
qed

lemma frameInv_Revert:
  assumes "frameInv rd xs r es v vs s" "RevertToSnapshot rd i s = Some s'" "rev_id r < i"
  shows "frameInv rd xs r es v vs s'"
proof -
  from assms(1) obtain us ys where f: "histInv rd (us @ v # vs) s" "validRevisions s = xs @ r # ys"
    "length us = length ys" "take (rev_journalIndex r) (entries (journal s)) = es"
    unfolding frameInv_def by blast
  from RevertToSnapshot_found [OF assms(2)] obtain as q bs where q: "validRevisions s = as @ q # bs" "rev_id q = i"
    by blast
  have srt: "sorted_wrt (\<lambda>r q. rev_id r < rev_id q) (xs @ r # ys)"
    using f(1,2) by (simp add: histInv_def revsOk_def)
  have "q \<in> set ys"
  proof -
    have "q \<in> set xs \<union> {r} \<union> set ys" using f(2) q(1) by (metis Un_iff in_set_conv_decomp insertI1 set_ConsD set_append singletonD singletonI)
    with srt assms(3) q(2) show ?thesis by (auto simp: sorted_wrt_append)
  qed
  then obtain y1 y2 where y: "ys = y1 @ q # y2" by (auto simp: in_set_conv_decomp)
  define u2 where "u2 = take (length y2) us"
  obtain w u1 where u: "us = u2 @ w # u1" "length u2 = length y2" "length u1 = length y1"
  proof -
    have "length y2 < length us" using f(3) y by simp
    then have "us = u2 @ us ! length y2 # drop (Suc (length y2)) us"
      unfolding u2_def by (rule id_take_nth_drop)
    then show ?thesis using that [of "us ! length y2" "drop (Suc (length y2)) us"] f(3) y
      by (simp add: u2_def)
  qed
  have "histInv rd (u2 @ w # (u1 @ v # vs)) s" using f(1) u(1) by simp
  moreover have "validRevisions s = (xs @ r # y1) @ q # y2" using f(2) y by simp
  ultimately obtain t where t: "RevertToSnapshot rd i s = Some t" "validRevisions t = xs @ r # y1"
    "entries (journal t) = take (rev_journalIndex q) (entries (journal s))" "histInv rd (u1 @ v # vs) t"
    using RevertToSnapshot_world [of rd u2 w "u1 @ v # vs" s "xs @ r # y1" q y2] u(2) q(2) by blast
  have "rev_journalIndex r \<le> length (entries (journal t))" using histInv_index [OF t(4,2)] u(3) by simp
  then have "rev_journalIndex r \<le> rev_journalIndex q" by (simp add: t(3) min_def split: if_splits)
  then have "take (rev_journalIndex r) (entries (journal t)) = es" using f(4) t(3) by (simp add: min.absorb1)
  with t u(3) assms(2) show ?thesis unfolding frameInv_def by auto
qed

lemma frameInv_runOps:
  "runOps rd ops s = Some s' \<Longrightarrow> frameInv rd xs r es v vs s \<Longrightarrow> hashInj rd \<Longrightarrow>
     (\<And>op. op \<in> set ops \<Longrightarrow> inFrame (rev_id r) op) \<Longrightarrow> frameInv rd xs r es v vs s'"
proof (induction ops arbitrary: s)
  case (Cons op ops)
  from Cons.prems(1) obtain t where t: "runOp rd op s = Some t" "runOps rd ops t = Some s'"
    by (auto split: option.splits)
  have ok: "objectsOk rd s" using Cons.prems(2) by (auto simp: frameInv_def histInv_def)
  have "frameInv rd xs r es v vs t"
  proof (cases "mutates op")
    case True
    with frameInv_changes [OF Cons.prems(2)] runOp_changes [OF True t(1) ok Cons.prems(3)] show ?thesis by blast
  next
    case False
    with Cons.prems(4) [of op] t(1) frameInv_Snapshot [OF Cons.prems(2)] frameInv_Revert [OF Cons.prems(2)]
    show ?thesis by (cases op) (auto simp: mutates_def)
  qed
  with Cons.IH [OF t(2)] Cons.prems(3,4) show ?case by simp
qed simp

subsection \<open>Reachable states\<close>

inductive reachable :: "reader \<Rightarrow> StateDB \<Rightarrow> bool" for rd where
  init: "reachable rd (newStateDB sn)"
| step: "reachable rd s \<Longrightarrow> runOp rd op s = Some s' \<Longrightarrow>
    (\<forall>th bh ti. op = OpPrepare th bh ti \<longrightarrow> validRevisions s = []) \<Longrightarrow> reachable rd s'"

lemma objectsOk_finaliseOne: "objectsOk rd s \<Longrightarrow> objectsOk rd (finaliseOne rd d a s)"
  by (auto simp: finaliseOne_def objectsOk_def Let_def objOk_def finaliseObj_def split: option.split)

lemma objectsOk_Finalise: "objectsOk rd s \<Longrightarrow> objectsOk rd (Finalise rd order d s)"
proof -
  assume "objectsOk rd s"
  then have "objectsOk rd (fold (finaliseOne rd d) order s)"
    by (induction order arbitrary: s) (auto simp: objectsOk_finaliseOne)
  then show ?thesis by (simp add: Finalise_def clearJournalAndRefund_def Let_def objectsOk_def)
qed

lemma histInv_runOp:
  assumes "histInv rd vs s" "runOp rd op s = Some s'" "hashInj rd"
    "\<And>th bh ti. op = OpPrepare th bh ti \<Longrightarrow> validRevisions s = []"
  shows "\<exists>vs'. histInv rd vs' s'"
proof (cases "mutates op")
  case True
  from assms(1) have "objectsOk rd s" by (simp add: histInv_def)
  with histInv_changes [OF assms(1)] runOp_changes [OF True assms(2) _ assms(3)] show ?thesis by blast
next
  case False
  then consider (sn) "op = OpSnapshot" | (rv) i where "op = OpRevertToSnapshot i"
    | (pr) th bh ti where "op = OpPrepare th bh ti" | (fi) order d where "op = OpFinalise order d"
    by (cases op) (auto simp: mutates_def)
  then show ?thesis
  proof cases
    case sn
    with histInv_Snapshot [OF assms(1)] assms(2) show ?thesis by auto
  next
    case (rv i)
    with assms(2) have rev: "RevertToSnapshot rd i s = Some s'" by simp
    from RevertToSnapshot_found [OF this] obtain xs q ys where q: "validRevisions s = xs @ q # ys" "rev_id q = i" by blast
    have "length vs = length xs + Suc (length ys)"
      using assms(1) q hist_length [of rd "rev (validRevisions s)" vs "entries (journal s)" "absState rd s"]
      by (simp add: histInv_def)
    then have "vs = take (length ys) vs @ vs ! length ys # drop (Suc (length ys)) vs" "length (take (length ys) vs) = length ys"
      by (auto intro: id_take_nth_drop)
    with RevertToSnapshot_world [OF _ q(1)] assms(1) rev q(2) show ?thesis by (metis option.inject)
  next
    case pr
    with assms(4) have "validRevisions s = []" by blast
    with pr assms(1,2) have "histInv rd [] s'"
      by (auto simp: histInv_def revsOk_def Prepare_def objectsOk_def)
    then show ?thesis ..
  next
    case fi
    with assms(1,2) have "histInv rd [] s'"
      using objectsOk_Finalise [of rd s]
      by (auto simp: histInv_def revsOk_def) (auto simp: Finalise_def clearJournalAndRefund_def Let_def)
    then show ?thesis ..
  qed
qed

lemma reachable_histInv: "reachable rd s \<Longrightarrow> hashInj rd \<Longrightarrow> \<exists>vs. histInv rd vs s"
proof (induction rule: reachable.induct)
  case (init sn)
  have "histInv rd [] (newStateDB sn)"
    by (simp add: histInv_def revsOk_def newStateDB_def objectsOk_def)
  then show ?case ..
next
  case (step s op s')
  then show ?case using histInv_runOp by blast
qed

subsection \<open>What the operations do to the world\<close>

definition liveView :: "world \<Rightarrow> address \<Rightarrow> acctView option" where
  "liveView w a = (case w_accts w a of Some v \<Rightarrow> if av_deleted v then None else Some v | None \<Rightarrow> None)"

definition balOf :: "world \<Rightarrow> address \<Rightarrow> int" where
  "balOf w a = (case liveView w a of Some v \<Rightarrow> Balance (av_data v) | None \<Rightarrow> 0)"

definition nonceOf :: "world \<Rightarrow> address \<Rightarrow> u64" where
  "nonceOf w a = (case liveView w a of Some v \<Rightarrow> Nonce (av_data v) | None \<Rightarrow> 0)"

definition codeOf :: "world \<Rightarrow> address \<Rightarrow> bytes" where
  "codeOf w a = (case liveView w a of Some v \<Rightarrow> av_code v | None \<Rightarrow> [])"

definition slotOf :: "world \<Rightarrow> address \<Rightarrow> hash \<Rightarrow> hash" where
  "slotOf w a k = (case liveView w a of Some v \<Rightarrow> av_storage v k | None \<Rightarrow> 0)"

lemmas world_reads = balOf_def nonceOf_def codeOf_def slotOf_def

lemma liveView_absState: "liveView (absState rd s) a = map_option (viewObj rd s) (liveObj rd s a)"
  by (auto simp: liveView_def absState_def liveObj_def split: option.split)

text \<open>The queries return what the world says.\<close>

lemma GetBalance_world: "fst (GetBalance rd a s) = balOf (absState rd s) a"
  using getStateObject_spec(1) [of rd a s]
  by (cases "getStateObject rd a s") (auto simp: GetBalance_def balOf_def liveView_absState split: option.split)

lemma GetNonce_world: "fst (GetNonce rd a s) = nonceOf (absState rd s) a"
  using getStateObject_spec(1) [of rd a s]
  by (cases "getStateObject rd a s") (auto simp: GetNonce_def nonceOf_def liveView_absState split: option.split)

lemma GetCode_world:
  "(case fst (GetCode rd a s) of None \<Rightarrow> [] | Some c \<Rightarrow> c) = codeOf (absState rd s) a"
  using getStateObject_spec(1) [of rd a s]
  by (cases "getStateObject rd a s")
    (auto simp: GetCode_def codeOf_def liveView_absState viewObj_def split_beta split: option.split)

lemma GetState_world: "fst (GetState rd a k s) = slotOf (absState rd s) a k"
proof -
  obtain r s' where g: "getStateObject rd a s = (r, s')" by (cases "getStateObject rd a s")
  note sp = getStateObject_spec [OF g]
  have "fst (GetStateObj rd s' k o1) = av_storage (viewObj rd s o1) k" for o1
    using quiet_viewObj [OF sp(2)] viewObj_sels(4) [of rd s' o1 k] by simp
  with sp(1) g show ?thesis
    by (simp add: GetState_def slotOf_def liveView_absState split_beta split: option.split)
qed

lemma liveView_setStateObject:
  assumes "so_address o1 = a" "\<not> deleted o1"
  shows "liveView (absState rd (setStateObject o1 s)) b =
    (if b = a then Some (viewObj rd s o1) else liveView (absState rd s) b)"
  using assms by (simp add: liveView_def absState_setStateObject)

lemma liveView_record [simp]: "liveView (absState rd (record_change e s)) b = liveView (absState rd s) b"
  by simp

text \<open>Getting or creating an account leaves the others alone, and a new one starts empty.\<close>

lemma createObject_world:
  assumes "createObject rd a s = (n, p, s')" "objectsOk rd s" "hashInj rd" "b \<noteq> a"
  shows "liveView (absState rd s') b = liveView (absState rd s) b"
  using assms(1)
proof (cases rule: createObject_cases)
  case (new s1)
  then show ?thesis using assms(4) by (simp add: liveView_setStateObject quiet_def)
next
  case (reset s1 q D pd)
  have ok: "objectsOk rd s1" "absState rd s1 = absState rd s" using reset(1) assms(2) by (auto simp: quiet_def)
  have q: "so_addrHash q = keccak rd (addrBytes a)" using peekObj_ok [OF ok(1) reset(2)] by (simp add: objOk_def)
  let ?t = "record_change (resetObjectChange q pd) s1"
  have "s' = setStateObject n (?t\<lparr>snapDestructs := D\<rparr>)" using reset(7) by (simp only: record_change_snapDestructs)
  then have "w_accts (absState rd s') b = w_accts (absState rd s) b"
    using absState_reset [of rd ?t n a D] ok reset(3,5) assms(3,4) q by (simp add: record_change_def)
  then show ?thesis by (simp add: liveView_def)
qed

lemma GetOrNew_world:
  assumes "GetOrNewStateObject rd a s = (o1, s')" "objectsOk rd s" "hashInj rd"
  shows "b \<noteq> a \<Longrightarrow> liveView (absState rd s') b = liveView (absState rd s) b"
    and "liveView (absState rd s') a = Some (viewObj rd s' o1)"
    and "liveView (absState rd s) a = None \<Longrightarrow> o1 = freshObj rd a"
    and "liveView (absState rd s) a = Some v \<Longrightarrow> viewObj rd s' o1 = v"
proof -
  note sp = GetOrNewStateObject_changes [OF assms]
  show live: "liveView (absState rd s') a = Some (viewObj rd s' o1)"
    using sp(2,3) by (simp add: liveView_def absState_def)
  obtain r t where g: "getStateObject rd a s = (r, t)" by (cases "getStateObject rd a s")
  note gs = getStateObject_spec [OF g]
  have t: "absState rd t = absState rd s" "objectsOk rd t" using gs(2) assms(2) by (auto simp: quiet_def)
  have r: "r = None \<longleftrightarrow> liveView (absState rd s) a = None" using gs(1) by (simp add: liveView_absState)
  obtain n p u where c: "createObject rd a t = (n, p, u)" by (cases "createObject rd a t") auto
  show "b \<noteq> a \<Longrightarrow> liveView (absState rd s') b = liveView (absState rd s) b"
    using assms(1) g c createObject_world [OF c t(2) assms(3)] t(1)
    by (cases r) (auto simp: GetOrNewStateObject_def)
  show "liveView (absState rd s) a = None \<Longrightarrow> o1 = freshObj rd a"
    using assms(1) g c r createObject_changes(3) [OF c t(2) assms(3)]
    by (cases r) (auto simp: GetOrNewStateObject_def)
  show "liveView (absState rd s) a = Some v \<Longrightarrow> viewObj rd s' o1 = v"
    using assms(1) g r t(1) live by (cases r) (auto simp: GetOrNewStateObject_def)
qed

lemma GetOrNew_balance:
  assumes "GetOrNewStateObject rd a s = (o1, s')" "objectsOk rd s" "hashInj rd"
  shows "Balance (so_data o1) = balOf (absState rd s) a" "Nonce (so_data o1) = nonceOf (absState rd s) a"
    "balOf (absState rd s') b = balOf (absState rd s) b"
proof -
  note w = GetOrNew_world [OF assms]
  show 1: "Balance (so_data o1) = balOf (absState rd s) a" "Nonce (so_data o1) = nonceOf (absState rd s) a"
  proof -
    have "Balance (so_data o1) = balOf (absState rd s) a \<and> Nonce (so_data o1) = nonceOf (absState rd s) a"
    proof (cases "liveView (absState rd s) a")
      case None
      with w(3) show ?thesis by (simp add: balOf_def nonceOf_def)
    next
      case (Some v)
      with w(4) have "viewObj rd s' o1 = v" by simp
      with Some show ?thesis by (auto simp: balOf_def nonceOf_def)
    qed
    then show "Balance (so_data o1) = balOf (absState rd s) a" "Nonce (so_data o1) = nonceOf (absState rd s) a"
      by auto
  qed
  show "balOf (absState rd s') b = balOf (absState rd s) b"
    using w(1,2) 1 by (cases "b = a") (simp_all add: balOf_def)
qed

lemma SetBalanceObj_balOf:
  assumes "so_address o1 = a" "\<not> deleted o1"
  shows "balOf (absState rd (SetBalanceObj x o1 s)) b = (if b = a then x else balOf (absState rd s) b)"
proof -
  have "\<not> deleted (setBalanceObj x o1)" using assms by (simp add: setBalanceObj_def)
  with assms show ?thesis
    by (simp add: SetBalanceObj_def balOf_def liveView_setStateObject) (simp add: setBalanceObj_def)
qed

lemma balOf_touch [simp]: "absState rd (touch o1 s) = absState rd s"
  by (simp add: touch_def Let_def)

lemma AddBalance_balOf:
  assumes "objectsOk rd s" "hashInj rd"
  shows "balOf (absState rd (AddBalance rd a x s)) b = balOf (absState rd s) b + (if b = a then x else 0)"
proof -
  obtain o1 s' where g: "GetOrNewStateObject rd a s = (o1, s')" by (cases "GetOrNewStateObject rd a s")
  note n = GetOrNew_balance [OF g assms] and sp = GetOrNewStateObject_changes [OF g assms]
  show ?thesis using g n SetBalanceObj_balOf [OF sp(5,3)] by (simp add: AddBalance_def)
qed

lemma SubBalance_balOf:
  assumes "objectsOk rd s" "hashInj rd"
  shows "balOf (absState rd (SubBalance rd a x s)) b = balOf (absState rd s) b - (if b = a then x else 0)"
proof -
  obtain o1 s' where g: "GetOrNewStateObject rd a s = (o1, s')" by (cases "GetOrNewStateObject rd a s")
  note n = GetOrNew_balance [OF g assms] and sp = GetOrNewStateObject_changes [OF g assms]
  show ?thesis using g n SetBalanceObj_balOf [OF sp(5,3)] by (simp add: SubBalance_def)
qed

lemma Transfer_balOf:
  assumes "objectsOk rd s" "hashInj rd"
  shows "balOf (absState rd (Transfer rd a b x s)) c =
    balOf (absState rd s) c - (if c = a then x else 0) + (if c = b then x else 0)"
  using AddBalance_balOf [OF changes_ok [OF SubBalance_changes [OF assms]] assms(2)] SubBalance_balOf [OF assms]
  by (simp add: Transfer_def)

lemma SetState_slotOf:
  assumes "objectsOk rd s" "hashInj rd"
  shows "slotOf (absState rd (SetState rd a k x s)) a k = x"
    and "b \<noteq> a \<Longrightarrow> slotOf (absState rd (SetState rd a k x s)) b k' = slotOf (absState rd s) b k'"
    and "liveView (absState rd s) a \<noteq> None \<Longrightarrow> k' \<noteq> k \<Longrightarrow>
      slotOf (absState rd (SetState rd a k x s)) a k' = slotOf (absState rd s) a k'"
proof -
  obtain o1 s' where g: "GetOrNewStateObject rd a s = (o1, s')" by (cases "GetOrNewStateObject rd a s")
  note w = GetOrNew_world [OF g assms] and sp = GetOrNewStateObject_changes [OF g assms]
  let ?o = "snd (GetStateObj rd s' k o1)" and ?p = "fst (GetStateObj rd s' k o1)"
  have f: "fakeStorage o1 = None" "fakeStorage ?o = None" using objOkD [OF sp(6)] by (simp_all add: read_keeps)
  have d: "\<not> deleted ?o" "so_address ?o = a" "\<not> deleted (setStateObj k x ?o)"
    using sp(3,5) by (simp_all add: read_keeps setStateObj_def)
  have eq: "SetState rd a k x s = (if ?p = x then setStateObject ?o s'
      else setStateObject (setStateObj k x ?o) (record_change (storageChange (so_address ?o) k ?p) s'))"
    using g f(1) by (simp add: SetState_def split_beta)
  have lv: "liveView (absState rd (SetState rd a k x s)) b =
      (if b = a then Some ((viewObj rd s' o1)\<lparr>av_storage := (av_storage (viewObj rd s' o1))(k := x)\<rparr>)
       else liveView (absState rd s) b)" for b
  proof (cases "?p = x")
    case True
    then have "(viewObj rd s' o1)\<lparr>av_storage := (av_storage (viewObj rd s' o1))(k := x)\<rparr> = viewObj rd s' o1"
      by (auto simp: viewObj_def fun_eq_iff)
    with True show ?thesis using d w(1) by (simp add: eq liveView_setStateObject)
  next
    case False
    then show ?thesis using d w(1) f by (simp add: eq liveView_setStateObject viewObj_setStateObj)
  qed
  show "slotOf (absState rd (SetState rd a k x s)) a k = x"
    by (simp add: slotOf_def lv)
  show "b \<noteq> a \<Longrightarrow> slotOf (absState rd (SetState rd a k x s)) b k' = slotOf (absState rd s) b k'"
    by (simp add: slotOf_def lv)
  show "liveView (absState rd s) a \<noteq> None \<Longrightarrow> k' \<noteq> k \<Longrightarrow>
      slotOf (absState rd (SetState rd a k x s)) a k' = slotOf (absState rd s) a k'"
    using w(4) by (auto simp: slotOf_def lv simp del: viewObj_sels)
qed

end
