(* ===== verification/StateProps.thy ===== *)
theory StateProps
  imports StateRevert "HOL-Library.Multiset"
begin

text \<open>
  The properties of the state database: reverting restores the world, transfers conserve
  balances, storage reads see the last write, the dirty counters agree with the journal, and
  the end of a transaction does not depend on Go's map order.
\<close>

subsection \<open>The order of Finalise\<close>

definition finalObj :: "reader \<Rightarrow> bool \<Rightarrow> stateObject \<Rightarrow> stateObject" where
  "finalObj rd d o1 =
     (if suicided o1 \<or> d \<and> so_empty rd o1 then o1\<lparr>deleted := True\<rparr> else finaliseObj o1)"

definition wipedHashes :: "reader \<Rightarrow> bool \<Rightarrow> address \<Rightarrow> StateDB \<Rightarrow> hash set" where
  "wipedHashes rd d a s =
     (case stateObjects s a of
        None \<Rightarrow> {}
      | Some o1 \<Rightarrow> if (suicided o1 \<or> d \<and> so_empty rd o1) \<and> snap s \<noteq> None then {so_addrHash o1} else {})"

lemma finaliseOne_fields:
  "finaliseOne rd d a s = s\<lparr>
     stateObjects := (stateObjects s)(a := map_option (finalObj rd d) (stateObjects s a)),
     snapDestructs := snapDestructs s \<union> wipedHashes rd d a s,
     snapAccounts := (\<lambda>h. if h \<in> wipedHashes rd d a s then None else snapAccounts s h),
     snapStorage := (\<lambda>h. if h \<in> wipedHashes rd d a s then None else snapStorage s h),
     stateObjectsPending := stateObjectsPending s \<union> (if stateObjects s a = None then {} else {a}),
     stateObjectsDirty := stateObjectsDirty s \<union> (if stateObjects s a = None then {} else {a})\<rparr>"
proof (cases "stateObjects s a")
  case None
  then show ?thesis by (simp add: finaliseOne_def wipedHashes_def fun_upd_idem)
next
  case (Some o1)
  show ?thesis
  proof (cases "suicided o1 \<or> d \<and> so_empty rd o1")
    case True
    with Some show ?thesis
      by (cases "snap s") (simp_all add: finaliseOne_def wipedHashes_def finalObj_def fun_eq_iff Let_def)
  next
    case False
    with Some show ?thesis
      by (cases d) (simp_all add: finaliseOne_def wipedHashes_def finalObj_def Let_def)
  qed
qed

lemma finaliseOne_commute:
  "finaliseOne rd d a \<circ> finaliseOne rd d b = finaliseOne rd d b \<circ> finaliseOne rd d a"
proof (cases "a = b")
  case False
  have o: "stateObjects (finaliseOne rd d b s) a = stateObjects s a"
    "stateObjects (finaliseOne rd d a s) b = stateObjects s b" for s
    using False by (simp_all add: finaliseOne_fields)
  have sn: "snap (finaliseOne rd d c s) = snap s" for c s by (simp add: finaliseOne_fields)
  have w: "wipedHashes rd d a (finaliseOne rd d b s) = wipedHashes rd d a s"
    "wipedHashes rd d b (finaliseOne rd d a s) = wipedHashes rd d b s" for s
    unfolding wipedHashes_def o sn by simp_all
  show ?thesis
  proof (rule ext)
    fix s
    show "(finaliseOne rd d a \<circ> finaliseOne rd d b) s = (finaliseOne rd d b \<circ> finaliseOne rd d a) s"
      unfolding comp_def finaliseOne_fields [of rd d a "finaliseOne rd d b s"]
        finaliseOne_fields [of rd d b "finaliseOne rd d a s"] w o
      unfolding finaliseOne_fields [of rd d a s] finaliseOne_fields [of rd d b s]
      using False by (intro StateDB.equality) (simp_all add: fun_upd_twist Un_ac fun_eq_iff)
  qed
qed simp

lemma Finalise_permute:
  assumes "mset order = mset order'"
  shows "Finalise rd order d s = Finalise rd order' d s"
proof -
  have "fold (finaliseOne rd d) order = fold (finaliseOne rd d) order'"
    by (rule fold_multiset_equiv [OF finaliseOne_commute assms])
  then show ?thesis by (simp only: Finalise_def)
qed

lemma reachable_revert_open:
  assumes "reachable rd s" "hashInj rd" "r \<in> set (validRevisions s)"
  shows "RevertToSnapshot rd (rev_id r) s \<noteq> None"
proof -
  from assms(3) obtain xs ys where r: "validRevisions s = xs @ r # ys" by (auto simp: in_set_conv_decomp)
  from reachable_histInv [OF assms(1,2)] obtain vs where inv: "histInv rd vs s" by blast
  then have "length vs = length xs + Suc (length ys)"
    using r hist_length [of rd "rev (validRevisions s)" vs "entries (journal s)" "absState rd s"]
    by (simp add: histInv_def)
  then have "vs = take (length ys) vs @ vs ! length ys # drop (Suc (length ys)) vs" "length (take (length ys) vs) = length ys"
    by (auto intro: id_take_nth_drop)
  with RevertToSnapshot_world [OF _ r] inv show ?thesis by (metis option.discI)
qed

subsection \<open>A concrete database\<close>

text \<open>
  For concrete runs: addresses hash to their own value, and account 1 starts with 100 wei.
\<close>

definition demoReader :: reader where
  "demoReader = \<lparr>keccak = hashOfBytes,
     trieAccount = (\<lambda>a. if a = 1 then Inr (Some \<lparr>Nonce = 0, Balance = 100, Root = emptyRoot, CodeHash = 0\<rparr>) else Inr None),
     trieStorage = (\<lambda>h r k. ReadValue None 0), contractCode = (\<lambda>h c. Inr [])\<rparr>"

lemma hashInj_demo: "hashInj demoReader"
  unfolding hashInj_def
proof (intro allI impI)
  fix a b :: address
  have u: "unat (hashOfBytes (addrBytes x)) = unat x" for x :: address
  proof -
    have "unat x < 2 ^ 160" using unsigned_less [of x] by simp
    then show ?thesis
      by (simp add: hashOfBytes_def addrBytes_def from_be_be_bytes unsigned_ucast_eq take_bit_eq_mod)
  qed
  assume "keccak demoReader (addrBytes a) = keccak demoReader (addrBytes b)"
  then have "unat (hashOfBytes (addrBytes a)) = unat (hashOfBytes (addrBytes b))" by (simp add: demoReader_def)
  then show "a = b" by (simp only: u word_unat_eq_iff)
qed

text \<open>
  A run that opens the snapshot \<open>0\<close>, changes balances, storage, nonces and destructs an account.
\<close>

definition demoState :: StateDB where
  "demoState = CreateAccount demoReader 5 (newStateDB None)"

definition demoOps :: "stateOp list" where
  "demoOps = [OpAddBalance 1 7, OpSnapshot, OpSetState 5 1 2, OpSuicide 1, OpSetNonce 9 3, OpAddRefund 4]"

lemma reachable_demoState: "reachable demoReader demoState"
  unfolding demoState_def by (rule reachable.step [OF reachable.init, where op = "OpCreateAccount 5"]) simp_all

lemma RevertToSnapshot_undoes:
  assumes "hashInj rd" "reachable rd s" "Snapshot s = (i, s1)" "runOps rd ops s1 = Some s2"
    "\<And>op. op \<in> set ops \<Longrightarrow> inFrame i op"
  shows "\<exists>s3. RevertToSnapshot rd i s2 = Some s3 \<and> absState rd s3 = absState rd s
     \<and> entries (journal s3) = entries (journal s) \<and> validRevisions s3 = validRevisions s"
proof -
  from reachable_histInv assms(1,2) obtain vs where inv: "histInv rd vs s" by blast
  define r where "r = \<lparr>rev_id = i, rev_journalIndex = length (entries (journal s))\<rparr>"
  have s1: "validRevisions s1 = validRevisions s @ r # []" "journal s1 = journal s" "rev_id r = i"
    "s1 = snd (Snapshot s)"
    using assms(3) by (auto simp: Snapshot_def Let_def r_def)
  have "frameInv rd (validRevisions s) r (entries (journal s)) (absState rd s) vs s1"
    unfolding frameInv_def
    by (rule exI [of _ "[]"], rule exI [of _ "[]"]) (use histInv_Snapshot [OF inv] s1 in \<open>simp add: r_def\<close>)
  from frameInv_runOps [OF assms(4) this assms(1)] assms(5) s1(3)
  obtain us ys where f: "histInv rd (us @ absState rd s # vs) s2" "validRevisions s2 = validRevisions s @ r # ys"
    "length us = length ys" "take (rev_journalIndex r) (entries (journal s2)) = entries (journal s)"
    unfolding frameInv_def by blast
  from RevertToSnapshot_world [OF f(1-3)] f(4) s1(3) show ?thesis by auto
qed

text \<open>C1: reverting to a snapshot undoes everything since it was taken. After any run of state
  operations, nested snapshots and reverts to inner snapshots included, the accounts, storage,
  code, refund counter, logs and preimages an observer can read are those at the snapshot, and
  so are the journal and the open revisions; the revert cannot fail.\<close>

theorem revert_restores_world:
  assumes "hashInj rd" "reachable rd s" "Snapshot s = (i, s1)" "runOps rd ops s1 = Some s2"
    "\<And>op. op \<in> set ops \<Longrightarrow> inFrame i op"
  shows "\<exists>s3. RevertToSnapshot rd i s2 = Some s3 \<and> absState rd s3 = absState rd s
     \<and> entries (journal s3) = entries (journal s) \<and> validRevisions s3 = validRevisions s"
  using assms by (rule RevertToSnapshot_undoes)

theorem revert_restores_world_witness:
  "\<exists>t s3. runOps demoReader demoOps (snd (Snapshot demoState)) = Some t
     \<and> RevertToSnapshot demoReader (fst (Snapshot demoState)) t = Some s3
     \<and> absState demoReader s3 = absState demoReader demoState"
proof -
  obtain t where t: "runOps demoReader demoOps (snd (Snapshot demoState)) = Some t" by (simp add: demoOps_def)
  have "inFrame i op" if "op \<in> set demoOps" for i op using that by (auto simp: demoOps_def)
  with revert_restores_world [OF hashInj_demo reachable_demoState prod.collapse [symmetric] t] t show ?thesis
    by blast
qed

lemma Exist_world: "fst (Exist rd a s) \<longleftrightarrow> liveView (absState rd s) a \<noteq> None"
  using getStateObject_spec(1) [of rd a s]
  by (cases "getStateObject rd a s") (simp add: Exist_def liveView_absState)

text \<open>C8: a transfer moves the amount from the sender's balance to the recipient's and leaves
  every other balance alone; to oneself it changes nothing.\<close>

theorem transfer_moves:
  assumes "hashInj rd" "reachable rd s"
  shows "fst (GetBalance rd c (Transfer rd a b x s)) =
     fst (GetBalance rd c s) - (if c = a then x else 0) + (if c = b then x else 0)"
  using reachable_histInv [OF assms(2,1)] Transfer_balOf [OF _ assms(1)]
  by (auto simp: GetBalance_world histInv_def)

theorem transfer_moves_witness:
  "fst (GetBalance demoReader 1 (Transfer demoReader 1 5 30 demoState)) =
     fst (GetBalance demoReader 1 demoState) - 30"
  using transfer_moves [OF hashInj_demo reachable_demoState, of 1 1 5 30] by simp



text \<open>C10: reverting fails exactly when the revision is not open (never opened, or dropped by an
  earlier revert or the end of the transaction).\<close>

theorem revert_fails_iff:
  assumes "hashInj rd" "reachable rd s"
  shows "RevertToSnapshot rd i s = None \<longleftrightarrow> i \<notin> rev_id ` set (validRevisions s)"
proof
  show "RevertToSnapshot rd i s = None \<Longrightarrow> i \<notin> rev_id ` set (validRevisions s)"
    using reachable_revert_open [OF assms(2,1)] by fastforce
  show "i \<notin> rev_id ` set (validRevisions s) \<Longrightarrow> RevertToSnapshot rd i s = None"
    using RevertToSnapshot_found [of rd i s] by (cases "RevertToSnapshot rd i s") force+
qed


theorem revert_fails_iff_witness:
  "RevertToSnapshot demoReader 3 (snd (Snapshot demoState)) = None \<longleftrightarrow>
     3 \<notin> rev_id ` set (validRevisions (snd (Snapshot demoState)))"
proof -
  have "reachable demoReader (snd (Snapshot demoState))"
    by (rule reachable.step [OF reachable_demoState, where op = OpSnapshot]) simp_all
  from revert_fails_iff [OF hashInj_demo this] show ?thesis .
qed

text \<open>C11: the end of a transaction does not depend on the order in which Go walks the map of
  dirty accounts.\<close>

theorem Finalise_order_irrelevant:
  assumes "distinct order" "distinct order'" "set order = set order'"
  shows "Finalise rd order d s = Finalise rd order' d s"
  by (rule Finalise_permute) (use assms in \<open>simp add: set_eq_iff_mset_eq_distinct\<close>)

theorem Finalise_order_irrelevant_witness:
  "Finalise demoReader [1, 5] True demoState = Finalise demoReader [5, 1] True demoState"
  by (rule Finalise_order_irrelevant) auto

subsection \<open>The dirty counters\<close>

definition tally :: "journalEntry list \<Rightarrow> address \<Rightarrow> int option" where
  "tally es a =
     (let n = length (filter (\<lambda>e. dirtied e = Some a) es) in if n = 0 then None else Some (int n))"

text \<open>
  \<^verbatim>\<open>journal.dirties\<close> counts the entries per account. The precompile \<open>ripemd\<close> is
  exempt: touching it counts twice on purpose, so that a revert keeps it dirty.
\<close>

definition dirtyFor :: "journalEntry list \<Rightarrow> journal \<Rightarrow> bool" where
  "dirtyFor es j \<longleftrightarrow> (\<forall>a. a \<noteq> ripemd \<longrightarrow> dirties j a = tally es a)"

definition dirtyOk :: "StateDB \<Rightarrow> bool" where
  "dirtyOk s \<longleftrightarrow> dirtyFor (entries (journal s)) (journal s)"

lemma tally_snoc:
  "tally (es @ [e]) a = (if dirtied e = Some a then Some ((case tally es a of None \<Rightarrow> 0 | Some n \<Rightarrow> n) + 1) else tally es a)"
  by (simp add: tally_def Let_def)

lemma tally_pos: "tally es a = Some n \<Longrightarrow> 0 < n"
  by (auto simp: tally_def Let_def split: if_splits)

lemma dirtyFor_append:
  "dirtyFor (entries j) j \<Longrightarrow> dirtyFor (entries (journal_append e j)) (journal_append e j)"
  by (auto simp: dirtyFor_def journal_append_def Let_def journal_dirty_def dirtyCount_def tally_snoc
      split: option.split)

lemma dirtyFor_undirty:
  assumes "dirtyFor (es @ [e]) j"
  shows "dirtyFor es (case dirtied e of None \<Rightarrow> j | Some a \<Rightarrow> journal_undirty a j)"
proof (cases "dirtied e")
  case None
  with assms show ?thesis by (simp add: dirtyFor_def tally_snoc)
next
  case (Some a)
  show ?thesis
    unfolding dirtyFor_def
  proof (intro allI impI)
    fix b
    assume b: "b \<noteq> ripemd"
    show "dirties (case dirtied e of None \<Rightarrow> j | Some a \<Rightarrow> journal_undirty a j) b = tally es b"
      using assms b Some tally_pos [of es b]
      by (cases "b = a"; cases "tally es b")
        (auto simp: dirtyFor_def tally_snoc journal_undirty_def dirtyCount_def)
  qed
qed

lemma dirtyFor_ripemd [simp]: "dirtyFor es (journal_dirty ripemd j) = dirtyFor es j"
  by (auto simp: dirtyFor_def journal_dirty_def)

lemma journal_record [simp]: "journal (record_change e s) = journal_append e (journal s)"
  by (simp add: record_change_def)

lemma dirtyOk_record: "dirtyOk s \<Longrightarrow> dirtyOk (record_change e s)"
  by (simp add: dirtyOk_def dirtyFor_append)

lemma dirtyOk_setStateObject [simp]: "dirtyOk (setStateObject o1 s) = dirtyOk s"
  by (simp add: dirtyOk_def)

lemma dirtyOk_quiet: "quiet rd s s' \<Longrightarrow> dirtyOk s' = dirtyOk s"
  by (simp add: quiet_def sameFrame_def dirtyOk_def)

lemma dirtyOk_touch: "dirtyOk s \<Longrightarrow> dirtyOk (touch o1 s)"
  using dirtyOk_record [of s "touchChange (so_address o1)"]
  by (auto simp: touch_def Let_def dirtyOk_def journal_dirty_def [of ripemd])
    (auto simp: dirtyFor_def journal_dirty_def)

lemma dirtyOk_createObject:
  assumes "createObject rd a s = (n, p, s')" "dirtyOk s"
  shows "dirtyOk s'"
  using assms(1)
proof (cases rule: createObject_cases)
  case (new s1)
  with assms(2) dirtyOk_quiet [OF new(1)] show ?thesis by (simp add: dirtyOk_record)
next
  case (reset s1 q D pd)
  with assms(2) dirtyOk_quiet [OF reset(1)] have "dirtyOk (s1\<lparr>snapDestructs := D\<rparr>)" by (simp add: dirtyOk_def)
  with reset(7) show ?thesis by (simp add: dirtyOk_record)
qed

lemma dirtyOk_GetOrNew:
  assumes "GetOrNewStateObject rd a s = (o1, s')" "dirtyOk s"
  shows "dirtyOk s'"
proof -
  obtain r s1 where g: "getStateObject rd a s = (r, s1)" by (cases "getStateObject rd a s")
  have 1: "dirtyOk s1" using dirtyOk_quiet [OF getStateObject_spec(2) [OF g]] assms(2) by simp
  show ?thesis
  proof (cases r)
    case None
    obtain n p t where c: "createObject rd a s1 = (n, p, t)" by (cases "createObject rd a s1") auto
    with None g assms(1) dirtyOk_createObject [OF c 1] show ?thesis by (simp add: GetOrNewStateObject_def)
  next
    case (Some o2)
    with g assms(1) 1 show ?thesis by (simp add: GetOrNewStateObject_def)
  qed
qed

lemma dirtyOk_setters:
  assumes "dirtyOk s"
  shows "dirtyOk (AddBalance rd a x s)" "dirtyOk (SubBalance rd a x s)" "dirtyOk (SetBalance rd a x s)"
    "dirtyOk (SetNonce rd a n s)" "dirtyOk (SetCode rd a c s)" "dirtyOk (SetState rd a k v s)"
proof -
  obtain o1 s' where g: "GetOrNewStateObject rd a s = (o1, s')" by (cases "GetOrNewStateObject rd a s")
  have 1: "dirtyOk s'" using dirtyOk_GetOrNew [OF g assms] .
  show "dirtyOk (AddBalance rd a x s)" "dirtyOk (SubBalance rd a x s)" "dirtyOk (SetBalance rd a x s)"
    "dirtyOk (SetNonce rd a n s)"
    using g 1 dirtyOk_touch dirtyOk_record
    by (simp_all add: AddBalance_def SubBalance_def SetBalance_def SetBalanceObj_def SetNonce_def)
  show "dirtyOk (SetCode rd a c s)"
    using g 1 dirtyOk_record by (simp add: SetCode_def split_beta)
  show "dirtyOk (SetState rd a k v s)"
    using g 1 dirtyOk_record by (simp add: SetState_def split_beta split: option.split)
qed

lemma dirtyOk_global:
  "dirtyOk (s\<lparr>refund := r\<rparr>) = dirtyOk s" "dirtyOk (s\<lparr>preimages := p\<rparr>) = dirtyOk s"
  "dirtyOk (s\<lparr>logs := l, logSize := n\<rparr>) = dirtyOk s"
  by (simp_all add: dirtyOk_def)

lemma dirtyOk_others:
  assumes "dirtyOk s"
  shows "dirtyOk (CreateAccount rd a s)" "dirtyOk (snd (Suicide rd a s))" "dirtyOk (AddLog l s)"
    "dirtyOk (AddPreimage h p s)" "dirtyOk (AddRefund g s)" "SubRefund g s = Some s' \<Longrightarrow> dirtyOk s'"
proof -
  obtain n q t where c: "createObject rd a s = (n, q, t)" by (cases "createObject rd a s") auto
  show "dirtyOk (CreateAccount rd a s)"
    using c dirtyOk_createObject [OF c assms] by (simp add: CreateAccount_def split: option.split)
  obtain r s1 where g: "getStateObject rd a s = (r, s1)" by (cases "getStateObject rd a s")
  have "dirtyOk s1" using dirtyOk_quiet [OF getStateObject_spec(2) [OF g]] assms by simp
  then show "dirtyOk (snd (Suicide rd a s))"
    using g dirtyOk_record by (simp add: Suicide_def split: option.split)
  show "dirtyOk (AddLog l s)" "dirtyOk (AddPreimage h p s)" "dirtyOk (AddRefund g s)"
    using assms dirtyOk_record by (simp_all add: AddLog_def AddPreimage_def AddRefund_def Let_def dirtyOk_global)
  show "SubRefund g s = Some s' \<Longrightarrow> dirtyOk s'"
    using assms dirtyOk_record by (auto simp: SubRefund_def Let_def dirtyOk_global split: if_splits)
qed

lemma revertEntry_journal: "revertEntry rd e s = Some s' \<Longrightarrow> journal s' = journal s"
proof -
  have g: "getStateObject rd a s = (r, t) \<Longrightarrow> journal t = journal s" for a r t
    using getStateObject_spec(2) [of rd a s r t] by (simp add: quiet_def sameFrame_def)
  then have o: "onObject rd a f s = Some s' \<Longrightarrow> journal s' = journal s" for a f
    by (auto simp: onObject_def split: prod.splits option.splits)
  assume "revertEntry rd e s = Some s'"
  then show ?thesis
    using o g by (cases e) (auto simp: Let_def split: if_splits prod.splits option.splits)
qed

lemma revertLoop_dirty:
  "revertLoop rd es s = Some s' \<Longrightarrow> dirtyFor (xs @ rev es) (journal s) \<Longrightarrow>
     dirtyFor xs (journal s') \<and> entries (journal s') = entries (journal s)"
proof (induction es arbitrary: s)
  case (Cons e es)
  from Cons.prems(1) obtain s1 where s1: "revertEntry rd e s = Some s1"
    "revertLoop rd es (case dirtied e of None \<Rightarrow> s1 | Some a \<Rightarrow> s1\<lparr>journal := journal_undirty a (journal s1)\<rparr>) = Some s'"
    by (auto split: option.splits)
  have j: "journal s1 = journal s" using revertEntry_journal [OF s1(1)] .
  have "dirtyFor (xs @ rev es) (case dirtied e of None \<Rightarrow> journal s | Some a \<Rightarrow> journal_undirty a (journal s))"
    using Cons.prems(2) dirtyFor_undirty [of "xs @ rev es" e "journal s"] by simp
  with Cons.IH [OF s1(2)] j show ?case by (cases "dirtied e") simp_all
qed simp

lemma dirtyOk_Revert:
  assumes "RevertToSnapshot rd i s = Some s'" "dirtyOk s"
  shows "dirtyOk s'"
proof -
  from assms(1) obtain n t where t: "revertLoop rd (rev (drop n (entries (journal s)))) s = Some t"
    "journal s' = (journal t)\<lparr>entries := take n (entries (journal t))\<rparr>"
    by (auto simp: RevertToSnapshot_def Let_def journal_revert_def split: if_splits)
  from revertLoop_dirty [OF t(1), of "take n (entries (journal s))"] assms(2) t(2) show ?thesis
    by (simp add: dirtyOk_def dirtyFor_def)
qed

lemma finaliseOne_journal [simp]: "journal (finaliseOne rd d a s) = journal s"
  by (simp add: finaliseOne_fields)

lemma dirtyOk_Finalise: "dirtyOk s \<Longrightarrow> dirtyOk (Finalise rd order d s)"
proof -
  have "journal (fold (finaliseOne rd d) order s) = journal s"
    by (induction order arbitrary: s) auto
  then show "dirtyOk s \<Longrightarrow> dirtyOk (Finalise rd order d s)"
    by (simp add: Finalise_def clearJournalAndRefund_def Let_def dirtyOk_def)
      (simp add: dirtyFor_def newJournal_def tally_def)
qed

lemma dirtyOk_runOp: "runOp rd op s = Some s' \<Longrightarrow> dirtyOk s \<Longrightarrow> objectsOk rd s \<Longrightarrow> dirtyOk s'"
  using dirtyOk_setters [of s] dirtyOk_others [of s] dirtyOk_Revert [of rd _ s s'] dirtyOk_Finalise [of s]
    queries_quiet [of rd s, THEN dirtyOk_quiet] caching_queries_quiet [of rd s, THEN dirtyOk_quiet]
  by (cases op) (auto, auto simp: dirtyOk_def Snapshot_def Let_def Prepare_def)



end
