(* ===== verification/Params.thy ===== *)
theory Params
  imports Prelude
begin

text \<open>
  The protocol constants of \<^verbatim>\<open>params/protocol_params.go\<close> and \<^verbatim>\<open>core/vm/gas.go\<close> that the
  machine and the state transition use. The collection \<open>params\<close> unfolds them.
\<close>

named_theorems params \<open>protocol constants\<close>

definition CallValueTransferGas :: u64 where
  [params]: "CallValueTransferGas = 9000"

definition CallNewAccountGas :: u64 where
  [params]: "CallNewAccountGas = 25000"

definition QuadCoeffDiv :: u64 where
  [params]: "QuadCoeffDiv = 512"

definition LogDataGas :: u64 where
  [params]: "LogDataGas = 8"

definition CallStipend :: u64 where
  [params]: "CallStipend = 2300"

definition Sha3Gas :: u64 where
  [params]: "Sha3Gas = 30"

definition Sha3WordGas :: u64 where
  [params]: "Sha3WordGas = 6"

definition SstoreSetGas :: u64 where
  [params]: "SstoreSetGas = 20000"

definition SstoreResetGas :: u64 where
  [params]: "SstoreResetGas = 5000"

definition SstoreClearGas :: u64 where
  [params]: "SstoreClearGas = 5000"

definition SstoreRefundGas :: u64 where
  [params]: "SstoreRefundGas = 15000"

definition NetSstoreNoopGas :: u64 where
  [params]: "NetSstoreNoopGas = 200"

definition NetSstoreInitGas :: u64 where
  [params]: "NetSstoreInitGas = 20000"

definition NetSstoreCleanGas :: u64 where
  [params]: "NetSstoreCleanGas = 5000"

definition NetSstoreDirtyGas :: u64 where
  [params]: "NetSstoreDirtyGas = 200"

definition NetSstoreClearRefund :: u64 where
  [params]: "NetSstoreClearRefund = 15000"

definition NetSstoreResetRefund :: u64 where
  [params]: "NetSstoreResetRefund = 4800"

definition NetSstoreResetClearRefund :: u64 where
  [params]: "NetSstoreResetClearRefund = 19800"

definition SstoreSentryGasEIP2200 :: u64 where
  [params]: "SstoreSentryGasEIP2200 = 2300"

definition SstoreSetGasEIP2200 :: u64 where
  [params]: "SstoreSetGasEIP2200 = 20000"

definition SstoreResetGasEIP2200 :: u64 where
  [params]: "SstoreResetGasEIP2200 = 5000"

definition SstoreClearsScheduleRefundEIP2200 :: u64 where
  [params]: "SstoreClearsScheduleRefundEIP2200 = 15000"

definition JumpdestGas :: u64 where
  [params]: "JumpdestGas = 1"

definition CreateDataGas :: u64 where
  [params]: "CreateDataGas = 200"

definition CallCreateDepth :: u64 where
  [params]: "CallCreateDepth = 1024"

definition ExpGas :: u64 where
  [params]: "ExpGas = 10"

definition LogGas :: u64 where
  [params]: "LogGas = 375"

definition CopyGas :: u64 where
  [params]: "CopyGas = 3"

definition StackLimit :: u64 where
  [params]: "StackLimit = 1024"

definition LogTopicGas :: u64 where
  [params]: "LogTopicGas = 375"

definition CreateGas :: u64 where
  [params]: "CreateGas = 32000"

definition Create2Gas :: u64 where
  [params]: "Create2Gas = 32000"

definition SelfdestructRefundGas :: u64 where
  [params]: "SelfdestructRefundGas = 24000"

definition MemoryGas :: u64 where
  [params]: "MemoryGas = 3"

definition CallGasFrontier :: u64 where
  [params]: "CallGasFrontier = 40"

definition CallGasEIP150 :: u64 where
  [params]: "CallGasEIP150 = 700"

definition BalanceGasFrontier :: u64 where
  [params]: "BalanceGasFrontier = 20"

definition BalanceGasEIP150 :: u64 where
  [params]: "BalanceGasEIP150 = 400"

definition BalanceGasEIP1884 :: u64 where
  [params]: "BalanceGasEIP1884 = 700"

definition ExtcodeSizeGasFrontier :: u64 where
  [params]: "ExtcodeSizeGasFrontier = 20"

definition ExtcodeSizeGasEIP150 :: u64 where
  [params]: "ExtcodeSizeGasEIP150 = 700"

definition SloadGasFrontier :: u64 where
  [params]: "SloadGasFrontier = 50"

definition SloadGasEIP150 :: u64 where
  [params]: "SloadGasEIP150 = 200"

definition SloadGasEIP1884 :: u64 where
  [params]: "SloadGasEIP1884 = 800"

definition SloadGasEIP2200 :: u64 where
  [params]: "SloadGasEIP2200 = 800"

definition ExtcodeHashGasConstantinople :: u64 where
  [params]: "ExtcodeHashGasConstantinople = 400"

definition ExtcodeHashGasEIP1884 :: u64 where
  [params]: "ExtcodeHashGasEIP1884 = 700"

definition SelfdestructGasEIP150 :: u64 where
  [params]: "SelfdestructGasEIP150 = 5000"

definition ExpByteFrontier :: u64 where
  [params]: "ExpByteFrontier = 10"

definition ExpByteEIP158 :: u64 where
  [params]: "ExpByteEIP158 = 50"

definition ExtcodeCopyBaseFrontier :: u64 where
  [params]: "ExtcodeCopyBaseFrontier = 20"

definition ExtcodeCopyBaseEIP150 :: u64 where
  [params]: "ExtcodeCopyBaseEIP150 = 700"

definition CreateBySelfdestructGas :: u64 where
  [params]: "CreateBySelfdestructGas = 25000"

definition TxGas :: u64 where
  [params]: "TxGas = 21000"

definition TxGasContractCreation :: u64 where
  [params]: "TxGasContractCreation = 53000"

definition TxDataZeroGas :: u64 where
  [params]: "TxDataZeroGas = 4"

definition TxDataNonZeroGasFrontier :: u64 where
  [params]: "TxDataNonZeroGasFrontier = 68"

definition TxDataNonZeroGasEIP2028 :: u64 where
  [params]: "TxDataNonZeroGasEIP2028 = 16"

definition MaxCodeSize :: nat where
  [params]: "MaxCodeSize = 24576"

definition GasQuickStep :: u64 where
  [params]: "GasQuickStep = 2"

definition GasFastestStep :: u64 where
  [params]: "GasFastestStep = 3"

definition GasFastStep :: u64 where
  [params]: "GasFastStep = 5"

definition GasMidStep :: u64 where
  [params]: "GasMidStep = 8"

definition GasSlowStep :: u64 where
  [params]: "GasSlowStep = 10"

definition GasExtStep :: u64 where
  [params]: "GasExtStep = 20"

definition EcrecoverGas :: u64 where
  [params]: "EcrecoverGas = 3000"

definition Sha256BaseGas :: u64 where
  [params]: "Sha256BaseGas = 60"

definition Sha256PerWordGas :: u64 where
  [params]: "Sha256PerWordGas = 12"

definition Ripemd160BaseGas :: u64 where
  [params]: "Ripemd160BaseGas = 600"

definition Ripemd160PerWordGas :: u64 where
  [params]: "Ripemd160PerWordGas = 120"

definition IdentityBaseGas :: u64 where
  [params]: "IdentityBaseGas = 15"

definition IdentityPerWordGas :: u64 where
  [params]: "IdentityPerWordGas = 3"

definition Bn256AddGasByzantium :: u64 where
  [params]: "Bn256AddGasByzantium = 500"

definition Bn256AddGasIstanbul :: u64 where
  [params]: "Bn256AddGasIstanbul = 150"

definition Bn256ScalarMulGasByzantium :: u64 where
  [params]: "Bn256ScalarMulGasByzantium = 40000"

definition Bn256ScalarMulGasIstanbul :: u64 where
  [params]: "Bn256ScalarMulGasIstanbul = 6000"

definition Bn256PairingBaseGasByzantium :: u64 where
  [params]: "Bn256PairingBaseGasByzantium = 100000"

definition Bn256PairingBaseGasIstanbul :: u64 where
  [params]: "Bn256PairingBaseGasIstanbul = 45000"

definition Bn256PairingPerPointGasByzantium :: u64 where
  [params]: "Bn256PairingPerPointGasByzantium = 80000"

definition Bn256PairingPerPointGasIstanbul :: u64 where
  [params]: "Bn256PairingPerPointGasIstanbul = 34000"

definition Bls12381G1AddGas :: u64 where
  [params]: "Bls12381G1AddGas = 600"

definition Bls12381G1MulGas :: u64 where
  [params]: "Bls12381G1MulGas = 12000"

definition Bls12381G2AddGas :: u64 where
  [params]: "Bls12381G2AddGas = 4500"

definition Bls12381G2MulGas :: u64 where
  [params]: "Bls12381G2MulGas = 55000"

definition Bls12381PairingBaseGas :: u64 where
  [params]: "Bls12381PairingBaseGas = 115000"

definition Bls12381PairingPerPairGas :: u64 where
  [params]: "Bls12381PairingPerPairGas = 23000"

definition Bls12381MapG1Gas :: u64 where
  [params]: "Bls12381MapG1Gas = 5500"

definition Bls12381MapG2Gas :: u64 where
  [params]: "Bls12381MapG2Gas = 110000"

definition ModExpQuadCoeffDiv :: u64 where
  [params]: "ModExpQuadCoeffDiv = 20"

definition Bls12381MultiExpDiscountTable :: "u64 list" where
  "Bls12381MultiExpDiscountTable =
    [1200, 888, 764, 641, 594, 547, 500, 453, 438, 423, 408, 394, 379, 364, 349, 334, 330, 326,
    322, 318, 314, 310, 306, 302, 298, 294, 289, 285, 281, 277, 273, 269, 268, 266, 265, 263, 262,
    260, 259, 257, 256, 254, 253, 251, 250, 248, 247, 245, 244, 242, 241, 239, 238, 236, 235, 233,
    232, 231, 229, 228, 226, 225, 223, 222, 221, 220, 219, 219, 218, 217, 216, 216, 215, 214, 213,
    213, 212, 211, 211, 210, 209, 208, 208, 207, 206, 205, 205, 204, 203, 202, 202, 201, 200, 199,
    199, 198, 197, 196, 196, 195, 194, 193, 193, 192, 191, 191, 190, 189, 188, 188, 187, 186, 185,
    185, 184, 183, 182, 182, 181, 180, 179, 179, 178, 177, 176, 176, 175, 174]"

end
