(* ===== verification/EvmBase.thy ===== *)
theory EvmBase
  imports Params StateDB
begin

text \<open>
  The parts of \<^verbatim>\<open>core/vm\<close> that do not run code: words, errors, the operand stack
  (\<^verbatim>\<open>stack.go\<close>), memory (\<^verbatim>\<open>memory.go\<close>), overflow-checked arithmetic (\<^verbatim>\<open>common/math\<close>), and
  the memory size computations (\<^verbatim>\<open>common.go\<close>, \<^verbatim>\<open>memory_table.go\<close>).

  A 256-bit word of the external \<^verbatim>\<open>uint256\<close> package is a \<open>256 word\<close>, and its accessors
  (\<^verbatim>\<open>Uint64\<close>, \<^verbatim>\<open>IsUint64\<close>, \<^verbatim>\<open>Bytes20\<close>, \<^verbatim>\<open>SetBytes\<close>, ...) read that word. The arithmetic of
  the package is the record \<open>uint256lib\<close>, an argument of the machine.

  Go run-time panics (an index out of range, a failed type assertion, an explicit
  \<^verbatim>\<open>panic\<close>) are values of the type \<open>panic\<close> on the left of a sum; \<open>StackPanic\<close> is an index out of range
  of the operand stack.
\<close>

subsection \<open>Errors and panics\<close>

datatype panic = IndexPanic | StackPanic | AnalysisPanic | NilPanic | RefundPanic | RevisionPanic | TypePanic | GasPoolPanic

datatype vmError =
    ErrInvalidSubroutineEntry
  | ErrOutOfGas
  | ErrCodeStoreOutOfGas
  | ErrDepth
  | ErrInsufficientBalance
  | ErrContractAddressCollision
  | ErrExecutionReverted
  | ErrMaxCodeSizeExceeded
  | ErrInvalidJump
  | ErrWriteProtection
  | ErrReturnDataOutOfBounds
  | ErrGasUintOverflow
  | ErrInvalidRetsub
  | ErrReturnStackExceeded
  | ErrStackUnderflow nat nat
  | ErrStackOverflow nat nat
  | ErrInvalidOpCode byte
  | ErrReentrancySentry
  | ErrPrecompile string

subsection \<open>256-bit words\<close>

definition Uint64 :: "u256 \<Rightarrow> u64" where
  "Uint64 x = ucast x"

definition IsUint64 :: "u256 \<Rightarrow> bool" where
  "IsUint64 x \<longleftrightarrow> unat x < 2 ^ 64"

definition Uint64WithOverflow :: "u256 \<Rightarrow> u64 \<times> bool" where
  "Uint64WithOverflow x = (Uint64 x, \<not> IsUint64 x)"

definition Bytes20 :: "u256 \<Rightarrow> address" where
  "Bytes20 x = ucast x"

definition SetBytes :: "bytes \<Rightarrow> u256" where
  "SetBytes b = of_nat (from_be b)"

definition Sign :: "u256 \<Rightarrow> int" where
  "Sign x = sgn (sint x)"

function bitLen :: "nat \<Rightarrow> nat" where
  "bitLen n = (if n = 0 then 0 else Suc (bitLen (n div 2)))"
  by auto
termination by (relation "measure id") auto

declare bitLen.simps [simp del]

definition BitLen :: "u256 \<Rightarrow> nat" where
  "BitLen x = bitLen (unat x)"

text \<open>The arithmetic of the \<^verbatim>\<open>uint256\<close> package.\<close>

record uint256lib =
  U_Add :: "u256 \<Rightarrow> u256 \<Rightarrow> u256"
  U_Sub :: "u256 \<Rightarrow> u256 \<Rightarrow> u256"
  U_Mul :: "u256 \<Rightarrow> u256 \<Rightarrow> u256"
  U_Div :: "u256 \<Rightarrow> u256 \<Rightarrow> u256"
  U_SDiv :: "u256 \<Rightarrow> u256 \<Rightarrow> u256"
  U_Mod :: "u256 \<Rightarrow> u256 \<Rightarrow> u256"
  U_SMod :: "u256 \<Rightarrow> u256 \<Rightarrow> u256"
  U_Exp :: "u256 \<Rightarrow> u256 \<Rightarrow> u256"
  U_ExtendSign :: "u256 \<Rightarrow> u256 \<Rightarrow> u256"
  U_Not :: "u256 \<Rightarrow> u256"
  U_And :: "u256 \<Rightarrow> u256 \<Rightarrow> u256"
  U_Or :: "u256 \<Rightarrow> u256 \<Rightarrow> u256"
  U_Xor :: "u256 \<Rightarrow> u256 \<Rightarrow> u256"
  U_Byte :: "u256 \<Rightarrow> u256 \<Rightarrow> u256"
  U_AddMod :: "u256 \<Rightarrow> u256 \<Rightarrow> u256 \<Rightarrow> u256"
  U_MulMod :: "u256 \<Rightarrow> u256 \<Rightarrow> u256 \<Rightarrow> u256"
  U_Lsh :: "u256 \<Rightarrow> nat \<Rightarrow> u256"
  U_Rsh :: "u256 \<Rightarrow> nat \<Rightarrow> u256"
  U_SRsh :: "u256 \<Rightarrow> nat \<Rightarrow> u256"
  U_Lt :: "u256 \<Rightarrow> u256 \<Rightarrow> bool"
  U_Gt :: "u256 \<Rightarrow> u256 \<Rightarrow> bool"
  U_Slt :: "u256 \<Rightarrow> u256 \<Rightarrow> bool"
  U_Sgt :: "u256 \<Rightarrow> u256 \<Rightarrow> bool"
  U_Eq :: "u256 \<Rightarrow> u256 \<Rightarrow> bool"

subsection \<open>Overflow-checked arithmetic\<close>

definition SafeAdd :: "u64 \<Rightarrow> u64 \<Rightarrow> u64 \<times> bool" where
  "SafeAdd x y = (x + y, 2 ^ 64 \<le> unat x + unat y)"

definition SafeSub :: "u64 \<Rightarrow> u64 \<Rightarrow> u64 \<times> bool" where
  "SafeSub x y = (x - y, x < y)"

definition SafeMul :: "u64 \<Rightarrow> u64 \<Rightarrow> u64 \<times> bool" where
  "SafeMul x y = (x * y, 2 ^ 64 \<le> unat x * unat y)"

text \<open>The pattern \<^verbatim>\<open>if x, overflow = ...; overflow { return ErrGasUintOverflow }\<close>.\<close>

definition checked :: "u64 \<times> bool \<Rightarrow> vmError + u64" where
  "checked r = (if snd r then Inl ErrGasUintOverflow else Inr (fst r))"

subsection \<open>The stack\<close>

text \<open>The operand stack as a list, its top first.\<close>

type_synonym stack = "u256 list"

definition Back :: "nat \<Rightarrow> stack \<Rightarrow> panic + u256" where
  "Back n st = (if n < length st then Inr (st ! n) else Inl StackPanic)"

definition stack_swap :: "nat \<Rightarrow> stack \<Rightarrow> panic + stack" where
  "stack_swap n st =
     (if 0 < n \<and> n \<le> length st then Inr (st[n - 1 := st ! 0, 0 := st ! (n - 1)]) else Inl StackPanic)"

definition stack_dup :: "nat \<Rightarrow> stack \<Rightarrow> panic + stack" where
  "stack_dup n st = (if 0 < n \<and> n \<le> length st then Inr (st ! (n - 1) # st) else Inl StackPanic)"

definition minStack :: "nat \<Rightarrow> nat \<Rightarrow> nat" where
  "minStack pops push = pops"

definition maxStack :: "nat \<Rightarrow> nat \<Rightarrow> nat" where
  "maxStack pop push = unat StackLimit + pop - push"

definition minSwapStack :: "nat \<Rightarrow> nat" where
  "minSwapStack n = minStack n n"

definition maxSwapStack :: "nat \<Rightarrow> nat" where
  "maxSwapStack n = maxStack n n"

definition minDupStack :: "nat \<Rightarrow> nat" where
  "minDupStack n = minStack n (n + 1)"

definition maxDupStack :: "nat \<Rightarrow> nat" where
  "maxDupStack n = maxStack n (n + 1)"

subsection \<open>Memory\<close>

record Memory =
  store :: bytes
  lastGasCost :: u64

definition NewMemory :: Memory where
  "NewMemory = \<lparr>store = [], lastGasCost = 0\<rparr>"

text \<open>Go's \<^verbatim>\<open>copy(dst[i:j], src)\<close> on the list of all bytes of \<open>dst\<close>.\<close>

definition copyInto :: "bytes \<Rightarrow> nat \<Rightarrow> nat \<Rightarrow> bytes \<Rightarrow> bytes" where
  "copyInto dst i n src =
     (let k = min n (length src) in take i dst @ take k src @ drop (i + k) dst)"

definition Memory_Set :: "u64 \<Rightarrow> u64 \<Rightarrow> bytes \<Rightarrow> Memory \<Rightarrow> panic + Memory" where
  "Memory_Set offset sz value m =
     (if sz > 0
      then if unat (offset + sz) > length (store m) \<or> offset + sz < offset then Inl IndexPanic
           else Inr (m\<lparr>store := copyInto (store m) (unat offset) (unat sz) value\<rparr>)
      else Inr m)"

definition Memory_Set32 :: "u64 \<Rightarrow> u256 \<Rightarrow> Memory \<Rightarrow> panic + Memory" where
  "Memory_Set32 offset val m =
     (if unat (offset + 32) > length (store m) \<or> offset + 32 < offset then Inl IndexPanic
      else Inr (m\<lparr>store := copyInto (store m) (unat offset) 32 (be_bytes 32 (unat val))\<rparr>))"

definition Resize :: "u64 \<Rightarrow> Memory \<Rightarrow> Memory" where
  "Resize sz m =
     (if length (store m) < unat sz
      then m\<lparr>store := store m @ replicate (unat sz - length (store m)) 0\<rparr> else m)"

text \<open>
  \<^verbatim>\<open>GetCopy\<close> and \<^verbatim>\<open>GetPtr\<close> take signed 64-bit positions. A slice that ends after the last
  byte counts as a panic here; Go would still allow it up to the capacity of the buffer.
\<close>

definition sliceMem :: "u64 \<Rightarrow> u64 \<Rightarrow> Memory \<Rightarrow> panic + bytes" where
  "sliceMem offset sz m =
     (if 0 \<le> sint offset \<and> sint offset \<le> sint (offset + sz) \<and> sint (offset + sz) \<le> int (length (store m))
      then Inr (take (nat (sint (offset + sz) - sint offset)) (drop (nat (sint offset)) (store m)))
      else Inl IndexPanic)"

definition GetPtr :: "u64 \<Rightarrow> u64 \<Rightarrow> Memory \<Rightarrow> panic + bytes" where
  "GetPtr offset sz m =
     (if sz = 0 then Inr []
      else if int (length (store m)) > sint offset then sliceMem offset sz m
      else Inr [])"

definition GetCopy :: "u64 \<Rightarrow> u64 \<Rightarrow> Memory \<Rightarrow> panic + bytes" where
  "GetCopy offset sz m =
     (if sz = 0 then Inr []
      else if int (length (store m)) > sint offset
      then (if sint sz < 0 then Inl IndexPanic else sliceMem offset sz m)
      else Inr [])"

subsection \<open>Memory sizes\<close>

definition calcMemSize64WithUint :: "u256 \<Rightarrow> u64 \<Rightarrow> u64 \<times> bool" where
  "calcMemSize64WithUint off length64 =
     (if length64 = 0 then (0, False)
      else let (offset64, overflow) = Uint64WithOverflow off
           in if overflow then (0, True)
              else let val = offset64 + length64 in (val, val < offset64))"

definition calcMemSize64 :: "u256 \<Rightarrow> u256 \<Rightarrow> u64 \<times> bool" where
  "calcMemSize64 off l = (if \<not> IsUint64 l then (0, True) else calcMemSize64WithUint off (Uint64 l))"

definition toWordSize :: "u64 \<Rightarrow> u64" where
  "toWordSize sz = (if sz > - 1 - 31 then (- 1) div 32 + 1 else (sz + 31) div 32)"

definition RightPadBytes :: "bytes \<Rightarrow> int \<Rightarrow> bytes" where
  "RightPadBytes b l = (if l \<le> int (length b) then b else b @ replicate (nat l - length b) 0)"

definition getData :: "bytes \<Rightarrow> u64 \<Rightarrow> u64 \<Rightarrow> panic + bytes" where
  "getData data start sz =
     (let len = of_nat (length data);
          start = (if start > len then len else start);
          end' = start + sz;
          end' = (if end' > len then len else end')
      in if end' < start then Inl IndexPanic
         else Inr (RightPadBytes (take (unat end' - unat start) (drop (unat start) data)) (sint sz)))"

definition allZero :: "bytes \<Rightarrow> bool" where
  "allZero b = list_all (\<lambda>x. x = 0) b"

type_synonym memorySizeFunc = "stack \<Rightarrow> panic + u64 \<times> bool"

definition memRange :: "nat \<Rightarrow> nat \<Rightarrow> memorySizeFunc" where
  "memRange i j st = rbind (Back i st) (\<lambda>off. rbind (Back j st) (\<lambda>l. Inr (calcMemSize64 off l)))"

definition memorySha3 :: memorySizeFunc where
  "memorySha3 = memRange 0 1"

definition memoryCallDataCopy :: memorySizeFunc where
  "memoryCallDataCopy = memRange 0 2"

definition memoryReturnDataCopy :: memorySizeFunc where
  "memoryReturnDataCopy = memRange 0 2"

definition memoryCodeCopy :: memorySizeFunc where
  "memoryCodeCopy = memRange 0 2"

definition memoryExtCodeCopy :: memorySizeFunc where
  "memoryExtCodeCopy = memRange 1 3"

definition memoryMLoad :: memorySizeFunc where
  "memoryMLoad st = rbind (Back 0 st) (\<lambda>off. Inr (calcMemSize64WithUint off 32))"

definition memoryMStore8 :: memorySizeFunc where
  "memoryMStore8 st = rbind (Back 0 st) (\<lambda>off. Inr (calcMemSize64WithUint off 1))"

definition memoryMStore :: memorySizeFunc where
  "memoryMStore st = rbind (Back 0 st) (\<lambda>off. Inr (calcMemSize64WithUint off 32))"

definition memoryCreate :: memorySizeFunc where
  "memoryCreate = memRange 1 2"

definition memoryCreate2 :: memorySizeFunc where
  "memoryCreate2 = memRange 1 2"

definition memMax2 :: "nat \<Rightarrow> nat \<Rightarrow> nat \<Rightarrow> nat \<Rightarrow> memorySizeFunc" where
  "memMax2 i j k l st =
     rbind (memRange i j st) (\<lambda>(x, overflow).
       if overflow then Inr (0, True)
       else rbind (memRange k l st) (\<lambda>(y, overflow).
         if overflow then Inr (0, True)
         else if x > y then Inr (x, False) else Inr (y, False)))"

definition memoryCall :: memorySizeFunc where
  "memoryCall = memMax2 5 6 3 4"

definition memoryDelegateCall :: memorySizeFunc where
  "memoryDelegateCall = memMax2 4 5 2 3"

definition memoryStaticCall :: memorySizeFunc where
  "memoryStaticCall = memMax2 4 5 2 3"

definition memoryReturn :: memorySizeFunc where
  "memoryReturn = memRange 0 1"

definition memoryRevert :: memorySizeFunc where
  "memoryRevert = memRange 0 1"

definition memoryLog :: memorySizeFunc where
  "memoryLog = memRange 0 1"

end
