(* ===== verification/Precompiles.thy ===== *)
theory Precompiles
  imports EvmBase
begin

text \<open>
  The precompiled contracts of \<^verbatim>\<open>core/vm/contracts.go\<close>: their gas, their input parsing and
  their dispatch. Hash functions and elliptic curve arithmetic (\<^verbatim>\<open>crypto/sha256\<close>,
  \<^verbatim>\<open>ripemd160\<close>, \<^verbatim>\<open>secp256k1\<close>, \<^verbatim>\<open>bn256\<close>, \<^verbatim>\<open>bls12381\<close>, and the \<^verbatim>\<open>blake2b\<close> compression function,
  which runs in assembly on most platforms) are the fields of the record \<open>crypto\<close>, an
  argument of the definitions. A curve point is an opaque value, here a list of numbers.

  The identity contract returns its input slice itself, not a copy. Who called it can tell the
  difference, so the result of a contract is a \<open>slice\<close>: fresh bytes, or the input slice.
\<close>

type_synonym point = "nat list"

record crypto =
  Sum256 :: "bytes \<Rightarrow> bytes"
  ripemd160Sum :: "bytes \<Rightarrow> bytes"
  Keccak256 :: "bytes \<Rightarrow> bytes"
  Ecrecover :: "bytes \<Rightarrow> bytes \<Rightarrow> string + bytes"
  bnG1_Unmarshal :: "bytes \<Rightarrow> string + point"
  bnG2_Unmarshal :: "bytes \<Rightarrow> string + point"
  bnG1_Add :: "point \<Rightarrow> point \<Rightarrow> point"
  bnG1_ScalarMult :: "point \<Rightarrow> nat \<Rightarrow> point"
  bnG1_Marshal :: "point \<Rightarrow> bytes"
  PairingCheck :: "point list \<Rightarrow> point list \<Rightarrow> bool"
  blake2b_F :: "u64 list \<Rightarrow> u64 list \<Rightarrow> u64 list \<Rightarrow> bool \<Rightarrow> 32 word \<Rightarrow> u64 list"
  blsG1_DecodePoint :: "bytes \<Rightarrow> string + point"
  blsG1_Add :: "point \<Rightarrow> point \<Rightarrow> point"
  blsG1_MulScalar :: "point \<Rightarrow> nat \<Rightarrow> point"
  blsG1_MultiExp :: "point list \<Rightarrow> nat list \<Rightarrow> point"
  blsG1_MapToCurve :: "bytes \<Rightarrow> string + point"
  blsG1_InCorrectSubgroup :: "point \<Rightarrow> bool"
  blsG1_EncodePoint :: "point \<Rightarrow> bytes"
  blsG2_DecodePoint :: "bytes \<Rightarrow> string + point"
  blsG2_Add :: "point \<Rightarrow> point \<Rightarrow> point"
  blsG2_MulScalar :: "point \<Rightarrow> nat \<Rightarrow> point"
  blsG2_MultiExp :: "point list \<Rightarrow> nat list \<Rightarrow> point"
  blsG2_MapToCurve :: "bytes \<Rightarrow> string + point"
  blsG2_InCorrectSubgroup :: "point \<Rightarrow> bool"
  blsG2_EncodePoint :: "point \<Rightarrow> bytes"
  bls_Check :: "(point \<times> point) list \<Rightarrow> bool"

datatype slice = OwnBytes bytes | InputSlice

fun sliceBytes :: "bytes \<Rightarrow> slice \<Rightarrow> bytes" where
  "sliceBytes input (OwnBytes b) = b"
| "sliceBytes input InputSlice = input"

type_synonym precompileResult = "panic + slice \<times> vmError option"

definition returnBytes :: "bytes \<Rightarrow> precompileResult" where
  "returnBytes b = Inr (OwnBytes b, None)"

definition returnError :: "string \<Rightarrow> precompileResult" where
  "returnError e = Inr (OwnBytes [], Some (ErrPrecompile e))"

text \<open>The pattern \<^verbatim>\<open>x, err := f(); if err != nil { return nil, err }\<close>.\<close>

definition orError :: "string + 'a \<Rightarrow> ('a \<Rightarrow> precompileResult) \<Rightarrow> precompileResult" where
  "orError r k = (case r of Inl e \<Rightarrow> returnError e | Inr x \<Rightarrow> k x)"

definition subBytes :: "nat \<Rightarrow> nat \<Rightarrow> bytes \<Rightarrow> bytes" where
  "subBytes i j b = take (j - i) (drop i b)"

definition LeftPadBytes :: "bytes \<Rightarrow> int \<Rightarrow> bytes" where
  "LeftPadBytes b l = (if l \<le> int (length b) then b else replicate (nat l - length b) 0 @ b)"

definition wordCount :: "bytes \<Rightarrow> u64" where
  "wordCount input = of_nat (length input + 31) div 32"

subsection \<open>Signature recovery, hashes and the identity\<close>

definition secp256k1N :: nat where
  "secp256k1N = 0xfffffffffffffffffffffffffffffffebaaedce6af48a03bbfd25e8cd0364141"

definition secp256k1halfN :: nat where
  "secp256k1halfN = secp256k1N div 2"

definition ValidateSignatureValues :: "byte \<Rightarrow> nat \<Rightarrow> nat \<Rightarrow> bool \<Rightarrow> bool" where
  "ValidateSignatureValues v r s homestead =
     (if r < 1 \<or> s < 1 then False
      else if homestead \<and> s > secp256k1halfN then False
      else r < secp256k1N \<and> s < secp256k1N \<and> (v = 0 \<or> v = 1))"

definition ecrecover_RequiredGas :: "bytes \<Rightarrow> u64" where
  "ecrecover_RequiredGas input = EcrecoverGas"

definition ecrecover_Run :: "crypto \<Rightarrow> bytes \<Rightarrow> precompileResult" where
  "ecrecover_Run C input0 =
     (let input = RightPadBytes input0 128;
          r = from_be (subBytes 64 96 input);
          s = from_be (subBytes 96 128 input);
          v = input ! 63 - 27
      in if \<not> allZero (subBytes 32 63 input) \<or> \<not> ValidateSignatureValues v r s False
         then returnBytes []
         else let sig = subBytes 64 128 input @ [v]
              in case Ecrecover C (take 32 input) sig of
                   Inl err \<Rightarrow> returnBytes []
                 | Inr pubKey \<Rightarrow> returnBytes (LeftPadBytes (drop 12 (Keccak256 C (drop 1 pubKey))) 32))"

definition sha256hash_RequiredGas :: "bytes \<Rightarrow> u64" where
  "sha256hash_RequiredGas input = wordCount input * Sha256PerWordGas + Sha256BaseGas"

definition sha256hash_Run :: "crypto \<Rightarrow> bytes \<Rightarrow> precompileResult" where
  "sha256hash_Run C input = returnBytes (Sum256 C input)"

definition ripemd160hash_RequiredGas :: "bytes \<Rightarrow> u64" where
  "ripemd160hash_RequiredGas input = wordCount input * Ripemd160PerWordGas + Ripemd160BaseGas"

definition ripemd160hash_Run :: "crypto \<Rightarrow> bytes \<Rightarrow> precompileResult" where
  "ripemd160hash_Run C input = returnBytes (LeftPadBytes (ripemd160Sum C input) 32)"

definition dataCopy_RequiredGas :: "bytes \<Rightarrow> u64" where
  "dataCopy_RequiredGas input = wordCount input * IdentityPerWordGas + IdentityBaseGas"

definition dataCopy_Run :: "crypto \<Rightarrow> bytes \<Rightarrow> precompileResult" where
  "dataCopy_Run C input = Inr (InputSlice, None)"

subsection \<open>Modular exponentiation\<close>

text \<open>\<^verbatim>\<open>big.Int.Bytes\<close>: the minimal big-endian form.\<close>

definition bigBytes :: "nat \<Rightarrow> bytes" where
  "bigBytes n = be_bytes ((bitLen n + 7) div 8) n"

text \<open>\<^verbatim>\<open>new(big.Int).SetBytes(getData(data, start, size))\<close>.\<close>

definition bigData :: "bytes \<Rightarrow> u64 \<Rightarrow> u64 \<Rightarrow> panic + nat" where
  "bigData data start sz = rbind (getData data start sz) (\<lambda>b. Inr (from_be b))"

definition bigModExp_multComplexity :: "nat \<Rightarrow> nat" where
  "bigModExp_multComplexity x =
     (if x \<le> 64 then x * x
      else if x \<le> 1024 then x * x div 4 + (96 * x - 3072)
      else x * x div 16 + (480 * x - 199680))"

definition bigModExp_RequiredGas :: "bytes \<Rightarrow> panic + u64" where
  "bigModExp_RequiredGas input0 =
     rbind (bigData input0 0 32) (\<lambda>baseLen.
     rbind (bigData input0 32 32) (\<lambda>expLen.
     rbind (bigData input0 64 32) (\<lambda>modLen.
       let input = (if length input0 > 96 then drop 96 input0 else []) in
       rbind (if length input \<le> baseLen then Inr 0
              else if expLen > 32 then bigData input (of_nat baseLen) 32
              else bigData input (of_nat baseLen) (of_nat expLen)) (\<lambda>expHead.
         let msb = (if bitLen expHead > 0 then bitLen expHead - 1 else 0);
             adjExpLen = (if expLen > 32 then 8 * (expLen - 32) else 0) + msb;
             gas = bigModExp_multComplexity (max modLen baseLen) * max adjExpLen 1
                   div unat ModExpQuadCoeffDiv
         in Inr (if bitLen gas > 64 then - 1 else of_nat gas)))))"

definition bigModExp_Run :: "crypto \<Rightarrow> bytes \<Rightarrow> precompileResult" where
  "bigModExp_Run C input0 =
     rbind (bigData input0 0 32) (\<lambda>baseLen0.
     rbind (bigData input0 32 32) (\<lambda>expLen0.
     rbind (bigData input0 64 32) (\<lambda>modLen0.
       let baseLen = of_nat baseLen0; expLen = of_nat expLen0; modLen = of_nat modLen0;
           input = (if length input0 > 96 then drop 96 input0 else [])
       in if baseLen = 0 \<and> modLen = 0 then returnBytes []
          else rbind (bigData input 0 baseLen) (\<lambda>base.
               rbind (bigData input baseLen expLen) (\<lambda>exp.
               rbind (bigData input (baseLen + expLen) modLen) (\<lambda>mod0.
                 if bitLen mod0 = 0 then returnBytes (LeftPadBytes [] (sint modLen))
                 else returnBytes (LeftPadBytes (bigBytes (base ^ exp mod mod0)) (sint modLen))))))))"

subsection \<open>The curve bn256\<close>

definition newCurvePoint :: "crypto \<Rightarrow> bytes \<Rightarrow> string + point" where
  "newCurvePoint C blob = bnG1_Unmarshal C blob"

definition newTwistPoint :: "crypto \<Rightarrow> bytes \<Rightarrow> string + point" where
  "newTwistPoint C blob = bnG2_Unmarshal C blob"

definition runBn256Add :: "crypto \<Rightarrow> bytes \<Rightarrow> precompileResult" where
  "runBn256Add C input =
     rbind (getData input 0 64) (\<lambda>b0. orError (newCurvePoint C b0) (\<lambda>x.
     rbind (getData input 64 64) (\<lambda>b1. orError (newCurvePoint C b1) (\<lambda>y.
       returnBytes (bnG1_Marshal C (bnG1_Add C x y))))))"

definition bn256AddIstanbul_RequiredGas :: "bytes \<Rightarrow> u64" where
  "bn256AddIstanbul_RequiredGas input = Bn256AddGasIstanbul"

definition bn256AddByzantium_RequiredGas :: "bytes \<Rightarrow> u64" where
  "bn256AddByzantium_RequiredGas input = Bn256AddGasByzantium"

definition runBn256ScalarMul :: "crypto \<Rightarrow> bytes \<Rightarrow> precompileResult" where
  "runBn256ScalarMul C input =
     rbind (getData input 0 64) (\<lambda>b0. orError (newCurvePoint C b0) (\<lambda>p.
     rbind (bigData input 64 32) (\<lambda>k. returnBytes (bnG1_Marshal C (bnG1_ScalarMult C p k)))))"

definition bn256ScalarMulIstanbul_RequiredGas :: "bytes \<Rightarrow> u64" where
  "bn256ScalarMulIstanbul_RequiredGas input = Bn256ScalarMulGasIstanbul"

definition bn256ScalarMulByzantium_RequiredGas :: "bytes \<Rightarrow> u64" where
  "bn256ScalarMulByzantium_RequiredGas input = Bn256ScalarMulGasByzantium"

text \<open>The coordinates of the pairing input, \<open>n\<close> blocks of 192 bytes.\<close>

primrec bnPairs :: "crypto \<Rightarrow> nat \<Rightarrow> bytes \<Rightarrow> string + (point \<times> point) list" where
  "bnPairs C 0 input = Inr []"
| "bnPairs C (Suc n) input =
     rbind (newCurvePoint C (subBytes 0 64 input)) (\<lambda>c.
     rbind (newTwistPoint C (subBytes 64 192 input)) (\<lambda>t.
     rbind (bnPairs C n (drop 192 input)) (\<lambda>ps. Inr ((c, t) # ps))))"

definition true32Byte :: bytes where
  "true32Byte = replicate 31 0 @ [1]"

definition false32Byte :: bytes where
  "false32Byte = replicate 32 0"

definition runBn256Pairing :: "crypto \<Rightarrow> bytes \<Rightarrow> precompileResult" where
  "runBn256Pairing C input =
     (if length input mod 192 > 0 then returnError ''bad elliptic curve pairing size''
      else orError (bnPairs C (length input div 192) input) (\<lambda>ps.
        if PairingCheck C (map fst ps) (map snd ps) then returnBytes true32Byte
        else returnBytes false32Byte))"

definition bn256PairingIstanbul_RequiredGas :: "bytes \<Rightarrow> u64" where
  "bn256PairingIstanbul_RequiredGas input =
     Bn256PairingBaseGasIstanbul + of_nat (length input div 192) * Bn256PairingPerPointGasIstanbul"

definition bn256PairingByzantium_RequiredGas :: "bytes \<Rightarrow> u64" where
  "bn256PairingByzantium_RequiredGas input =
     Bn256PairingBaseGasByzantium + of_nat (length input div 192) * Bn256PairingPerPointGasByzantium"

subsection \<open>The BLAKE2 compression function\<close>

definition blake2FInputLength :: nat where
  "blake2FInputLength = 213"

definition blake2F_RequiredGas :: "bytes \<Rightarrow> u64" where
  "blake2F_RequiredGas input =
     (if length input \<noteq> blake2FInputLength then 0
      else of_nat (from_be (subBytes 0 4 input)))"

definition leUint64 :: "bytes \<Rightarrow> nat \<Rightarrow> u64" where
  "leUint64 input off = of_nat (from_be (rev (subBytes off (off + 8) input)))"

definition lePutUint64 :: "u64 \<Rightarrow> bytes" where
  "lePutUint64 x = rev (be_bytes 8 (unat x))"

definition blake2F_Run :: "crypto \<Rightarrow> bytes \<Rightarrow> precompileResult" where
  "blake2F_Run C input =
     (if length input \<noteq> blake2FInputLength then returnError ''invalid input length''
      else if input ! 212 \<noteq> 0 \<and> input ! 212 \<noteq> 1 then returnError ''invalid final flag''
      else let rounds = of_nat (from_be (subBytes 0 4 input));
               final = (input ! 212 = 1);
               h = map (\<lambda>i. leUint64 input (4 + i * 8)) [0..<8];
               m = map (\<lambda>i. leUint64 input (68 + i * 8)) [0..<16];
               t = [leUint64 input 196, leUint64 input 204];
               h' = blake2b_F C h m t final rounds
           in returnBytes (concat (map (\<lambda>i. lePutUint64 (h' ! i)) [0..<8])))"

subsection \<open>The curve BLS12-381\<close>

definition bls_lengthError :: precompileResult where
  "bls_lengthError = returnError ''invalid input length''"

definition bls12381G1Add_RequiredGas :: "bytes \<Rightarrow> u64" where
  "bls12381G1Add_RequiredGas input = Bls12381G1AddGas"

definition bls12381G1Add_Run :: "crypto \<Rightarrow> bytes \<Rightarrow> precompileResult" where
  "bls12381G1Add_Run C input =
     (if length input \<noteq> 256 then bls_lengthError
      else orError (blsG1_DecodePoint C (take 128 input)) (\<lambda>p0.
           orError (blsG1_DecodePoint C (drop 128 input)) (\<lambda>p1.
           returnBytes (blsG1_EncodePoint C (blsG1_Add C p0 p1)))))"

definition bls12381G1Mul_RequiredGas :: "bytes \<Rightarrow> u64" where
  "bls12381G1Mul_RequiredGas input = Bls12381G1MulGas"

definition bls12381G1Mul_Run :: "crypto \<Rightarrow> bytes \<Rightarrow> precompileResult" where
  "bls12381G1Mul_Run C input =
     (if length input \<noteq> 160 then bls_lengthError
      else orError (blsG1_DecodePoint C (take 128 input)) (\<lambda>p0.
           returnBytes (blsG1_EncodePoint C (blsG1_MulScalar C p0 (from_be (drop 128 input))))))"

definition multiExpDiscount :: "nat \<Rightarrow> u64" where
  "multiExpDiscount k =
     (let dLen = length Bls12381MultiExpDiscountTable
      in if k < dLen then Bls12381MultiExpDiscountTable ! (k - 1)
         else Bls12381MultiExpDiscountTable ! (dLen - 1))"

definition bls12381G1MultiExp_RequiredGas :: "bytes \<Rightarrow> u64" where
  "bls12381G1MultiExp_RequiredGas input =
     (let k = length input div 160
      in if k = 0 then 0 else of_nat k * Bls12381G1MulGas * multiExpDiscount k div 1000)"

text \<open>\<open>k\<close> pairs of a point of \<open>n\<close> bytes and a scalar of 32.\<close>

primrec pointScalars :: "(bytes \<Rightarrow> string + point) \<Rightarrow> nat \<Rightarrow> nat \<Rightarrow> bytes \<Rightarrow> string + (point \<times> nat) list" where
  "pointScalars dec n 0 input = Inr []"
| "pointScalars dec n (Suc k) input =
     rbind (dec (subBytes 0 n input)) (\<lambda>p.
     rbind (pointScalars dec n k (drop (n + 32) input)) (\<lambda>ps.
       Inr ((p, from_be (subBytes n (n + 32) input)) # ps)))"

definition bls12381G1MultiExp_Run :: "crypto \<Rightarrow> bytes \<Rightarrow> precompileResult" where
  "bls12381G1MultiExp_Run C input =
     (if input = [] \<or> length input mod 160 \<noteq> 0 then bls_lengthError
      else orError (pointScalars (blsG1_DecodePoint C) 128 (length input div 160) input) (\<lambda>ps.
           returnBytes (blsG1_EncodePoint C (blsG1_MultiExp C (map fst ps) (map snd ps)))))"

definition bls12381G2Add_RequiredGas :: "bytes \<Rightarrow> u64" where
  "bls12381G2Add_RequiredGas input = Bls12381G2AddGas"

definition bls12381G2Add_Run :: "crypto \<Rightarrow> bytes \<Rightarrow> precompileResult" where
  "bls12381G2Add_Run C input =
     (if length input \<noteq> 512 then bls_lengthError
      else orError (blsG2_DecodePoint C (take 256 input)) (\<lambda>p0.
           orError (blsG2_DecodePoint C (drop 256 input)) (\<lambda>p1.
           returnBytes (blsG2_EncodePoint C (blsG2_Add C p0 p1)))))"

definition bls12381G2Mul_RequiredGas :: "bytes \<Rightarrow> u64" where
  "bls12381G2Mul_RequiredGas input = Bls12381G2MulGas"

definition bls12381G2Mul_Run :: "crypto \<Rightarrow> bytes \<Rightarrow> precompileResult" where
  "bls12381G2Mul_Run C input =
     (if length input \<noteq> 288 then bls_lengthError
      else orError (blsG2_DecodePoint C (take 256 input)) (\<lambda>p0.
           returnBytes (blsG2_EncodePoint C (blsG2_MulScalar C p0 (from_be (drop 256 input))))))"

definition bls12381G2MultiExp_RequiredGas :: "bytes \<Rightarrow> u64" where
  "bls12381G2MultiExp_RequiredGas input =
     (let k = length input div 288
      in if k = 0 then 0 else of_nat k * Bls12381G2MulGas * multiExpDiscount k div 1000)"

definition bls12381G2MultiExp_Run :: "crypto \<Rightarrow> bytes \<Rightarrow> precompileResult" where
  "bls12381G2MultiExp_Run C input =
     (if input = [] \<or> length input mod 288 \<noteq> 0 then bls_lengthError
      else orError (pointScalars (blsG2_DecodePoint C) 256 (length input div 288) input) (\<lambda>ps.
           returnBytes (blsG2_EncodePoint C (blsG2_MultiExp C (map fst ps) (map snd ps)))))"

definition bls12381Pairing_RequiredGas :: "bytes \<Rightarrow> u64" where
  "bls12381Pairing_RequiredGas input =
     Bls12381PairingBaseGas + of_nat (length input div 384) * Bls12381PairingPerPairGas"

primrec blsPairs :: "crypto \<Rightarrow> nat \<Rightarrow> bytes \<Rightarrow> string + (point \<times> point) list" where
  "blsPairs C 0 input = Inr []"
| "blsPairs C (Suc k) input =
     rbind (blsG1_DecodePoint C (subBytes 0 128 input)) (\<lambda>p1.
     rbind (blsG2_DecodePoint C (subBytes 128 384 input)) (\<lambda>p2.
       if \<not> blsG1_InCorrectSubgroup C p1 then Inl ''g1 point is not on correct subgroup''
       else if \<not> blsG2_InCorrectSubgroup C p2 then Inl ''g2 point is not on correct subgroup''
       else rbind (blsPairs C k (drop 384 input)) (\<lambda>ps. Inr ((p1, p2) # ps))))"

definition bls12381Pairing_Run :: "crypto \<Rightarrow> bytes \<Rightarrow> precompileResult" where
  "bls12381Pairing_Run C input =
     (if input = [] \<or> length input mod 384 \<noteq> 0 then bls_lengthError
      else orError (blsPairs C (length input div 384) input) (\<lambda>ps.
        returnBytes (if bls_Check C ps then (replicate 32 0)[31 := 1] else replicate 32 0)))"

definition decodeBLS12381FieldElement :: "bytes \<Rightarrow> string + bytes" where
  "decodeBLS12381FieldElement input =
     (if length input \<noteq> 64 then Inl ''invalid field element length''
      else if \<not> list_all (\<lambda>b. b = 0) (take 16 input) then Inl ''invalid field element top bytes''
      else Inr (drop 16 input))"

definition bls12381MapG1_RequiredGas :: "bytes \<Rightarrow> u64" where
  "bls12381MapG1_RequiredGas input = Bls12381MapG1Gas"

definition bls12381MapG1_Run :: "crypto \<Rightarrow> bytes \<Rightarrow> precompileResult" where
  "bls12381MapG1_Run C input =
     (if length input \<noteq> 64 then bls_lengthError
      else orError (decodeBLS12381FieldElement input) (\<lambda>fe.
           orError (blsG1_MapToCurve C fe) (\<lambda>r. returnBytes (blsG1_EncodePoint C r))))"

definition bls12381MapG2_RequiredGas :: "bytes \<Rightarrow> u64" where
  "bls12381MapG2_RequiredGas input = Bls12381MapG2Gas"

definition bls12381MapG2_Run :: "crypto \<Rightarrow> bytes \<Rightarrow> precompileResult" where
  "bls12381MapG2_Run C input =
     (if length input \<noteq> 128 then bls_lengthError
      else orError (decodeBLS12381FieldElement (take 64 input)) (\<lambda>c0.
           orError (decodeBLS12381FieldElement (drop 64 input)) (\<lambda>c1.
           orError (blsG2_MapToCurve C (c1 @ c0)) (\<lambda>r. returnBytes (blsG2_EncodePoint C r)))))"

subsection \<open>The contract sets\<close>

datatype PrecompiledContract =
    ecrecover | sha256hash | ripemd160hash | dataCopy | bigModExp
  | bn256AddByzantium | bn256ScalarMulByzantium | bn256PairingByzantium
  | bn256AddIstanbul | bn256ScalarMulIstanbul | bn256PairingIstanbul
  | blake2F
  | bls12381G1Add | bls12381G1Mul | bls12381G1MultiExp
  | bls12381G2Add | bls12381G2Mul | bls12381G2MultiExp
  | bls12381Pairing | bls12381MapG1 | bls12381MapG2

fun RequiredGas :: "PrecompiledContract \<Rightarrow> bytes \<Rightarrow> panic + u64" where
  "RequiredGas ecrecover b = Inr (ecrecover_RequiredGas b)"
| "RequiredGas sha256hash b = Inr (sha256hash_RequiredGas b)"
| "RequiredGas ripemd160hash b = Inr (ripemd160hash_RequiredGas b)"
| "RequiredGas dataCopy b = Inr (dataCopy_RequiredGas b)"
| "RequiredGas bigModExp b = bigModExp_RequiredGas b"
| "RequiredGas bn256AddByzantium b = Inr (bn256AddByzantium_RequiredGas b)"
| "RequiredGas bn256ScalarMulByzantium b = Inr (bn256ScalarMulByzantium_RequiredGas b)"
| "RequiredGas bn256PairingByzantium b = Inr (bn256PairingByzantium_RequiredGas b)"
| "RequiredGas bn256AddIstanbul b = Inr (bn256AddIstanbul_RequiredGas b)"
| "RequiredGas bn256ScalarMulIstanbul b = Inr (bn256ScalarMulIstanbul_RequiredGas b)"
| "RequiredGas bn256PairingIstanbul b = Inr (bn256PairingIstanbul_RequiredGas b)"
| "RequiredGas blake2F b = Inr (blake2F_RequiredGas b)"
| "RequiredGas bls12381G1Add b = Inr (bls12381G1Add_RequiredGas b)"
| "RequiredGas bls12381G1Mul b = Inr (bls12381G1Mul_RequiredGas b)"
| "RequiredGas bls12381G1MultiExp b = Inr (bls12381G1MultiExp_RequiredGas b)"
| "RequiredGas bls12381G2Add b = Inr (bls12381G2Add_RequiredGas b)"
| "RequiredGas bls12381G2Mul b = Inr (bls12381G2Mul_RequiredGas b)"
| "RequiredGas bls12381G2MultiExp b = Inr (bls12381G2MultiExp_RequiredGas b)"
| "RequiredGas bls12381Pairing b = Inr (bls12381Pairing_RequiredGas b)"
| "RequiredGas bls12381MapG1 b = Inr (bls12381MapG1_RequiredGas b)"
| "RequiredGas bls12381MapG2 b = Inr (bls12381MapG2_RequiredGas b)"

fun PRun :: "crypto \<Rightarrow> PrecompiledContract \<Rightarrow> bytes \<Rightarrow> precompileResult" where
  "PRun C ecrecover b = ecrecover_Run C b"
| "PRun C sha256hash b = sha256hash_Run C b"
| "PRun C ripemd160hash b = ripemd160hash_Run C b"
| "PRun C dataCopy b = dataCopy_Run C b"
| "PRun C bigModExp b = bigModExp_Run C b"
| "PRun C bn256AddByzantium b = runBn256Add C b"
| "PRun C bn256ScalarMulByzantium b = runBn256ScalarMul C b"
| "PRun C bn256PairingByzantium b = runBn256Pairing C b"
| "PRun C bn256AddIstanbul b = runBn256Add C b"
| "PRun C bn256ScalarMulIstanbul b = runBn256ScalarMul C b"
| "PRun C bn256PairingIstanbul b = runBn256Pairing C b"
| "PRun C blake2F b = blake2F_Run C b"
| "PRun C bls12381G1Add b = bls12381G1Add_Run C b"
| "PRun C bls12381G1Mul b = bls12381G1Mul_Run C b"
| "PRun C bls12381G1MultiExp b = bls12381G1MultiExp_Run C b"
| "PRun C bls12381G2Add b = bls12381G2Add_Run C b"
| "PRun C bls12381G2Mul b = bls12381G2Mul_Run C b"
| "PRun C bls12381G2MultiExp b = bls12381G2MultiExp_Run C b"
| "PRun C bls12381Pairing b = bls12381Pairing_Run C b"
| "PRun C bls12381MapG1 b = bls12381MapG1_Run C b"
| "PRun C bls12381MapG2 b = bls12381MapG2_Run C b"

definition PrecompiledContractsHomestead :: "(address \<times> PrecompiledContract) list" where
  "PrecompiledContractsHomestead = [(1, ecrecover), (2, sha256hash), (3, ripemd160hash), (4, dataCopy)]"

definition PrecompiledContractsByzantium :: "(address \<times> PrecompiledContract) list" where
  "PrecompiledContractsByzantium =
     [(1, ecrecover), (2, sha256hash), (3, ripemd160hash), (4, dataCopy), (5, bigModExp),
      (6, bn256AddByzantium), (7, bn256ScalarMulByzantium), (8, bn256PairingByzantium)]"

definition PrecompiledContractsIstanbul :: "(address \<times> PrecompiledContract) list" where
  "PrecompiledContractsIstanbul =
     [(1, ecrecover), (2, sha256hash), (3, ripemd160hash), (4, dataCopy), (5, bigModExp),
      (6, bn256AddIstanbul), (7, bn256ScalarMulIstanbul), (8, bn256PairingIstanbul), (9, blake2F)]"

definition PrecompiledContractsYoloV1 :: "(address \<times> PrecompiledContract) list" where
  "PrecompiledContractsYoloV1 =
     [(1, ecrecover), (2, sha256hash), (3, ripemd160hash), (4, dataCopy), (5, bigModExp),
      (6, bn256AddIstanbul), (7, bn256ScalarMulIstanbul), (8, bn256PairingIstanbul), (9, blake2F),
      (10, bls12381G1Add), (11, bls12381G1Mul), (12, bls12381G1MultiExp), (13, bls12381G2Add),
      (14, bls12381G2Mul), (15, bls12381G2MultiExp), (16, bls12381Pairing), (17, bls12381MapG1),
      (18, bls12381MapG2)]"

definition RunPrecompiledContract ::
    "crypto \<Rightarrow> PrecompiledContract \<Rightarrow> bytes \<Rightarrow> u64 \<Rightarrow> panic + slice \<times> u64 \<times> vmError option" where
  "RunPrecompiledContract C p input suppliedGas =
     rbind (RequiredGas p input) (\<lambda>gasCost.
       if suppliedGas < gasCost then Inr (OwnBytes [], 0, Some ErrOutOfGas)
       else rbind (PRun C p input) (\<lambda>(output, err). Inr (output, suppliedGas - gasCost, err)))"

end
