(* ===== verification/Opcodes.thy ===== *)
theory Opcodes
  imports Prelude
begin

text \<open>
  The opcodes of \<^verbatim>\<open>core/vm/opcodes.go\<close>. The names of the four bitwise ones carry a suffix, as
  they would clash with the operators of the word library. The collection \<open>opcodes\<close> unfolds them.
\<close>

named_theorems opcodes \<open>opcode values\<close>

definition STOP :: byte where
  [opcodes]: "STOP = 0x00"

definition ADD :: byte where
  [opcodes]: "ADD = 0x01"

definition MUL :: byte where
  [opcodes]: "MUL = 0x02"

definition SUB :: byte where
  [opcodes]: "SUB = 0x03"

definition DIV :: byte where
  [opcodes]: "DIV = 0x04"

definition SDIV :: byte where
  [opcodes]: "SDIV = 0x05"

definition MOD :: byte where
  [opcodes]: "MOD = 0x06"

definition SMOD :: byte where
  [opcodes]: "SMOD = 0x07"

definition ADDMOD :: byte where
  [opcodes]: "ADDMOD = 0x08"

definition MULMOD :: byte where
  [opcodes]: "MULMOD = 0x09"

definition EXP :: byte where
  [opcodes]: "EXP = 0x0a"

definition SIGNEXTEND :: byte where
  [opcodes]: "SIGNEXTEND = 0x0b"

definition LT :: byte where
  [opcodes]: "LT = 0x10"

definition GT :: byte where
  [opcodes]: "GT = 0x11"

definition SLT :: byte where
  [opcodes]: "SLT = 0x12"

definition SGT :: byte where
  [opcodes]: "SGT = 0x13"

definition EQ :: byte where
  [opcodes]: "EQ = 0x14"

definition ISZERO :: byte where
  [opcodes]: "ISZERO = 0x15"

definition AND_op :: byte where
  [opcodes]: "AND_op = 0x16"

definition OR_op :: byte where
  [opcodes]: "OR_op = 0x17"

definition XOR_op :: byte where
  [opcodes]: "XOR_op = 0x18"

definition NOT_op :: byte where
  [opcodes]: "NOT_op = 0x19"

definition BYTE :: byte where
  [opcodes]: "BYTE = 0x1a"

definition SHL :: byte where
  [opcodes]: "SHL = 0x1b"

definition SHR :: byte where
  [opcodes]: "SHR = 0x1c"

definition SAR :: byte where
  [opcodes]: "SAR = 0x1d"

definition SHA3 :: byte where
  [opcodes]: "SHA3 = 0x20"

definition ADDRESS :: byte where
  [opcodes]: "ADDRESS = 0x30"

definition BALANCE :: byte where
  [opcodes]: "BALANCE = 0x31"

definition ORIGIN :: byte where
  [opcodes]: "ORIGIN = 0x32"

definition CALLER :: byte where
  [opcodes]: "CALLER = 0x33"

definition CALLVALUE :: byte where
  [opcodes]: "CALLVALUE = 0x34"

definition CALLDATALOAD :: byte where
  [opcodes]: "CALLDATALOAD = 0x35"

definition CALLDATASIZE :: byte where
  [opcodes]: "CALLDATASIZE = 0x36"

definition CALLDATACOPY :: byte where
  [opcodes]: "CALLDATACOPY = 0x37"

definition CODESIZE :: byte where
  [opcodes]: "CODESIZE = 0x38"

definition CODECOPY :: byte where
  [opcodes]: "CODECOPY = 0x39"

definition GASPRICE :: byte where
  [opcodes]: "GASPRICE = 0x3a"

definition EXTCODESIZE :: byte where
  [opcodes]: "EXTCODESIZE = 0x3b"

definition EXTCODECOPY :: byte where
  [opcodes]: "EXTCODECOPY = 0x3c"

definition RETURNDATASIZE :: byte where
  [opcodes]: "RETURNDATASIZE = 0x3d"

definition RETURNDATACOPY :: byte where
  [opcodes]: "RETURNDATACOPY = 0x3e"

definition EXTCODEHASH :: byte where
  [opcodes]: "EXTCODEHASH = 0x3f"

definition BLOCKHASH :: byte where
  [opcodes]: "BLOCKHASH = 0x40"

definition COINBASE :: byte where
  [opcodes]: "COINBASE = 0x41"

definition TIMESTAMP :: byte where
  [opcodes]: "TIMESTAMP = 0x42"

definition NUMBER :: byte where
  [opcodes]: "NUMBER = 0x43"

definition DIFFICULTY :: byte where
  [opcodes]: "DIFFICULTY = 0x44"

definition GASLIMIT :: byte where
  [opcodes]: "GASLIMIT = 0x45"

definition CHAINID :: byte where
  [opcodes]: "CHAINID = 0x46"

definition SELFBALANCE :: byte where
  [opcodes]: "SELFBALANCE = 0x47"

definition POP :: byte where
  [opcodes]: "POP = 0x50"

definition MLOAD :: byte where
  [opcodes]: "MLOAD = 0x51"

definition MSTORE :: byte where
  [opcodes]: "MSTORE = 0x52"

definition MSTORE8 :: byte where
  [opcodes]: "MSTORE8 = 0x53"

definition SLOAD :: byte where
  [opcodes]: "SLOAD = 0x54"

definition SSTORE :: byte where
  [opcodes]: "SSTORE = 0x55"

definition JUMP :: byte where
  [opcodes]: "JUMP = 0x56"

definition JUMPI :: byte where
  [opcodes]: "JUMPI = 0x57"

definition PC :: byte where
  [opcodes]: "PC = 0x58"

definition MSIZE :: byte where
  [opcodes]: "MSIZE = 0x59"

definition GAS :: byte where
  [opcodes]: "GAS = 0x5a"

definition JUMPDEST :: byte where
  [opcodes]: "JUMPDEST = 0x5b"

definition BEGINSUB :: byte where
  [opcodes]: "BEGINSUB = 0x5c"

definition RETURNSUB :: byte where
  [opcodes]: "RETURNSUB = 0x5d"

definition JUMPSUB :: byte where
  [opcodes]: "JUMPSUB = 0x5e"

definition PUSH1 :: byte where
  [opcodes]: "PUSH1 = 0x60"

definition PUSH2 :: byte where
  [opcodes]: "PUSH2 = 0x61"

definition PUSH3 :: byte where
  [opcodes]: "PUSH3 = 0x62"

definition PUSH4 :: byte where
  [opcodes]: "PUSH4 = 0x63"

definition PUSH5 :: byte where
  [opcodes]: "PUSH5 = 0x64"

definition PUSH6 :: byte where
  [opcodes]: "PUSH6 = 0x65"

definition PUSH7 :: byte where
  [opcodes]: "PUSH7 = 0x66"

definition PUSH8 :: byte where
  [opcodes]: "PUSH8 = 0x67"

definition PUSH9 :: byte where
  [opcodes]: "PUSH9 = 0x68"

definition PUSH10 :: byte where
  [opcodes]: "PUSH10 = 0x69"

definition PUSH11 :: byte where
  [opcodes]: "PUSH11 = 0x6a"

definition PUSH12 :: byte where
  [opcodes]: "PUSH12 = 0x6b"

definition PUSH13 :: byte where
  [opcodes]: "PUSH13 = 0x6c"

definition PUSH14 :: byte where
  [opcodes]: "PUSH14 = 0x6d"

definition PUSH15 :: byte where
  [opcodes]: "PUSH15 = 0x6e"

definition PUSH16 :: byte where
  [opcodes]: "PUSH16 = 0x6f"

definition PUSH17 :: byte where
  [opcodes]: "PUSH17 = 0x70"

definition PUSH18 :: byte where
  [opcodes]: "PUSH18 = 0x71"

definition PUSH19 :: byte where
  [opcodes]: "PUSH19 = 0x72"

definition PUSH20 :: byte where
  [opcodes]: "PUSH20 = 0x73"

definition PUSH21 :: byte where
  [opcodes]: "PUSH21 = 0x74"

definition PUSH22 :: byte where
  [opcodes]: "PUSH22 = 0x75"

definition PUSH23 :: byte where
  [opcodes]: "PUSH23 = 0x76"

definition PUSH24 :: byte where
  [opcodes]: "PUSH24 = 0x77"

definition PUSH25 :: byte where
  [opcodes]: "PUSH25 = 0x78"

definition PUSH26 :: byte where
  [opcodes]: "PUSH26 = 0x79"

definition PUSH27 :: byte where
  [opcodes]: "PUSH27 = 0x7a"

definition PUSH28 :: byte where
  [opcodes]: "PUSH28 = 0x7b"

definition PUSH29 :: byte where
  [opcodes]: "PUSH29 = 0x7c"

definition PUSH30 :: byte where
  [opcodes]: "PUSH30 = 0x7d"

definition PUSH31 :: byte where
  [opcodes]: "PUSH31 = 0x7e"

definition PUSH32 :: byte where
  [opcodes]: "PUSH32 = 0x7f"

definition DUP1 :: byte where
  [opcodes]: "DUP1 = 0x80"

definition DUP2 :: byte where
  [opcodes]: "DUP2 = 0x81"

definition DUP3 :: byte where
  [opcodes]: "DUP3 = 0x82"

definition DUP4 :: byte where
  [opcodes]: "DUP4 = 0x83"

definition DUP5 :: byte where
  [opcodes]: "DUP5 = 0x84"

definition DUP6 :: byte where
  [opcodes]: "DUP6 = 0x85"

definition DUP7 :: byte where
  [opcodes]: "DUP7 = 0x86"

definition DUP8 :: byte where
  [opcodes]: "DUP8 = 0x87"

definition DUP9 :: byte where
  [opcodes]: "DUP9 = 0x88"

definition DUP10 :: byte where
  [opcodes]: "DUP10 = 0x89"

definition DUP11 :: byte where
  [opcodes]: "DUP11 = 0x8a"

definition DUP12 :: byte where
  [opcodes]: "DUP12 = 0x8b"

definition DUP13 :: byte where
  [opcodes]: "DUP13 = 0x8c"

definition DUP14 :: byte where
  [opcodes]: "DUP14 = 0x8d"

definition DUP15 :: byte where
  [opcodes]: "DUP15 = 0x8e"

definition DUP16 :: byte where
  [opcodes]: "DUP16 = 0x8f"

definition SWAP1 :: byte where
  [opcodes]: "SWAP1 = 0x90"

definition SWAP2 :: byte where
  [opcodes]: "SWAP2 = 0x91"

definition SWAP3 :: byte where
  [opcodes]: "SWAP3 = 0x92"

definition SWAP4 :: byte where
  [opcodes]: "SWAP4 = 0x93"

definition SWAP5 :: byte where
  [opcodes]: "SWAP5 = 0x94"

definition SWAP6 :: byte where
  [opcodes]: "SWAP6 = 0x95"

definition SWAP7 :: byte where
  [opcodes]: "SWAP7 = 0x96"

definition SWAP8 :: byte where
  [opcodes]: "SWAP8 = 0x97"

definition SWAP9 :: byte where
  [opcodes]: "SWAP9 = 0x98"

definition SWAP10 :: byte where
  [opcodes]: "SWAP10 = 0x99"

definition SWAP11 :: byte where
  [opcodes]: "SWAP11 = 0x9a"

definition SWAP12 :: byte where
  [opcodes]: "SWAP12 = 0x9b"

definition SWAP13 :: byte where
  [opcodes]: "SWAP13 = 0x9c"

definition SWAP14 :: byte where
  [opcodes]: "SWAP14 = 0x9d"

definition SWAP15 :: byte where
  [opcodes]: "SWAP15 = 0x9e"

definition SWAP16 :: byte where
  [opcodes]: "SWAP16 = 0x9f"

definition LOG0 :: byte where
  [opcodes]: "LOG0 = 0xa0"

definition LOG1 :: byte where
  [opcodes]: "LOG1 = 0xa1"

definition LOG2 :: byte where
  [opcodes]: "LOG2 = 0xa2"

definition LOG3 :: byte where
  [opcodes]: "LOG3 = 0xa3"

definition LOG4 :: byte where
  [opcodes]: "LOG4 = 0xa4"

definition CREATE :: byte where
  [opcodes]: "CREATE = 0xf0"

definition CALL :: byte where
  [opcodes]: "CALL = 0xf1"

definition CALLCODE :: byte where
  [opcodes]: "CALLCODE = 0xf2"

definition RETURN :: byte where
  [opcodes]: "RETURN = 0xf3"

definition DELEGATECALL :: byte where
  [opcodes]: "DELEGATECALL = 0xf4"

definition CREATE2 :: byte where
  [opcodes]: "CREATE2 = 0xf5"

definition STATICCALL :: byte where
  [opcodes]: "STATICCALL = 0xfa"

definition REVERT :: byte where
  [opcodes]: "REVERT = 0xfd"

definition SELFDESTRUCT :: byte where
  [opcodes]: "SELFDESTRUCT = 0xff"

definition IsPush :: "byte \<Rightarrow> bool" where
  "IsPush op \<longleftrightarrow> op \<in> {PUSH1, PUSH2, PUSH3, PUSH4, PUSH5, PUSH6, PUSH7, PUSH8, PUSH9, PUSH10,
     PUSH11, PUSH12, PUSH13, PUSH14, PUSH15, PUSH16, PUSH17, PUSH18, PUSH19, PUSH20, PUSH21,
     PUSH22, PUSH23, PUSH24, PUSH25, PUSH26, PUSH27, PUSH28, PUSH29, PUSH30, PUSH31, PUSH32}"

end
