(* ===== verification/RLP.thy ===== *)
theory RLP
  imports Prelude
begin

text \<open>
  The RLP encoder of \<^verbatim>\<open>rlp/encode.go\<close>. The encoder writes string data and list headers to
  separate buffers, because the size of a list is known only when its content is written, and
  merges them at the end (\<^verbatim>\<open>encbuf\<close>). \<open>rlpEnc\<close> is the encoding of the specification, written
  the obvious way; the theorem is that the encoder computes it.

  Go values are seen through the writer that reflection picks for them (\<open>rlpVal\<close>). Lengths are
  Go \<^verbatim>\<open>int\<close>s, here natural numbers; the theorems ask for encodings below \<open>2 ^ 63\<close> bytes.
\<close>

subsection \<open>Integers and headers\<close>

definition putint :: "u64 \<Rightarrow> bytes" where
  "putint i =
     (if i < 2 ^ 8 then [ucast i]
      else if i < 2 ^ 16 then [ucast (drop_bit 8 i), ucast i]
      else if i < 2 ^ 24 then [ucast (drop_bit 16 i), ucast (drop_bit 8 i), ucast i]
      else if i < 2 ^ 32 then
        [ucast (drop_bit 24 i), ucast (drop_bit 16 i), ucast (drop_bit 8 i), ucast i]
      else if i < 2 ^ 40 then
        [ucast (drop_bit 32 i), ucast (drop_bit 24 i), ucast (drop_bit 16 i), ucast (drop_bit 8 i), ucast i]
      else if i < 2 ^ 48 then
        [ucast (drop_bit 40 i), ucast (drop_bit 32 i), ucast (drop_bit 24 i), ucast (drop_bit 16 i),
         ucast (drop_bit 8 i), ucast i]
      else if i < 2 ^ 56 then
        [ucast (drop_bit 48 i), ucast (drop_bit 40 i), ucast (drop_bit 32 i), ucast (drop_bit 24 i),
         ucast (drop_bit 16 i), ucast (drop_bit 8 i), ucast i]
      else
        [ucast (drop_bit 56 i), ucast (drop_bit 48 i), ucast (drop_bit 40 i), ucast (drop_bit 32 i),
         ucast (drop_bit 24 i), ucast (drop_bit 16 i), ucast (drop_bit 8 i), ucast i])"

function intsize :: "u64 \<Rightarrow> nat" where
  "intsize i = (let i' = drop_bit 8 i in if i' = 0 then 1 else Suc (intsize i'))"
  by auto
termination
proof (relation "measure unat")
  fix i i' :: u64
  assume i': "i' = drop_bit 8 i" "i' \<noteq> 0"
  have "unat i' = unat i div 256" by (simp only: i'(1) unat_drop_bit_eq) (simp add: drop_bit_eq_div)
  moreover have "i \<noteq> 0" using i' by auto
  then have "unat i \<noteq> 0" by (simp add: unat_eq_0)
  ultimately show "(i', i) \<in> measure unat" by simp
qed simp

declare intsize.simps [simp del]

definition headsize :: "u64 \<Rightarrow> nat" where
  "headsize n = (if n < 56 then 1 else 1 + intsize n)"

definition puthead :: "byte \<Rightarrow> byte \<Rightarrow> u64 \<Rightarrow> bytes" where
  "puthead smalltag largetag n =
     (if n < 56 then [smalltag + ucast n]
      else let s = putint n in (largetag + of_nat (length s)) # s)"

subsection \<open>The encoder buffer\<close>

record listhead =
  offset :: nat
  lsize :: nat

record encbuf =
  str :: bytes
  lheads :: "listhead list"
  lhsize :: nat

definition emptybuf :: encbuf where
  "emptybuf = \<lparr>str = [], lheads = [], lhsize = 0\<rparr>"

definition encode_head :: "listhead \<Rightarrow> bytes" where
  "encode_head h = puthead 0xC0 0xF7 (of_nat (lsize h))"

definition emit :: "bytes \<Rightarrow> encbuf \<Rightarrow> encbuf" where
  "emit b w = w\<lparr>str := str w @ b\<rparr>"

definition encodeStringHeader :: "nat \<Rightarrow> encbuf \<Rightarrow> encbuf" where
  "encodeStringHeader n w =
     (if n < 56 then emit [0x80 + of_nat n] w
      else let s = putint (of_nat n) in emit ((0xB7 + of_nat (length s)) # s) w)"

definition encodeString :: "bytes \<Rightarrow> encbuf \<Rightarrow> encbuf" where
  "encodeString b w =
     (if length b = 1 \<and> b ! 0 \<le> 0x7F then emit [b ! 0] w
      else emit b (encodeStringHeader (length b) w))"

definition encodeUint :: "u64 \<Rightarrow> encbuf \<Rightarrow> encbuf" where
  "encodeUint i w =
     (if i = 0 then emit [0x80] w
      else if i < 128 then emit [ucast i] w
      else let s = putint i in emit ((0x80 + of_nat (length s)) # s) w)"

definition bufSize :: "encbuf \<Rightarrow> nat" where
  "bufSize w = length (str w) + lhsize w"

definition list_begin :: "encbuf \<Rightarrow> nat \<times> encbuf" where
  "list_begin w =
     (let w' = w\<lparr>lheads := lheads w @ [\<lparr>offset = length (str w), lsize = lhsize w\<rparr>]\<rparr>
      in (length (lheads w') - 1, w'))"

definition listEnd :: "nat \<Rightarrow> encbuf \<Rightarrow> encbuf" where
  "listEnd index w =
     (let lh = lheads w ! index;
          sz = bufSize w - offset lh - lsize lh;
          w' = w\<lparr>lheads := (lheads w)[index := lh\<lparr>lsize := sz\<rparr>]\<rparr>
      in w'\<lparr>lhsize := lhsize w' + (if sz < 56 then 1 else 1 + intsize (of_nat sz))\<rparr>)"

text \<open>The loop of \<^verbatim>\<open>toBytes\<close> over the headers, from position \<open>strpos\<close> of the string data.\<close>

primrec mergeHeads :: "bytes \<Rightarrow> listhead list \<Rightarrow> nat \<Rightarrow> bytes" where
  "mergeHeads s [] strpos = drop strpos s"
| "mergeHeads s (h # hs) strpos =
     take (offset h - strpos) (drop strpos s) @ encode_head h @ mergeHeads s hs (offset h)"

definition toBytes :: "encbuf \<Rightarrow> bytes" where
  "toBytes w = mergeHeads (str w) (lheads w) 0"

subsection \<open>Values and their writers\<close>

datatype rlp_error = NegativeBigInt

datatype rlpVal =
    RawValue bytes
  | RUint u64
  | RBool bool
  | RBigInt "int option"
  | RBytes bytes
  | RByteArray bytes
  | RString bytes
  | RNilInterface
  | RNilPtr bool
  | RSlice "rlpVal list"
  | RStruct "rlpVal list"

text \<open>The minimal big-endian form of a positive number.\<close>

function minBytes :: "nat \<Rightarrow> bytes" where
  "minBytes n = (if n = 0 then [] else minBytes (n div 256) @ [of_nat n])"
  by auto
termination by (relation "measure id") auto

declare minBytes.simps [simp del]

definition writeBigInt :: "int \<Rightarrow> encbuf \<Rightarrow> rlp_error + encbuf" where
  "writeBigInt i w =
     (if i < 0 then Inl NegativeBigInt
      else if nat i < 2 ^ 64 then Inr (encodeUint (of_int i) w)
      else let b = minBytes (nat i) in Inr (emit b (encodeStringHeader (length b) w)))"

definition writeByteArray :: "bytes \<Rightarrow> encbuf \<Rightarrow> encbuf" where
  "writeByteArray b w =
     (if length b = 0 then emit [0x80] w
      else if length b = 1 then (if b ! 0 \<le> 0x7F then emit [b ! 0] w else emit [0x81, b ! 0] w)
      else emit b (encodeStringHeader (length b) w))"

fun encodeVal :: "rlpVal \<Rightarrow> encbuf \<Rightarrow> rlp_error + encbuf"
  and encodeVals :: "rlpVal list \<Rightarrow> encbuf \<Rightarrow> rlp_error + encbuf" where
  "encodeVal (RawValue b) w = Inr (emit b w)"
| "encodeVal (RUint i) w = Inr (encodeUint i w)"
| "encodeVal (RBool b) w = Inr (emit [if b then 0x01 else 0x80] w)"
| "encodeVal (RBigInt None) w = Inr (emit [0x80] w)"
| "encodeVal (RBigInt (Some i)) w = writeBigInt i w"
| "encodeVal (RBytes b) w = Inr (encodeString b w)"
| "encodeVal (RByteArray b) w = Inr (writeByteArray b w)"
| "encodeVal (RString s) w = Inr (encodeString s w)"
| "encodeVal RNilInterface w = Inr (emit [0xC0] w)"
| "encodeVal (RNilPtr isString) w =
     Inr (if isString then emit [0x80] w else (case list_begin w of (i, w') \<Rightarrow> listEnd i w'))"
| "encodeVal (RSlice vs) w =
     (case list_begin w of (i, w') \<Rightarrow> rbind (encodeVals vs w') (\<lambda>w''. Inr (listEnd i w'')))"
| "encodeVal (RStruct vs) w =
     (case list_begin w of (i, w') \<Rightarrow> rbind (encodeVals vs w') (\<lambda>w''. Inr (listEnd i w'')))"
| "encodeVals [] w = Inr w"
| "encodeVals (v # vs) w = rbind (encodeVal v w) (encodeVals vs)"

definition EncodeToBytes :: "rlpVal \<Rightarrow> rlp_error + bytes" where
  "EncodeToBytes v = rbind (encodeVal v emptybuf) (\<lambda>w. Inr (toBytes w))"

subsection \<open>The encoding of the specification\<close>

definition rlpHead :: "nat \<Rightarrow> nat \<Rightarrow> nat \<Rightarrow> bytes" where
  "rlpHead small large n =
     (if n < 56 then [of_nat (small + n)]
      else of_nat (large + length (minBytes n)) # minBytes n)"

definition rlpString :: "bytes \<Rightarrow> bytes" where
  "rlpString b = (if length b = 1 \<and> b ! 0 < 0x80 then b else rlpHead 0x80 0xB7 (length b) @ b)"

fun rlpEnc :: "rlpVal \<Rightarrow> bytes" where
  "rlpEnc (RawValue b) = b"
| "rlpEnc (RUint i) = rlpString (minBytes (unat i))"
| "rlpEnc (RBool b) = rlpString (if b then [1] else [])"
| "rlpEnc (RBigInt i) = rlpString (case i of None \<Rightarrow> [] | Some n \<Rightarrow> minBytes (nat n))"
| "rlpEnc (RBytes b) = rlpString b"
| "rlpEnc (RByteArray b) = rlpString b"
| "rlpEnc (RString b) = rlpString b"
| "rlpEnc RNilInterface = rlpHead 0xC0 0xF7 0"
| "rlpEnc (RNilPtr isString) = (if isString then rlpString [] else rlpHead 0xC0 0xF7 0)"
| "rlpEnc (RSlice vs) = (let c = concat (map rlpEnc vs) in rlpHead 0xC0 0xF7 (length c) @ c)"
| "rlpEnc (RStruct vs) = (let c = concat (map rlpEnc vs) in rlpHead 0xC0 0xF7 (length c) @ c)"

fun encodable :: "rlpVal \<Rightarrow> bool" where
  "encodable (RBigInt (Some i)) = (0 \<le> i)"
| "encodable (RSlice vs) = (\<forall>v \<in> set vs. encodable v)"
| "encodable (RStruct vs) = (\<forall>v \<in> set vs. encodable v)"
| "encodable _ = True"

subsection \<open>Integers\<close>

lemma minBytes_0 [simp]: "minBytes 0 = []"
  by (simp add: minBytes.simps)

lemma minBytes_pos: "0 < n \<Longrightarrow> minBytes n = minBytes (n div 256) @ [of_nat n]"
  by (subst minBytes.simps) simp

lemma minBytes_small: "0 < n \<Longrightarrow> n < 256 \<Longrightarrow> minBytes n = [of_nat n]"
  by (simp add: minBytes_pos)

lemma from_be_minBytes [simp]: "from_be (minBytes n) = n"
proof (induction n rule: minBytes.induct)
  case (1 n)
  show ?case
  proof (cases "n = 0")
    case False
    have "unat (of_nat n :: byte) = n mod 256" by (simp add: unat_of_nat take_bit_eq_mod)
    with False 1 show ?thesis by (simp add: minBytes_pos)
  qed simp
qed

lemma minBytes_hd: "0 < n \<Longrightarrow> hd (minBytes n) \<noteq> 0"
proof (induction n rule: minBytes.induct)
  case (1 n)
  show ?case
  proof (cases "n < 256")
    case True
    then have "(of_nat n :: byte) \<noteq> 0" using 1(2) by (simp add: word_of_nat_eq_0_iff nat_dvd_not_less)
    with True 1(2) show ?thesis by (simp add: minBytes_small)
  next
    case False
    then have "0 < n div 256" by (simp add: div_greater_zero_iff)
    with 1 have "hd (minBytes (n div 256)) \<noteq> 0" by simp
    moreover have "minBytes (n div 256) \<noteq> []" using \<open>0 < n div 256\<close> by (simp add: minBytes_pos)
    ultimately show ?thesis using 1(2) by (simp add: minBytes_pos [of n])
  qed
qed

lemma drop_bit_of_nat: "n < 2 ^ 64 \<Longrightarrow> drop_bit k (of_nat n :: u64) = of_nat (n div 2 ^ k)"
proof -
  assume n: "n < 2 ^ 64"
  have "n div 2 ^ k < 2 ^ 64" using n by (meson div_le_dividend le_less_trans)
  then show ?thesis
    using n by (simp add: word_unat_eq_iff unat_drop_bit_eq unat_of_nat take_bit_eq_mod) (simp add: drop_bit_eq_div)
qed

lemma ucast_of_nat_byte: "ucast (of_nat n :: u64) = (of_nat n :: byte)"
  by (rule bit_word_eqI) (auto simp: bit_simps)

lemma of_nat_less_u64: "n < 2 ^ 64 \<Longrightarrow> (of_nat n :: u64) < of_nat m \<longleftrightarrow> n < m" if "m < 2 ^ 64"
  using that by (simp add: word_less_nat_alt unat_of_nat take_bit_eq_mod)

lemma minBytes_digits:
  "256 ^ k \<le> n \<Longrightarrow> n < 256 ^ Suc k \<Longrightarrow>
     minBytes n = map (\<lambda>i. of_nat (n div 256 ^ i)) (rev [0..<Suc k])"
proof (induction k arbitrary: n)
  case 0
  then show ?case by (simp add: minBytes_small)
next
  case (Suc k)
  have d: "256 ^ k \<le> n div 256" "n div 256 < 256 ^ Suc k"
    using Suc.prems by (simp_all add: less_eq_div_iff_mult_less_eq div_less_iff_less_mult mult.commute)
  have "0 < n" using Suc.prems(1) by (metis gr0I not_less zero_less_numeral zero_less_power)
  moreover have "n div 256 div 256 ^ i = n div 256 ^ Suc i" for i by (simp add: div_mult2_eq)
  moreover have "rev [0..<Suc (Suc k)] = map Suc (rev [0..<Suc k]) @ [0]"
    by (simp only: rev_map [symmetric] map_Suc_upt upt_conv_Cons [of 0 "Suc (Suc k)"]) simp
  ultimately show ?case using Suc.IH [OF d] by (simp only: minBytes_pos) (simp add: comp_def)
qed

lemma putint_minBytes:
  assumes "0 < n" "n < 2 ^ 64"
  shows "putint (of_nat n) = minBytes n"
proof -
  have lt: "(of_nat n :: u64) < 2 ^ k \<longleftrightarrow> n < 2 ^ k" if "k < 64" for k
  proof -
    have "(2::nat) ^ k < 2 ^ 64" by (rule power_strict_increasing) (use that in simp_all)
    then show ?thesis using of_nat_less_u64 [of "2 ^ k" n] assms by simp
  qed
  have e: "ucast (drop_bit k (of_nat n :: u64)) = (of_nat (n div 2 ^ k) :: byte)" for k
    by (simp only: drop_bit_of_nat [OF assms(2)] ucast_of_nat_byte)
  have c: "n < 2 ^ 8 \<or> 2 ^ 8 \<le> n \<and> n < 2 ^ 16 \<or> 2 ^ 16 \<le> n \<and> n < 2 ^ 24 \<or> 2 ^ 24 \<le> n \<and> n < 2 ^ 32 \<or>
      2 ^ 32 \<le> n \<and> n < 2 ^ 40 \<or> 2 ^ 40 \<le> n \<and> n < 2 ^ 48 \<or> 2 ^ 48 \<le> n \<and> n < 2 ^ 56 \<or> 2 ^ 56 \<le> n \<and> n < 2 ^ 64"
    using assms(2) by linarith
  have r: "rev [0..<Suc 1] = [1, 0]" "rev [0..<Suc 2] = [2, 1, 0]" "rev [0..<Suc 3] = [3, 2, 1, 0]"
    "rev [0..<Suc 4] = [4, 3, 2, 1, 0]" "rev [0..<Suc 5] = [5, 4, 3, 2, 1, 0]"
    "rev [0..<Suc 6] = [6, 5, 4, 3, 2, 1, 0]" "rev [0..<Suc 7] = [7, 6, 5, 4, 3, 2, 1, 0]"
    by code_simp+
  note lts = lt [of 8, simplified] lt [of 16, simplified] lt [of 24, simplified] lt [of 32, simplified]
    lt [of 40, simplified] lt [of 48, simplified] lt [of 56, simplified]
  from c show ?thesis
  proof (elim disjE conjE)
    assume "n < 2 ^ 8"
    with assms(1) show ?thesis unfolding putint_def e ucast_of_nat_byte by (simp add: minBytes_small lts)
  next
    assume n: "2 ^ 8 \<le> n" "n < 2 ^ 16"
    with minBytes_digits [of 1 n, unfolded r] show ?thesis unfolding putint_def e ucast_of_nat_byte by (simp add: lts)
  next
    assume n: "2 ^ 16 \<le> n" "n < 2 ^ 24"
    with minBytes_digits [of 2 n, unfolded r] show ?thesis unfolding putint_def e ucast_of_nat_byte by (simp add: lts)
  next
    assume n: "2 ^ 24 \<le> n" "n < 2 ^ 32"
    with minBytes_digits [of 3 n, unfolded r] show ?thesis unfolding putint_def e ucast_of_nat_byte by (simp add: lts)
  next
    assume n: "2 ^ 32 \<le> n" "n < 2 ^ 40"
    with minBytes_digits [of 4 n, unfolded r] show ?thesis unfolding putint_def e ucast_of_nat_byte by (simp add: lts)
  next
    assume n: "2 ^ 40 \<le> n" "n < 2 ^ 48"
    with minBytes_digits [of 5 n, unfolded r] show ?thesis unfolding putint_def e ucast_of_nat_byte by (simp add: lts)
  next
    assume n: "2 ^ 48 \<le> n" "n < 2 ^ 56"
    with minBytes_digits [of 6 n, unfolded r] show ?thesis unfolding putint_def e ucast_of_nat_byte by (simp add: lts)
  next
    assume n: "2 ^ 56 \<le> n" "n < 2 ^ 64"
    with minBytes_digits [of 7 n, unfolded r] show ?thesis unfolding putint_def e ucast_of_nat_byte by (simp add: lts)
  qed
qed

lemma intsize_minBytes:
  "0 < n \<Longrightarrow> n < 2 ^ 64 \<Longrightarrow> intsize (of_nat n) = length (minBytes n)"
proof (induction n rule: minBytes.induct)
  case (1 n)
  have d: "drop_bit 8 (of_nat n :: u64) = of_nat (n div 256)"
    using drop_bit_of_nat [OF 1(3), of 8] by simp
  have lt: "n div 256 < 2 ^ 64" using 1(3) by (meson div_le_dividend le_less_trans)
  then have z: "(of_nat (n div 256) :: u64) = 0 \<longleftrightarrow> n div 256 = 0"
    by (simp add: word_unat_eq_iff unat_of_nat take_bit_eq_mod)
  show ?case
  proof (cases "n div 256 = 0")
    case True
    with 1(2) show ?thesis by (subst intsize.simps) (simp add: d z minBytes_pos)
  next
    case False
    with 1 lt have "intsize (of_nat (n div 256)) = length (minBytes (n div 256))" by simp
    with False 1(2) show ?thesis
      by (subst intsize.simps) (simp only: d z minBytes_pos Let_def, simp)
  qed
qed

lemma puthead_rlpHead:
  "n < 2 ^ 64 \<Longrightarrow> puthead (of_nat small) (of_nat large) (of_nat n) = rlpHead small large n"
  using of_nat_less_u64 [of 56 n] putint_minBytes [of n]
  by (cases "n < 56") (simp_all add: puthead_def rlpHead_def ucast_of_nat_byte Let_def)

lemma length_rlpHead: "n < 2 ^ 64 \<Longrightarrow> length (rlpHead small large n) = (if n < 56 then 1 else 1 + intsize (of_nat n))"
  by (simp add: rlpHead_def intsize_minBytes)

lemma encode_head_rlpHead: "lsize h < 2 ^ 64 \<Longrightarrow> encode_head h = rlpHead 0xC0 0xF7 (lsize h)"
  using puthead_rlpHead [of "lsize h" "0xC0" "0xF7"] by (simp add: encode_head_def)

subsection \<open>Merging the buffers\<close>

primrec headsIn :: "nat \<Rightarrow> nat \<Rightarrow> listhead list \<Rightarrow> bool" where
  "headsIn lo hi [] = (lo \<le> hi)"
| "headsIn lo hi (h # hs) = (lo \<le> offset h \<and> headsIn (offset h) hi hs)"

lemma headsIn_le: "headsIn lo hi hs \<Longrightarrow> lo \<le> hi"
  by (induction hs arbitrary: lo) (auto intro: le_trans)

lemma headsIn_append: "headsIn lo mid hs \<Longrightarrow> headsIn mid hi hs' \<Longrightarrow> headsIn lo hi (hs @ hs')"
proof (induction hs arbitrary: lo)
  case Nil
  then show ?case by (cases hs') auto
qed auto

lemma mergeHeads_front:
  "headsIn (length x) hi hs \<Longrightarrow> p \<le> length x \<Longrightarrow>
     mergeHeads (x @ y) hs p = drop p x @ mergeHeads (x @ y) hs (length x)"
  by (cases hs) auto

lemma mergeHeads_append:
  "headsIn p (length x) hs \<Longrightarrow> headsIn (length x) hi hs' \<Longrightarrow>
     mergeHeads (x @ y) (hs @ hs') p = mergeHeads x hs p @ mergeHeads (x @ y) hs' (length x)"
proof (induction hs arbitrary: p)
  case Nil
  then show ?case using mergeHeads_front [of x hi hs' p y] by simp
next
  case (Cons h hs)
  then show ?case using headsIn_le [of "offset h" "length x" hs] by simp
qed

text \<open>\<open>wrote w w' out\<close>: between \<open>w\<close> and \<open>w'\<close> the encoder wrote \<open>out\<close>.\<close>

definition wrote :: "encbuf \<Rightarrow> encbuf \<Rightarrow> bytes \<Rightarrow> bool" where
  "wrote w w' out \<longleftrightarrow>
     (\<exists>s hs. str w' = str w @ s \<and> lheads w' = lheads w @ hs
        \<and> headsIn (length (str w)) (length (str w')) hs
        \<and> mergeHeads (str w') hs (length (str w)) = out
        \<and> length out + lhsize w = length s + lhsize w')"

lemma wrote_emit: "wrote w (emit b w) b"
  by (auto simp: wrote_def emit_def)

lemma wrote_refl: "wrote w w []"
  by (auto simp: wrote_def)

lemma wrote_trans:
  assumes "wrote w w1 a" "wrote w1 w2 b"
  shows "wrote w w2 (a @ b)"
proof -
  from assms(1) obtain s hs where 1: "str w1 = str w @ s" "lheads w1 = lheads w @ hs"
    "headsIn (length (str w)) (length (str w1)) hs" "mergeHeads (str w1) hs (length (str w)) = a"
    "length a + lhsize w = length s + lhsize w1" unfolding wrote_def by blast
  from assms(2) obtain s' hs' where 2: "str w2 = str w1 @ s'" "lheads w2 = lheads w1 @ hs'"
    "headsIn (length (str w1)) (length (str w2)) hs'" "mergeHeads (str w2) hs' (length (str w1)) = b"
    "length b + lhsize w1 = length s' + lhsize w2" unfolding wrote_def by blast
  have "mergeHeads (str w2) (hs @ hs') (length (str w)) = a @ b"
    using mergeHeads_append [OF 1(3) 2(3), of s'] 1(4) 2(1,4) by simp
  moreover have "headsIn (length (str w)) (length (str w2)) (hs @ hs')"
    using headsIn_append [OF 1(3) 2(3)] .
  ultimately show ?thesis
    unfolding wrote_def using 1 2 by (intro exI [of _ "s @ s'"] exI [of _ "hs @ hs'"]) simp
qed

lemma wrote_list:
  assumes "list_begin w = (i, w1)" "wrote w1 w2 c" "length c < 2 ^ 63"
  shows "wrote w (listEnd i w2) (rlpHead 0xC0 0xF7 (length c) @ c)"
proof -
  have w1: "i = length (lheads w)" "str w1 = str w" "lhsize w1 = lhsize w"
    "lheads w1 = lheads w @ [\<lparr>offset = length (str w), lsize = lhsize w\<rparr>]"
    using assms(1) by (auto simp: list_begin_def Let_def)
  from assms(2) obtain s hs where 2: "str w2 = str w @ s"
    "lheads w2 = lheads w @ \<lparr>offset = length (str w), lsize = lhsize w\<rparr> # hs"
    "headsIn (length (str w)) (length (str w2)) hs" "mergeHeads (str w2) hs (length (str w)) = c"
    "length c + lhsize w = length s + lhsize w2" unfolding wrote_def w1 by auto
  let ?h = "\<lparr>offset = length (str w), lsize = length c\<rparr>"
  have sz: "bufSize w2 - length (str w) - lhsize w = length c" using 2(1,5) by (simp add: bufSize_def)
  have e: "lheads (listEnd i w2) = lheads w @ ?h # hs" "str (listEnd i w2) = str w2"
    "lhsize (listEnd i w2) = lhsize w2 + length (rlpHead 0xC0 0xF7 (length c))"
    using assms(3) 2(2) w1(1) sz by (simp_all add: listEnd_def Let_def nth_append length_rlpHead)
  have "encode_head ?h = rlpHead 0xC0 0xF7 (length c)"
    using assms(3) by (subst encode_head_rlpHead) simp_all
  with e 2 show ?thesis
    unfolding wrote_def by (intro exI [of _ s] exI [of _ "?h # hs"]) simp
qed

subsection \<open>The encoder computes the specification\<close>

lemma wrote_header:
  "n < 2 ^ 63 \<Longrightarrow> wrote w (encodeStringHeader n w) (rlpHead 0x80 0xB7 n)"
  using wrote_emit [of w] putint_minBytes [of n]
  by (cases "n < 56") (simp_all add: encodeStringHeader_def rlpHead_def Let_def)

lemma byte_le_7F: "(x :: byte) \<le> 0x7F \<longleftrightarrow> x < 0x80"
  by (auto simp: word_le_nat_alt word_less_nat_alt)

lemma wrote_encodeString: "length b < 2 ^ 63 \<Longrightarrow> wrote w (encodeString b w) (rlpString b)"
proof -
  assume len: "length b < 2 ^ 63"
  note le = byte_le_7F
  show ?thesis
  proof (cases "length b = 1 \<and> b ! 0 < 0x80")
    case True
    then have "b = [b ! 0]" by (cases b) auto
    with True show ?thesis using wrote_emit [of w b] by (simp add: encodeString_def rlpString_def le)
  next
    case False
    then show ?thesis
      using wrote_trans [OF wrote_header [OF len, of w] wrote_emit] by (auto simp: encodeString_def rlpString_def le)
  qed
qed

lemma length_minBytes_u64: "n < 2 ^ 64 \<Longrightarrow> length (minBytes n) \<le> 8"
proof -
  assume n: "n < 2 ^ 64"
  have "length (minBytes m) \<le> k" if "m < 256 ^ k" for m k
    using that
  proof (induction k arbitrary: m)
    case (Suc k)
    show ?case
    proof (cases "m = 0")
      case False
      from Suc.prems have "m div 256 < 256 ^ k" by (simp add: div_less_iff_less_mult mult.commute)
      from Suc.IH [OF this] False show ?thesis by (simp add: minBytes_pos)
    qed simp
  qed simp
  from this [of n 8] n show ?thesis by simp
qed

lemma wrote_encodeUint: "wrote w (encodeUint i w) (rlpString (minBytes (unat i)))"
proof -
  define n where "n = unat i"
  have i: "i = of_nat n" and n: "n < 2 ^ 64" using unsigned_less [of i] by (simp_all add: n_def)
  have lt: "i < 128 \<longleftrightarrow> n < 128" unfolding i using of_nat_less_u64 [of 128 n] n by simp
  have z: "i = 0 \<longleftrightarrow> n = 0" by (simp add: n_def unat_eq_0)
  consider "n = 0" | "0 < n" "n < 128" | "128 \<le> n" by linarith
  then show ?thesis
  proof cases
    case 1
    with z show ?thesis using wrote_emit [of w "[0x80]"] by (simp add: encodeUint_def rlpString_def rlpHead_def)
  next
    case 2
    have "unat (of_nat n :: byte) = n" using 2 by (simp add: unat_of_nat take_bit_eq_mod)
    then have "(of_nat n :: byte) < 0x80" using 2 by (simp add: word_less_nat_alt)
    moreover have "ucast i = (of_nat n :: byte)" by (simp add: i ucast_of_nat_byte)
    ultimately show ?thesis
      using wrote_emit [of w "[of_nat n]"] 2 z lt
      by (simp add: encodeUint_def rlpString_def minBytes_small n_def [symmetric])
  next
    case 3
    let ?b = "minBytes n"
    have p: "putint i = ?b" using putint_minBytes [of n] 3 n by (simp add: i)
    have "\<not> ?b ! 0 < 0x80" if "length ?b = 1"
    proof -
      have "n div 256 = 0"
      proof (rule ccontr)
        assume "n div 256 \<noteq> 0"
        then have "length (minBytes (n div 256)) > 0" by (simp add: minBytes_pos)
        with that 3 show False by (simp add: minBytes_pos)
      qed
      then have "n < 256" by simp
      with 3 have b: "?b = [of_nat n]" by (simp add: minBytes_small)
      have "unat (of_nat n :: byte) = n" using \<open>n < 256\<close> by (simp add: unat_of_nat take_bit_eq_mod)
      with 3 b show ?thesis by (simp add: word_less_nat_alt)
    qed
    moreover have "length ?b \<le> 8" using length_minBytes_u64 [OF n] .
    ultimately have "rlpString (minBytes (unat i)) = (0x80 + of_nat (length ?b)) # ?b"
      by (auto simp: rlpString_def rlpHead_def n_def [symmetric])
    moreover have "encodeUint i w = emit ((0x80 + of_nat (length ?b)) # ?b) w"
      using 3 z lt p by (simp add: encodeUint_def Let_def)
    ultimately show ?thesis using wrote_emit by simp
  qed
qed

lemma minBytes_big: "2 ^ 64 \<le> n \<Longrightarrow> 1 < length (minBytes n)"
proof -
  assume n: "2 ^ 64 \<le> n"
  then have "0 < n div 256" by (simp add: div_greater_zero_iff)
  with n show ?thesis by (simp add: minBytes_pos [of n] minBytes_pos [of "n div 256"])
qed

lemma wrote_writeBigInt:
  assumes "0 \<le> i" "length (minBytes (nat i)) < 2 ^ 63"
  shows "\<exists>w'. writeBigInt i w = Inr w' \<and> wrote w w' (rlpString (minBytes (nat i)))"
proof (cases "nat i < 2 ^ 64")
  case True
  then have "unat (of_int i :: u64) = nat i"
    using assms(1) by (simp add: unat_eq_nat_uint uint_word_of_int take_bit_eq_mod) 
  with assms(1) True wrote_encodeUint [of w "of_int i"] show ?thesis by (simp add: writeBigInt_def)
next
  case False
  then have "1 < length (minBytes (nat i))" using minBytes_big by simp
  then have "rlpString (minBytes (nat i)) = rlpHead 0x80 0xB7 (length (minBytes (nat i))) @ minBytes (nat i)"
    by (simp add: rlpString_def)
  with False assms wrote_trans [OF wrote_header [OF assms(2), of w] wrote_emit] show ?thesis
    by (simp add: writeBigInt_def Let_def)
qed

lemma wrote_writeByteArray: "length b < 2 ^ 63 \<Longrightarrow> wrote w (writeByteArray b w) (rlpString b)"
proof -
  assume len: "length b < 2 ^ 63"
  consider "b = []" | x where "b = [x]" | "1 < length b"
    by (cases b; cases "tl b") auto
  then show ?thesis
  proof cases
    case 1
    then show ?thesis using wrote_emit [of w "[0x80]"] by (simp add: writeByteArray_def rlpString_def rlpHead_def)
  next
    case (2 x)
    with byte_le_7F [of x] show ?thesis
      using wrote_emit [of w "[x]"] wrote_emit [of w "[0x81, x]"]
      by (simp add: writeByteArray_def rlpString_def rlpHead_def)
  next
    case 3
    then show ?thesis
      using wrote_trans [OF wrote_header [OF len, of w] wrote_emit]
      by (auto simp: writeByteArray_def rlpString_def)
  qed
qed

lemma length_rlpString: "length b \<le> length (rlpString b)"
  by (simp add: rlpString_def)

lemma wrote_constants:
  "wrote w (emit [1] w) (rlpString [1])" "wrote w (emit [0x80] w) (rlpString [])"
  "wrote w (emit [0xC0] w) (rlpHead 0xC0 0xF7 0)"
  using wrote_emit [of w "[1]"] wrote_emit [of w "[0x80]"] wrote_emit [of w "[0xC0]"]
  by (simp_all add: rlpString_def rlpHead_def)

lemma wrote_list_ex:
  assumes "list_begin w = (i, w1)" "\<exists>w2. r = Inr w2 \<and> wrote w1 w2 c" "length c < 2 ^ 63"
  shows "\<exists>w'. rbind r (\<lambda>w2. Inr (listEnd i w2)) = Inr w' \<and> wrote w w' (rlpHead 0xC0 0xF7 (length c) @ c)"
  using assms(2) wrote_list [OF assms(1) _ assms(3)] by (auto simp: res_simps)

lemma encodeVal_correct:
  "encodable v \<Longrightarrow> length (rlpEnc v) < 2 ^ 63 \<Longrightarrow>
     \<exists>w'. encodeVal v w = Inr w' \<and> wrote w w' (rlpEnc v)"
  "(\<forall>v \<in> set vs. encodable v) \<Longrightarrow> length (concat (map rlpEnc vs)) < 2 ^ 63 \<Longrightarrow>
     \<exists>w'. encodeVals vs w = Inr w' \<and> wrote w w' (concat (map rlpEnc vs))"
proof (induction v w and vs w rule: encodeVal_encodeVals.induct)
  case (5 i w)
  then show ?case using wrote_writeBigInt [of i w] length_rlpString [of "minBytes (nat i)"] by simp
next
  case (6 b w)
  then show ?case using wrote_encodeString [of b w] length_rlpString [of b] by simp
next
  case (7 b w)
  then show ?case using wrote_writeByteArray [of b w] length_rlpString [of b] by simp
next
  case (8 b w)
  then show ?case using wrote_encodeString [of b w] length_rlpString [of b] by simp
next
  case (10 isString w)
  obtain i w1 where l: "list_begin w = (i, w1)" by (cases "list_begin w")
  show ?case using wrote_constants(2) wrote_list [OF l wrote_refl] l by simp
next
  case (11 vs w)
  obtain i w1 where l: "list_begin w = (i, w1)" by (cases "list_begin w")
  with 11 wrote_list_ex [OF l, of "encodeVals vs w1" "concat (map rlpEnc vs)"] show ?case
    by (simp add: Let_def)
next
  case (12 vs w)
  obtain i w1 where l: "list_begin w = (i, w1)" by (cases "list_begin w")
  with 12 wrote_list_ex [OF l, of "encodeVals vs w1" "concat (map rlpEnc vs)"] show ?case
    by (simp add: Let_def)
next
  case (14 v vs w)
  then obtain w1 where w1: "encodeVal v w = Inr w1" "wrote w w1 (rlpEnc v)" by auto
  with 14 obtain w2 where "encodeVals vs w1 = Inr w2" "wrote w1 w2 (concat (map rlpEnc vs))" by auto
  with w1 wrote_trans show ?case by (auto simp: res_simps)
qed (auto simp: wrote_emit wrote_encodeUint wrote_constants wrote_refl)




end
