(* ===== verification/EvmState.thy ===== *)
theory EvmState
  imports Precompiles Opcodes RLP
begin

text \<open>
  The data of a running machine: the rules and the context of a transaction (\<open>env\<close>, which never
  changes), the machine state threaded through the calls (\<open>evm\<close>), the contract being run
  (\<^verbatim>\<open>contract.go\<close>) with its jump destination analysis (\<^verbatim>\<open>analysis.go\<close>), and the call frame
  (\<^verbatim>\<open>callCtx\<close> with the program counter).

  \<^item> \<open>env\<close> joins \<^verbatim>\<open>Context\<close>, the chain rules, the parts of \<^verbatim>\<open>Config\<close> that influence execution, and
    the external code: the readers of the state database, the \<^verbatim>\<open>uint256\<close> arithmetic and the
    cryptography. \<open>abort n\<close> is what the \<open>n\<close>-th load of the flag \<^verbatim>\<open>evm.abort\<close> reads, so \<^verbatim>\<open>Cancel\<close> may
    be called by another goroutine at any moment. Tracers are left out.
  \<^item> \<open>evm\<close> joins the fields of \<^verbatim>\<open>EVM\<close> and \<^verbatim>\<open>EVMInterpreter\<close> that change, and the map of jump
    destination analyses that a contract shares with the contracts it calls.
  \<^item> A caller is an account or a contract. Of a calling contract, the callee reads its address,
    its own caller and its value.
\<close>

record Rules =
  IsHomestead :: bool
  IsEIP150 :: bool
  IsEIP155 :: bool
  IsEIP158 :: bool
  IsByzantium :: bool
  IsConstantinople :: bool
  IsPetersburg :: bool
  IsIstanbul :: bool
  IsYoloV1 :: bool

record env =
  rdr :: reader
  u256ops :: uint256lib
  cryptoOps :: crypto
  chainRules :: Rules
  ChainID :: int
  Origin :: address
  GasPrice :: int
  Coinbase :: address
  GasLimit :: u64
  BlockNumber :: int
  Time :: int
  Difficulty :: int
  GetHash :: "u64 \<Rightarrow> hash"
  NoRecursion :: bool
  EnablePreimageRecording :: bool
  abort :: "nat \<Rightarrow> bool"

type_synonym bitvec = "byte list"

record evm =
  statedb :: StateDB
  depth :: int
  callGasTemp :: u64
  readOnly :: bool
  returnData :: bytes
  jumpdests :: "hash \<rightharpoonup> bitvec"
  abortLoads :: nat

datatype ContractRef =
    AccountRef address
  | CallingContract (ref_self: address) (ref_CallerAddress: address) (ref_value: int)

fun refAddress :: "ContractRef \<Rightarrow> address" where
  "refAddress (AccountRef a) = a"
| "refAddress (CallingContract a c v) = a"

record Contract =
  c_CallerAddress :: address
  c_caller :: ContractRef
  c_self :: address
  c_analysis :: "bitvec option"
  c_Code :: bytes
  c_CodeHash :: hash
  c_CodeAddr :: "address option"
  c_Input :: bytes
  c_Gas :: u64
  c_value :: int

record frame =
  pc :: u64
  stack :: stack
  rstack :: "32 word list"
  memory :: Memory
  contract :: Contract
  steps :: nat

subsection \<open>Jump destination analysis\<close>

definition bitvec_set :: "nat \<Rightarrow> bitvec \<Rightarrow> panic + bitvec" where
  "bitvec_set pos bits =
     (if pos div 8 < length bits
      then Inr (bits[pos div 8 := bits ! (pos div 8) OR drop_bit (pos mod 8) 0x80])
      else Inl AnalysisPanic)"

definition bitvec_set8 :: "nat \<Rightarrow> bitvec \<Rightarrow> panic + bitvec" where
  "bitvec_set8 pos bits =
     (if pos div 8 + 1 < length bits
      then Inr (bits[pos div 8 := bits ! (pos div 8) OR drop_bit (pos mod 8) 0xFF,
                     pos div 8 + 1 := bits ! (pos div 8 + 1) OR NOT (drop_bit (pos mod 8) 0xFF)])
      else Inl AnalysisPanic)"

definition codeSegment :: "bitvec \<Rightarrow> u64 \<Rightarrow> panic + bool" where
  "codeSegment bits pos =
     (let i = unat pos div 8
      in if i < length bits then Inr (bits ! i AND drop_bit (unat pos mod 8) 0x80 = 0)
         else Inl AnalysisPanic)"

text \<open>The two inner loops of \<^verbatim>\<open>codeBitmap\<close>, marking \<open>numbits\<close> positions from \<open>p\<close> on.\<close>

fun markData :: "nat \<Rightarrow> nat \<Rightarrow> bitvec \<Rightarrow> panic + bitvec" where
  "markData numbits p bits =
     (if numbits \<ge> 8 then rbind (bitvec_set8 p bits) (markData (numbits - 8) (p + 8))
      else if numbits > 0 then rbind (bitvec_set p bits) (markData (numbits - 1) (p + 1))
      else Inr bits)"

declare markData.simps [simp del]

definition pushBytes :: "byte \<Rightarrow> nat" where
  "pushBytes op = (if PUSH1 \<le> op \<and> op \<le> PUSH32 then unat (op - PUSH1 + 1) else 0)"

function codeBitmapLoop :: "bytes \<Rightarrow> nat \<Rightarrow> bitvec \<Rightarrow> panic + bitvec" where
  "codeBitmapLoop code p bits =
     (if p < length code
      then let n = pushBytes (code ! p)
           in rbind (markData n (p + 1) bits) (codeBitmapLoop code (p + 1 + n))
      else Inr bits)"
  by pat_completeness auto
termination by (relation "measure (\<lambda>(code, p, bits). length code - p)") auto

declare codeBitmapLoop.simps [simp del]

definition codeBitmap :: "bytes \<Rightarrow> panic + bitvec" where
  "codeBitmap code = codeBitmapLoop code 0 (replicate (length code div 8 + 1 + 4) 0)"

subsection \<open>Contracts\<close>

definition NewContract :: "ContractRef \<Rightarrow> address \<Rightarrow> int \<Rightarrow> u64 \<Rightarrow> evm \<Rightarrow> Contract \<times> evm" where
  "NewContract caller object value gas m =
     (\<lparr>c_CallerAddress = refAddress caller, c_caller = caller, c_self = object, c_analysis = None,
       c_Code = [], c_CodeHash = 0, c_CodeAddr = None, c_Input = [], c_Gas = gas, c_value = value\<rparr>,
      case caller of AccountRef a \<Rightarrow> m\<lparr>jumpdests := Map.empty\<rparr> | CallingContract a c v \<Rightarrow> m)"

definition contractRef :: "Contract \<Rightarrow> ContractRef" where
  "contractRef c = CallingContract (c_self c) (c_CallerAddress c) (c_value c)"

definition AsDelegate :: "Contract \<Rightarrow> panic + Contract" where
  "AsDelegate c =
     (case c_caller c of
        AccountRef a \<Rightarrow> Inl TypePanic
      | CallingContract a ca v \<Rightarrow> Inr (c\<lparr>c_CallerAddress := ca, c_value := v\<rparr>))"

definition SetCallCode :: "address \<Rightarrow> hash \<Rightarrow> bytes \<Rightarrow> Contract \<Rightarrow> Contract" where
  "SetCallCode addr h code c = c\<lparr>c_Code := code, c_CodeHash := h, c_CodeAddr := Some addr\<rparr>"

definition SetCodeOptionalHash :: "address \<Rightarrow> bytes \<Rightarrow> hash \<Rightarrow> Contract \<Rightarrow> Contract" where
  "SetCodeOptionalHash addr code h c = c\<lparr>c_Code := code, c_CodeHash := h, c_CodeAddr := Some addr\<rparr>"

definition isCode :: "u64 \<Rightarrow> Contract \<Rightarrow> evm \<Rightarrow> panic + bool \<times> Contract \<times> evm" where
  "isCode udest c m =
     (case c_analysis c of
        Some a \<Rightarrow> rbind (codeSegment a udest) (\<lambda>r. Inr (r, c, m))
      | None \<Rightarrow>
          if c_CodeHash c \<noteq> 0
          then rbind (case jumpdests m (c_CodeHash c) of
                        Some a \<Rightarrow> Inr (a, m)
                      | None \<Rightarrow> rbind (codeBitmap (c_Code c)) (\<lambda>a.
                          Inr (a, m\<lparr>jumpdests := (jumpdests m)(c_CodeHash c \<mapsto> a)\<rparr>))) (\<lambda>(a, m').
               rbind (codeSegment a udest) (\<lambda>r. Inr (r, c\<lparr>c_analysis := Some a\<rparr>, m')))
          else rbind (codeBitmap (c_Code c)) (\<lambda>a.
               rbind (codeSegment a udest) (\<lambda>r. Inr (r, c\<lparr>c_analysis := Some a\<rparr>, m))))"

definition validJumpdest :: "u256 \<Rightarrow> Contract \<Rightarrow> evm \<Rightarrow> panic + bool \<times> Contract \<times> evm" where
  "validJumpdest dest c m =
     (let (udest, overflow) = Uint64WithOverflow dest
      in if overflow \<or> unat udest \<ge> length (c_Code c) then Inr (False, c, m)
         else if c_Code c ! unat udest \<noteq> JUMPDEST then Inr (False, c, m)
         else isCode udest c m)"

definition validJumpSubdest :: "u64 \<Rightarrow> Contract \<Rightarrow> evm \<Rightarrow> panic + bool \<times> Contract \<times> evm" where
  "validJumpSubdest udest c m =
     (if sint udest < 0 \<or> unat udest \<ge> length (c_Code c) then Inr (False, c, m)
      else if c_Code c ! unat udest \<noteq> BEGINSUB then Inr (False, c, m)
      else isCode udest c m)"

definition GetOp :: "u64 \<Rightarrow> Contract \<Rightarrow> byte" where
  "GetOp n c = (if unat n < length (c_Code c) then c_Code c ! unat n else 0)"

definition UseGas :: "u64 \<Rightarrow> Contract \<Rightarrow> bool \<times> Contract" where
  "UseGas gas c = (if c_Gas c < gas then (False, c) else (True, c\<lparr>c_Gas := c_Gas c - gas\<rparr>))"

subsection \<open>Contract addresses\<close>

definition CreateAddress :: "reader \<Rightarrow> address \<Rightarrow> u64 \<Rightarrow> address" where
  "CreateAddress rd b nonce =
     (case EncodeToBytes (RSlice [RByteArray (addrBytes b), RUint nonce]) of
        Inr data \<Rightarrow> ucast (keccak rd data)
      | Inl e \<Rightarrow> ucast (keccak rd []))"

definition CreateAddress2 :: "reader \<Rightarrow> address \<Rightarrow> hash \<Rightarrow> hash \<Rightarrow> address" where
  "CreateAddress2 rd b salt inithash =
     ucast (keccak rd ([0xff] @ addrBytes b @ hashBytes salt @ hashBytes inithash))"

end
