(* ===== verification/EvmCalls.thy ===== *)
theory EvmCalls
  imports EvmState
begin

text \<open>
  Message calls and contract creation (\<^verbatim>\<open>core/vm/evm.go\<close>). The interpreter is the argument
  \<open>run\<close>: it runs a contract on an input, read-only or not, and returns the output, the error, the
  contract (whose gas has shrunk) and the machine; \<open>None\<close> means that it did not end within its
  fuel. \<^verbatim>\<open>EvmRun\<close> ties the knot.
\<close>

type_synonym runResult = "(panic + bytes \<times> vmError option \<times> Contract \<times> evm) option"
type_synonym runner = "Contract \<Rightarrow> bytes \<Rightarrow> bool \<Rightarrow> evm \<Rightarrow> runResult"
type_synonym callResult = "(panic + slice \<times> u64 \<times> vmError option \<times> evm) option"
type_synonym createResult = "(panic + bytes \<times> address \<times> u64 \<times> vmError option \<times> evm) option"

definition precompile :: "env \<Rightarrow> address \<Rightarrow> PrecompiledContract option" where
  "precompile E addr =
     map_of (if IsYoloV1 (chainRules E) then PrecompiledContractsYoloV1
             else if IsIstanbul (chainRules E) then PrecompiledContractsIstanbul
             else if IsByzantium (chainRules E) then PrecompiledContractsByzantium
             else PrecompiledContractsHomestead) addr"

text \<open>Reading and writing the state database of the machine.\<close>

definition query :: "(StateDB \<Rightarrow> 'a \<times> StateDB) \<Rightarrow> evm \<Rightarrow> 'a \<times> evm" where
  "query q m = (let (x, s) = q (statedb m) in (x, m\<lparr>statedb := s\<rparr>))"

definition update :: "(StateDB \<Rightarrow> StateDB) \<Rightarrow> evm \<Rightarrow> evm" where
  "update f m = m\<lparr>statedb := f (statedb m)\<rparr>"

definition revertTo :: "env \<Rightarrow> int \<Rightarrow> evm \<Rightarrow> panic + evm" where
  "revertTo E i m =
     (case RevertToSnapshot (rdr E) i (statedb m) of
        None \<Rightarrow> Inl RevisionPanic
      | Some s \<Rightarrow> Inr (m\<lparr>statedb := s\<rparr>))"

definition GetCodeBytes :: "reader \<Rightarrow> address \<Rightarrow> StateDB \<Rightarrow> bytes \<times> StateDB" where
  "GetCodeBytes rd a s =
     (let (c, s') = GetCode rd a s in (case c of None \<Rightarrow> [] | Some b \<Rightarrow> b, s'))"

text \<open>
  The end of the four kinds of call: on an error the state is reverted to the snapshot, and the
  remaining gas is consumed unless the error is \<^verbatim>\<open>ErrExecutionReverted\<close>.
\<close>

definition endCall :: "env \<Rightarrow> int \<Rightarrow> slice \<Rightarrow> u64 \<Rightarrow> vmError option \<Rightarrow> evm \<Rightarrow> callResult" where
  "endCall E snapshot ret gas err m =
     (if err = None then Some (Inr (ret, gas, err, m))
      else fbind (Some (revertTo E snapshot m)) (\<lambda>m.
           Some (Inr (ret, if err \<noteq> Some ErrExecutionReverted then 0 else gas, err, m))))"

text \<open>Run the code of a contract, as part of a call.\<close>

definition runCode :: "runner \<Rightarrow> Contract \<Rightarrow> bytes \<Rightarrow> bool \<Rightarrow> evm \<Rightarrow> callResult" where
  "runCode run c input ro m =
     fbind (run c input ro m) (\<lambda>(ret, err, c', m'). Some (Inr (OwnBytes ret, c_Gas c', err, m')))"

definition runPre :: "env \<Rightarrow> PrecompiledContract \<Rightarrow> bytes \<Rightarrow> u64 \<Rightarrow> evm \<Rightarrow> callResult" where
  "runPre E p input gas m =
     fbind (Some (RunPrecompiledContract (cryptoOps E) p input gas)) (\<lambda>(ret, gas, err).
       Some (Inr (ret, gas, err, m)))"

definition tooDeep :: "evm \<Rightarrow> bool" where
  "tooDeep m \<longleftrightarrow> depth m > int (unat CallCreateDepth)"

text \<open>The body of \<^verbatim>\<open>Call\<close>: run the precompiled contract or the code at the address.\<close>

definition callBody ::
    "env \<Rightarrow> runner \<Rightarrow> ContractRef \<Rightarrow> address \<Rightarrow> bytes \<Rightarrow> u64 \<Rightarrow> int \<Rightarrow> evm \<Rightarrow> callResult" where
  "callBody E run caller addr input gas value m5 =
     (case precompile E addr of
        Some p \<Rightarrow> runPre E p input gas m5
      | None \<Rightarrow>
          let (code, m6) = query (GetCodeBytes (rdr E) addr) m5
          in if code = [] then Some (Inr (OwnBytes [], gas, None, m6))
             else let (c, m7) = NewContract caller addr value gas m6;
                      (h, m8) = query (GetCodeHash (rdr E) addr) m7
                  in runCode run (SetCallCode addr h code c) input False m8)"

definition Call ::
    "env \<Rightarrow> runner \<Rightarrow> ContractRef \<Rightarrow> address \<Rightarrow> bytes \<Rightarrow> u64 \<Rightarrow> int \<Rightarrow> evm \<Rightarrow> callResult" where
  "Call E run caller addr input gas value m0 =
     (if NoRecursion E \<and> depth m0 > 0 then Some (Inr (OwnBytes [], gas, None, m0))
      else if tooDeep m0 then Some (Inr (OwnBytes [], gas, Some ErrDepth, m0))
      else
        let (can, m1) = (if value \<noteq> 0 then query (CanTransfer (rdr E) (refAddress caller) value) m0
                         else (True, m0))
        in if \<not> can then Some (Inr (OwnBytes [], gas, Some ErrInsufficientBalance, m1))
        else
          let (snapshot, m2) = query Snapshot m1;
              (exists, m3) = query (Exist (rdr E) addr) m2
          in if \<not> exists \<and> precompile E addr = None \<and> IsEIP158 (chainRules E) \<and> value = 0
             then Some (Inr (OwnBytes [], gas, None, m3))
             else
               let m4 = (if \<not> exists then update (CreateAccount (rdr E) addr) m3 else m3);
                   m5 = update (Transfer (rdr E) (refAddress caller) addr value) m4
               in fbind (callBody E run caller addr input gas value m5)
                    (\<lambda>(ret, gas, err, m). endCall E snapshot ret gas err m))"

definition CallCode ::
    "env \<Rightarrow> runner \<Rightarrow> ContractRef \<Rightarrow> address \<Rightarrow> bytes \<Rightarrow> u64 \<Rightarrow> int \<Rightarrow> evm \<Rightarrow> callResult" where
  "CallCode E run caller addr input gas value m0 =
     (if NoRecursion E \<and> depth m0 > 0 then Some (Inr (OwnBytes [], gas, None, m0))
      else if tooDeep m0 then Some (Inr (OwnBytes [], gas, Some ErrDepth, m0))
      else
        let (can, m1) = query (CanTransfer (rdr E) (refAddress caller) value) m0
        in if \<not> can then Some (Inr (OwnBytes [], gas, Some ErrInsufficientBalance, m1))
        else
          let (snapshot, m2) = query Snapshot m1
          in fbind (case precompile E addr of
               Some p \<Rightarrow> runPre E p input gas m2
             | None \<Rightarrow>
                 let (c, m3) = NewContract caller (refAddress caller) value gas m2;
                     (h, m4) = query (GetCodeHash (rdr E) addr) m3;
                     (code, m5) = query (GetCodeBytes (rdr E) addr) m4
                 in runCode run (SetCallCode addr h code c) input False m5)
             (\<lambda>(ret, gas, err, m). endCall E snapshot ret gas err m))"

text \<open>The nil value that \<^verbatim>\<open>DelegateCall\<close> passes is overwritten by \<^verbatim>\<open>AsDelegate\<close> before any read.\<close>

definition DelegateCall ::
    "env \<Rightarrow> runner \<Rightarrow> ContractRef \<Rightarrow> address \<Rightarrow> bytes \<Rightarrow> u64 \<Rightarrow> evm \<Rightarrow> callResult" where
  "DelegateCall E run caller addr input gas m0 =
     (if NoRecursion E \<and> depth m0 > 0 then Some (Inr (OwnBytes [], gas, None, m0))
      else if tooDeep m0 then Some (Inr (OwnBytes [], gas, Some ErrDepth, m0))
      else
        let (snapshot, m1) = query Snapshot m0
        in fbind (case precompile E addr of
             Some p \<Rightarrow> runPre E p input gas m1
           | None \<Rightarrow>
               let (c, m2) = NewContract caller (refAddress caller) 0 gas m1
               in fbind (Some (AsDelegate c)) (\<lambda>c.
                    let (h, m3) = query (GetCodeHash (rdr E) addr) m2;
                        (code, m4) = query (GetCodeBytes (rdr E) addr) m3
                    in runCode run (SetCallCode addr h code c) input False m4))
           (\<lambda>(ret, gas, err, m). endCall E snapshot ret gas err m))"

definition StaticCall ::
    "env \<Rightarrow> runner \<Rightarrow> ContractRef \<Rightarrow> address \<Rightarrow> bytes \<Rightarrow> u64 \<Rightarrow> evm \<Rightarrow> callResult" where
  "StaticCall E run caller addr input gas m0 =
     (if NoRecursion E \<and> depth m0 > 0 then Some (Inr (OwnBytes [], gas, None, m0))
      else if tooDeep m0 then Some (Inr (OwnBytes [], gas, Some ErrDepth, m0))
      else
        let (snapshot, m1) = query Snapshot m0;
            m2 = update (AddBalance (rdr E) addr 0) m1
        in fbind (case precompile E addr of
             Some p \<Rightarrow> runPre E p input gas m2
           | None \<Rightarrow>
               let (c, m3) = NewContract caller addr 0 gas m2;
                   (h, m4) = query (GetCodeHash (rdr E) addr) m3;
                   (code, m5) = query (GetCodeBytes (rdr E) addr) m4
               in runCode run (SetCallCode addr h code c) input True m5)
           (\<lambda>(ret, gas, err, m). endCall E snapshot ret gas err m))"

text \<open>
  \<open>endCreate\<close> is what \<^verbatim>\<open>create\<close> does after the init code has run. The hash of the init code is
  the zero hash when it has not been computed (\<^verbatim>\<open>CREATE\<close>).
\<close>

definition endCreate ::
    "env \<Rightarrow> int \<Rightarrow> address \<Rightarrow> bytes \<Rightarrow> vmError option \<Rightarrow> Contract \<Rightarrow> evm \<Rightarrow> createResult" where
  "endCreate E snapshot address ret err0 c0 m0 =
     (let maxCodeSizeExceeded = (IsEIP158 (chainRules E) \<and> length ret > MaxCodeSize);
          (err, c1, m1) =
            (if err0 = None \<and> \<not> maxCodeSizeExceeded
             then let (ok, c) = UseGas (of_nat (length ret) * CreateDataGas) c0
                  in if ok then (None, c, update (SetCode (rdr E) address ret) m0)
                     else (Some ErrCodeStoreOutOfGas, c, m0)
             else (err0, c0, m0));
          undo = (maxCodeSizeExceeded
                  \<or> err \<noteq> None \<and> (IsHomestead (chainRules E) \<or> err \<noteq> Some ErrCodeStoreOutOfGas))
      in fbind (Some (if undo then revertTo E snapshot m1 else Inr m1)) (\<lambda>m2.
           let c2 = (if undo \<and> err \<noteq> Some ErrExecutionReverted then snd (UseGas (c_Gas c1) c1) else c1);
               err' = (if maxCodeSizeExceeded \<and> err = None then Some ErrMaxCodeSizeExceeded else err)
           in Some (Inr (ret, address, c_Gas c2, err', m2))))"

text \<open>\<^verbatim>\<open>create\<close> from its snapshot on.\<close>

definition deploy ::
    "env \<Rightarrow> runner \<Rightarrow> ContractRef \<Rightarrow> bytes \<Rightarrow> hash \<Rightarrow> u64 \<Rightarrow> int \<Rightarrow> address \<Rightarrow> evm \<Rightarrow> createResult" where
  "deploy E run caller code codeHash gas value address m5 =
     (let (snapshot, m6) = query Snapshot m5;
          m7 = update (CreateAccount (rdr E) address) m6;
          m8 = (if IsEIP158 (chainRules E) then update (SetNonce (rdr E) address 1) m7 else m7);
          m9 = update (Transfer (rdr E) (refAddress caller) address value) m8;
          (c0, m10) = NewContract caller address value gas m9;
          c = SetCodeOptionalHash address code codeHash c0
      in if NoRecursion E \<and> depth m10 > 0 then Some (Inr ([], address, gas, None, m10))
         else fbind (run c [] False m10) (\<lambda>(ret, err, c', m').
                endCreate E snapshot address ret err c' m'))"

definition evm_create ::
    "env \<Rightarrow> runner \<Rightarrow> ContractRef \<Rightarrow> bytes \<Rightarrow> hash \<Rightarrow> u64 \<Rightarrow> int \<Rightarrow> address \<Rightarrow> evm \<Rightarrow> createResult" where
  "evm_create E run caller code codeHash gas value address m0 =
     (if tooDeep m0 then Some (Inr ([], 0, gas, Some ErrDepth, m0))
      else
        let (can, m1) = query (CanTransfer (rdr E) (refAddress caller) value) m0
        in if \<not> can then Some (Inr ([], 0, gas, Some ErrInsufficientBalance, m1))
        else
          let (nonce, m2) = query (GetNonce (rdr E) (refAddress caller)) m1;
              m3 = update (SetNonce (rdr E) (refAddress caller) (nonce + 1)) m2;
              (contractHash, m4) = query (GetCodeHash (rdr E) address) m3;
              (anonce, m5) = query (GetNonce (rdr E) address) m4
          in if anonce \<noteq> 0 \<or> contractHash \<noteq> 0 \<and> contractHash \<noteq> emptyCodeHash (rdr E)
             then Some (Inr ([], 0, 0, Some ErrContractAddressCollision, m5))
             else deploy E run caller code codeHash gas value address m5)"

definition Create :: "env \<Rightarrow> runner \<Rightarrow> ContractRef \<Rightarrow> bytes \<Rightarrow> u64 \<Rightarrow> int \<Rightarrow> evm \<Rightarrow> createResult" where
  "Create E run caller code gas value m =
     (let (nonce, m1) = query (GetNonce (rdr E) (refAddress caller)) m
      in evm_create E run caller code 0 gas value (CreateAddress (rdr E) (refAddress caller) nonce) m1)"

definition Create2 ::
    "env \<Rightarrow> runner \<Rightarrow> ContractRef \<Rightarrow> bytes \<Rightarrow> u64 \<Rightarrow> int \<Rightarrow> u256 \<Rightarrow> evm \<Rightarrow> createResult" where
  "Create2 E run caller code gas endowment salt m =
     (let h = keccak (rdr E) code
      in evm_create E run caller code h gas endowment
           (CreateAddress2 (rdr E) (refAddress caller) salt h) m)"

end
