(* ===== verification/EvmOps.thy ===== *)
theory EvmOps
  imports EvmCalls
begin

text \<open>
  The instructions (\<^verbatim>\<open>core/vm/instructions.go\<close>, \<^verbatim>\<open>core/vm/eips.go\<close>). An instruction takes the call
  frame and the machine and returns them updated, with the bytes and the error it returns. One
  that reads an absent stack item panics. Most cannot run other code; \<open>plain\<close> turns
  those into instructions that take the interpreter as an argument, as the calls do.
\<close>

type_synonym opResult = "panic + frame \<times> evm \<times> bytes \<times> vmError option"
type_synonym plainFunc = "env \<Rightarrow> frame \<Rightarrow> evm \<Rightarrow> opResult"
type_synonym executionFunc = "env \<Rightarrow> runner \<Rightarrow> frame \<Rightarrow> evm \<Rightarrow> opResult option"

definition plain :: "plainFunc \<Rightarrow> executionFunc" where
  "plain op E run f m = Some (op E f m)"

definition proceed :: "frame \<Rightarrow> evm \<Rightarrow> opResult" where
  "proceed f m = Inr (f, m, [], None)"

definition fails :: "vmError \<Rightarrow> frame \<Rightarrow> evm \<Rightarrow> opResult" where
  "fails e f m = Inr (f, m, [], Some e)"

definition boolWord :: "bool \<Rightarrow> u256" where
  "boolWord b = (if b then 1 else 0)"

definition pushWord :: "u256 \<Rightarrow> frame \<Rightarrow> evm \<Rightarrow> opResult" where
  "pushWord x f m = proceed (f\<lparr>stack := x # stack f\<rparr>) m"

definition unOp :: "(u256 \<Rightarrow> u256) \<Rightarrow> frame \<Rightarrow> evm \<Rightarrow> opResult" where
  "unOp g f m = (case stack f of x # st \<Rightarrow> proceed (f\<lparr>stack := g x # st\<rparr>) m | _ \<Rightarrow> Inl StackPanic)"

definition binOp :: "(u256 \<Rightarrow> u256 \<Rightarrow> u256) \<Rightarrow> frame \<Rightarrow> evm \<Rightarrow> opResult" where
  "binOp g f m =
     (case stack f of x # y # st \<Rightarrow> proceed (f\<lparr>stack := g x y # st\<rparr>) m | _ \<Rightarrow> Inl StackPanic)"

definition triOp :: "(u256 \<Rightarrow> u256 \<Rightarrow> u256 \<Rightarrow> u256) \<Rightarrow> frame \<Rightarrow> evm \<Rightarrow> opResult" where
  "triOp g f m =
     (case stack f of x # y # z # st \<Rightarrow> proceed (f\<lparr>stack := g x y z # st\<rparr>) m | _ \<Rightarrow> Inl StackPanic)"

subsection \<open>Arithmetic and comparison\<close>

definition opAdd :: plainFunc where
  "opAdd E = binOp (U_Add (u256ops E))"

definition opSub :: plainFunc where
  "opSub E = binOp (U_Sub (u256ops E))"

definition opMul :: plainFunc where
  "opMul E = binOp (U_Mul (u256ops E))"

definition opDiv :: plainFunc where
  "opDiv E = binOp (U_Div (u256ops E))"

definition opSdiv :: plainFunc where
  "opSdiv E = binOp (U_SDiv (u256ops E))"

definition opMod :: plainFunc where
  "opMod E = binOp (U_Mod (u256ops E))"

definition opSmod :: plainFunc where
  "opSmod E = binOp (U_SMod (u256ops E))"

definition opExp :: plainFunc where
  "opExp E = binOp (U_Exp (u256ops E))"

definition opSignExtend :: plainFunc where
  "opSignExtend E = binOp (\<lambda>backp num. U_ExtendSign (u256ops E) num backp)"

definition opNot :: plainFunc where
  "opNot E = unOp (U_Not (u256ops E))"

definition opLt :: plainFunc where
  "opLt E = binOp (\<lambda>x y. boolWord (U_Lt (u256ops E) x y))"

definition opGt :: plainFunc where
  "opGt E = binOp (\<lambda>x y. boolWord (U_Gt (u256ops E) x y))"

definition opSlt :: plainFunc where
  "opSlt E = binOp (\<lambda>x y. boolWord (U_Slt (u256ops E) x y))"

definition opSgt :: plainFunc where
  "opSgt E = binOp (\<lambda>x y. boolWord (U_Sgt (u256ops E) x y))"

definition opEq :: plainFunc where
  "opEq E = binOp (\<lambda>x y. boolWord (U_Eq (u256ops E) x y))"

definition opIszero :: plainFunc where
  "opIszero E = unOp (\<lambda>x. boolWord (x = 0))"

definition opAnd :: plainFunc where
  "opAnd E = binOp (U_And (u256ops E))"

definition opOr :: plainFunc where
  "opOr E = binOp (U_Or (u256ops E))"

definition opXor :: plainFunc where
  "opXor E = binOp (U_Xor (u256ops E))"

definition opByte :: plainFunc where
  "opByte E = binOp (\<lambda>th val. U_Byte (u256ops E) val th)"

definition opAddmod :: plainFunc where
  "opAddmod E = triOp (\<lambda>x y z. if z = 0 then 0 else U_AddMod (u256ops E) x y z)"

definition opMulmod :: plainFunc where
  "opMulmod E = triOp (U_MulMod (u256ops E))"

definition opSHL :: plainFunc where
  "opSHL E = binOp (\<lambda>shift value.
     if unat shift < 256 then U_Lsh (u256ops E) value (unat (Uint64 shift)) else 0)"

definition opSHR :: plainFunc where
  "opSHR E = binOp (\<lambda>shift value.
     if unat shift < 256 then U_Rsh (u256ops E) value (unat (Uint64 shift)) else 0)"

definition opSAR :: plainFunc where
  "opSAR E = binOp (\<lambda>shift value.
     if unat shift > 256 then if Sign value \<ge> 0 then 0 else - 1
     else U_SRsh (u256ops E) value (unat (Uint64 shift)))"

subsection \<open>Hashing and the environment\<close>

definition opSha3 :: plainFunc where
  "opSha3 E f m =
     (case stack f of
        ofs # sz # st \<Rightarrow>
          rbind (GetPtr (Uint64 ofs) (Uint64 sz) (memory f)) (\<lambda>data.
            let h = keccak (rdr E) data
            in proceed (f\<lparr>stack := h # st\<rparr>)
                 (if EnablePreimageRecording E then update (AddPreimage h data) m else m))
      | _ \<Rightarrow> Inl StackPanic)"

definition addrWord :: "address \<Rightarrow> u256" where
  "addrWord a = ucast a"

definition opAddress :: plainFunc where
  "opAddress E f = pushWord (addrWord (c_self (contract f))) f"

definition onAddress :: "(address \<Rightarrow> StateDB \<Rightarrow> u256 \<times> StateDB) \<Rightarrow> frame \<Rightarrow> evm \<Rightarrow> opResult" where
  "onAddress q f m =
     (case stack f of
        slot # st \<Rightarrow> (let (x, m') = query (q (Bytes20 slot)) m in proceed (f\<lparr>stack := x # st\<rparr>) m')
      | _ \<Rightarrow> Inl StackPanic)"

definition opBalance :: plainFunc where
  "opBalance E = onAddress (\<lambda>a s. let (b, s') = GetBalance (rdr E) a s in (of_int b, s'))"

definition opOrigin :: plainFunc where
  "opOrigin E f = pushWord (addrWord (Origin E)) f"

definition opCaller :: plainFunc where
  "opCaller E f = pushWord (addrWord (c_CallerAddress (contract f))) f"

definition opCallValue :: plainFunc where
  "opCallValue E f = pushWord (of_int (c_value (contract f))) f"

definition opCallDataLoad :: plainFunc where
  "opCallDataLoad E f m =
     (case stack f of
        x # st \<Rightarrow>
          (let (ofs, overflow) = Uint64WithOverflow x
           in if \<not> overflow
              then rbind (getData (c_Input (contract f)) ofs 32) (\<lambda>data.
                     proceed (f\<lparr>stack := SetBytes data # st\<rparr>) m)
              else proceed (f\<lparr>stack := 0 # st\<rparr>) m)
      | _ \<Rightarrow> Inl StackPanic)"

definition opCallDataSize :: plainFunc where
  "opCallDataSize E f = pushWord (ucast (of_nat (length (c_Input (contract f))) :: u64)) f"

text \<open>An ofs that exceeds 64 bits is replaced by the largest 64-bit number.\<close>

definition clampOffset :: "u256 \<Rightarrow> u64" where
  "clampOffset x = (let (o64, overflow) = Uint64WithOverflow x in if overflow then - 1 else o64)"

definition copyToMemory :: "bytes \<Rightarrow> u256 \<Rightarrow> u256 \<Rightarrow> u256 \<Rightarrow> stack \<Rightarrow> frame \<Rightarrow> evm \<Rightarrow> opResult" where
  "copyToMemory src memOffset off len st f m =
     rbind (getData src (clampOffset off) (Uint64 len)) (\<lambda>data.
     rbind (Memory_Set (Uint64 memOffset) (Uint64 len) data (memory f)) (\<lambda>mem.
       proceed (f\<lparr>stack := st, memory := mem\<rparr>) m))"

definition opCallDataCopy :: plainFunc where
  "opCallDataCopy E f m =
     (case stack f of
        memOffset # dataOffset # len # st \<Rightarrow>
          copyToMemory (c_Input (contract f)) memOffset dataOffset len st f m
      | _ \<Rightarrow> Inl StackPanic)"

definition opReturnDataSize :: plainFunc where
  "opReturnDataSize E f m = pushWord (ucast (of_nat (length (returnData m)) :: u64)) f m"

definition opReturnDataCopy :: plainFunc where
  "opReturnDataCopy E f m =
     (case stack f of
        memOffset # dataOffset # len # st \<Rightarrow>
          (let f = f\<lparr>stack := st\<rparr>;
               (offset64, overflow) = Uint64WithOverflow dataOffset
           in if overflow then fails ErrReturnDataOutOfBounds f m
              else let (end64, overflow) = Uint64WithOverflow (U_Add (u256ops E) dataOffset len)
                   in if overflow \<or> of_nat (length (returnData m)) < end64
                      then fails ErrReturnDataOutOfBounds f m
                      else if end64 < offset64 then Inl IndexPanic
                      else rbind (Memory_Set (Uint64 memOffset) (Uint64 len)
                             (subBytes (unat offset64) (unat end64) (returnData m)) (memory f)) (\<lambda>mem.
                           proceed (f\<lparr>memory := mem\<rparr>) m))
      | _ \<Rightarrow> Inl StackPanic)"

definition opExtCodeSize :: plainFunc where
  "opExtCodeSize E = onAddress (\<lambda>a s.
     let (n, s') = GetCodeSize (rdr E) a s in (ucast (of_nat n :: u64), s'))"

definition opCodeSize :: plainFunc where
  "opCodeSize E f = pushWord (ucast (of_nat (length (c_Code (contract f))) :: u64)) f"

definition opCodeCopy :: plainFunc where
  "opCodeCopy E f m =
     (case stack f of
        memOffset # codeOffset # len # st \<Rightarrow>
          copyToMemory (c_Code (contract f)) memOffset codeOffset len st f m
      | _ \<Rightarrow> Inl StackPanic)"

definition opExtCodeCopy :: plainFunc where
  "opExtCodeCopy E f m =
     (case stack f of
        a # memOffset # codeOffset # len # st \<Rightarrow>
          (let (code, m') = query (GetCodeBytes (rdr E) (Bytes20 a)) m
           in copyToMemory code memOffset codeOffset len st f m')
      | _ \<Rightarrow> Inl StackPanic)"

definition opExtCodeHash :: plainFunc where
  "opExtCodeHash E = onAddress (\<lambda>a s.
     let (empty, s') = Empty (rdr E) a s
     in if empty then (0, s') else GetCodeHash (rdr E) a s')"

definition opGasprice :: plainFunc where
  "opGasprice E = pushWord (of_int (GasPrice E))"

definition opBlockhash :: plainFunc where
  "opBlockhash E = unOp (\<lambda>num.
     let (num64, overflow) = Uint64WithOverflow num
     in if overflow then 0
        else let upper = of_int (BlockNumber E) :: u64;
                 lower = (if upper < 257 then 0 else upper - 256)
             in if num64 \<ge> lower \<and> num64 < upper then GetHash E num64 else 0)"

definition opCoinbase :: plainFunc where
  "opCoinbase E = pushWord (addrWord (Coinbase E))"

definition opTimestamp :: plainFunc where
  "opTimestamp E = pushWord (of_int (Time E))"

definition opNumber :: plainFunc where
  "opNumber E = pushWord (of_int (BlockNumber E))"

definition opDifficulty :: plainFunc where
  "opDifficulty E = pushWord (of_int (Difficulty E))"

definition opGasLimit :: plainFunc where
  "opGasLimit E = pushWord (ucast (GasLimit E))"

definition opSelfBalance :: plainFunc where
  "opSelfBalance E f m =
     (let (b, m') = query (GetBalance (rdr E) (c_self (contract f))) m in pushWord (of_int b) f m')"

definition opChainID :: plainFunc where
  "opChainID E = pushWord (of_int (ChainID E))"

subsection \<open>Stack, memory, storage and flow\<close>

definition opPop :: plainFunc where
  "opPop E f m = (case stack f of x # st \<Rightarrow> proceed (f\<lparr>stack := st\<rparr>) m | _ \<Rightarrow> Inl StackPanic)"

definition opMload :: plainFunc where
  "opMload E f m =
     (case stack f of
        v # st \<Rightarrow> rbind (GetPtr (Uint64 v) 32 (memory f)) (\<lambda>data.
                    proceed (f\<lparr>stack := SetBytes data # st\<rparr>) m)
      | _ \<Rightarrow> Inl StackPanic)"

definition opMstore :: plainFunc where
  "opMstore E f m =
     (case stack f of
        mStart # val # st \<Rightarrow> rbind (Memory_Set32 (Uint64 mStart) val (memory f)) (\<lambda>mem.
                              proceed (f\<lparr>stack := st, memory := mem\<rparr>) m)
      | _ \<Rightarrow> Inl StackPanic)"

definition opMstore8 :: plainFunc where
  "opMstore8 E f m =
     (case stack f of
        off # val # st \<Rightarrow>
          (let i = unat (Uint64 off); mem = memory f
           in if i < length (store mem)
              then proceed (f\<lparr>stack := st, memory := mem\<lparr>store := (store mem)[i := ucast (Uint64 val)]\<rparr>\<rparr>) m
              else Inl IndexPanic)
      | _ \<Rightarrow> Inl StackPanic)"

definition opSload :: plainFunc where
  "opSload E f m =
     (case stack f of
        loc # st \<Rightarrow> (let (val, m') = query (GetState (rdr E) (c_self (contract f)) loc) m
                      in proceed (f\<lparr>stack := val # st\<rparr>) m')
      | _ \<Rightarrow> Inl StackPanic)"

definition opSstore :: plainFunc where
  "opSstore E f m =
     (case stack f of
        loc # val # st \<Rightarrow>
          proceed (f\<lparr>stack := st\<rparr>) (update (SetState (rdr E) (c_self (contract f)) loc val) m)
      | _ \<Rightarrow> Inl StackPanic)"

definition opJump :: plainFunc where
  "opJump E f m =
     (case stack f of
        pos # st \<Rightarrow> rbind (validJumpdest pos (contract f) m) (\<lambda>(valid, c, m).
          let f = f\<lparr>stack := st, contract := c\<rparr>
          in if \<not> valid then fails ErrInvalidJump f m else proceed (f\<lparr>pc := Uint64 pos\<rparr>) m)
      | _ \<Rightarrow> Inl StackPanic)"

definition opJumpi :: plainFunc where
  "opJumpi E f m =
     (case stack f of
        pos # cond # st \<Rightarrow>
          if cond \<noteq> 0
          then rbind (validJumpdest pos (contract f) m) (\<lambda>(valid, c, m).
            let f = f\<lparr>stack := st, contract := c\<rparr>
            in if \<not> valid then fails ErrInvalidJump f m else proceed (f\<lparr>pc := Uint64 pos\<rparr>) m)
          else proceed (f\<lparr>stack := st, pc := pc f + 1\<rparr>) m
      | _ \<Rightarrow> Inl StackPanic)"

definition opJumpdest :: plainFunc where
  "opJumpdest E f m = proceed f m"

definition opBeginSub :: plainFunc where
  "opBeginSub E f m = fails ErrInvalidSubroutineEntry f m"

definition opJumpSub :: plainFunc where
  "opJumpSub E f m =
     (if length (rstack f) \<ge> 1023 then fails ErrReturnStackExceeded f m
      else case stack f of
        pos # st \<Rightarrow>
          if \<not> IsUint64 pos then fails ErrInvalidJump (f\<lparr>stack := st\<rparr>) m
          else rbind (validJumpSubdest (Uint64 pos) (contract f) m) (\<lambda>(valid, c, m).
            let f = f\<lparr>stack := st, contract := c\<rparr>
            in if \<not> valid then fails ErrInvalidJump f m
               else proceed (f\<lparr>rstack := ucast (pc f) # rstack f, pc := Uint64 pos + 1\<rparr>) m)
      | _ \<Rightarrow> Inl StackPanic)"

definition opReturnSub :: plainFunc where
  "opReturnSub E f m =
     (case rstack f of
        [] \<Rightarrow> fails ErrInvalidRetsub f m
      | r # rs \<Rightarrow> proceed (f\<lparr>rstack := rs, pc := ucast r + 1\<rparr>) m)"

definition opPc :: plainFunc where
  "opPc E f = pushWord (ucast (pc f)) f"

definition opMsize :: plainFunc where
  "opMsize E f = pushWord (ucast (of_nat (length (store (memory f))) :: u64)) f"

definition opGas :: plainFunc where
  "opGas E f = pushWord (ucast (c_Gas (contract f))) f"

definition opPush1 :: plainFunc where
  "opPush1 E f m =
     (let p = pc f + 1; code = c_Code (contract f); f = f\<lparr>pc := p\<rparr>
      in pushWord (if unat p < length code then ucast (code ! unat p) else 0) f m)"

definition makePush :: "u64 \<Rightarrow> int \<Rightarrow> plainFunc" where
  "makePush sz pushByteSize E f m =
     (let code = c_Code (contract f);
          codeLen = int (length code);
          startMin = (if sint (pc f + 1) < codeLen then sint (pc f + 1) else codeLen);
          endMin = (if startMin + pushByteSize < codeLen then startMin + pushByteSize else codeLen)
      in if startMin < 0 \<or> endMin < startMin then Inl IndexPanic
         else let integer = SetBytes (RightPadBytes (subBytes (nat startMin) (nat endMin) code) pushByteSize)
              in pushWord integer (f\<lparr>pc := pc f + sz\<rparr>) m)"

definition makeDup :: "nat \<Rightarrow> plainFunc" where
  "makeDup n E f m = rbind (stack_dup n (stack f)) (\<lambda>st. proceed (f\<lparr>stack := st\<rparr>) m)"

definition makeSwap :: "nat \<Rightarrow> plainFunc" where
  "makeSwap n E f m = rbind (stack_swap (n + 1) (stack f)) (\<lambda>st. proceed (f\<lparr>stack := st\<rparr>) m)"

definition makeLog :: "nat \<Rightarrow> plainFunc" where
  "makeLog n E f m =
     (case stack f of
        mStart # mSize # st \<Rightarrow>
          if length st < n then Inl StackPanic
          else rbind (GetCopy (Uint64 mStart) (Uint64 mSize) (memory f)) (\<lambda>d.
            proceed (f\<lparr>stack := drop n st\<rparr>)
              (update (AddLog \<lparr>log_Address = c_self (contract f), log_Topics = take n st, log_Data = d,
                 log_BlockNumber = of_int (BlockNumber E), log_TxHash = 0, log_TxIndex = 0,
                 log_BlockHash = 0, log_Index = 0\<rparr>) m))
      | _ \<Rightarrow> Inl StackPanic)"

definition opStop :: plainFunc where
  "opStop E f m = proceed f m"

definition opReturn :: plainFunc where
  "opReturn E f m =
     (case stack f of
        ofs # sz # st \<Rightarrow> rbind (GetPtr (Uint64 ofs) (Uint64 sz) (memory f)) (\<lambda>ret.
                             Inr (f\<lparr>stack := st\<rparr>, m, ret, None))
      | _ \<Rightarrow> Inl StackPanic)"

definition opRevert :: plainFunc where
  "opRevert E f m =
     (case stack f of
        ofs # sz # st \<Rightarrow> rbind (GetPtr (Uint64 ofs) (Uint64 sz) (memory f)) (\<lambda>ret.
                             Inr (f\<lparr>stack := st\<rparr>, m, ret, None))
      | _ \<Rightarrow> Inl StackPanic)"

definition opSuicide :: plainFunc where
  "opSuicide E f m =
     (case stack f of
        beneficiary # st \<Rightarrow>
          (let me = c_self (contract f);
               (balance, m1) = query (GetBalance (rdr E) me) m;
               m2 = update (AddBalance (rdr E) (Bytes20 beneficiary) balance) m1;
               (ok, m3) = query (Suicide (rdr E) me) m2
           in proceed (f\<lparr>stack := st\<rparr>) m3)
      | _ \<Rightarrow> Inl StackPanic)"

subsection \<open>Creating contracts\<close>

definition addGas :: "u64 \<Rightarrow> frame \<Rightarrow> frame" where
  "addGas g f = f\<lparr>contract := (contract f)\<lparr>c_Gas := c_Gas (contract f) + g\<rparr>\<rparr>"

definition useGas :: "u64 \<Rightarrow> frame \<Rightarrow> frame" where
  "useGas g f = f\<lparr>contract := snd (UseGas g (contract f))\<rparr>"

definition opCreate :: executionFunc where
  "opCreate E run f m =
     (case stack f of
        value # ofs # sz # st \<Rightarrow>
          fbind (Some (GetCopy (Uint64 ofs) (Uint64 sz) (memory f))) (\<lambda>input.
            let gas0 = c_Gas (contract f);
                gas = (if IsEIP150 (chainRules E) then gas0 - gas0 div 64 else gas0);
                f1 = useGas gas f
            in fbind (Create E run (contractRef (contract f1)) input gas (uint value) m)
                 (\<lambda>(res, addr, returnGas, suberr, m').
                   let stackvalue =
                         (if IsHomestead (chainRules E) \<and> suberr = Some ErrCodeStoreOutOfGas then 0
                          else if suberr \<noteq> None \<and> suberr \<noteq> Some ErrCodeStoreOutOfGas then 0
                          else addrWord addr);
                       f2 = addGas returnGas (f1\<lparr>stack := stackvalue # st\<rparr>)
                   in Some (Inr (f2, m', if suberr = Some ErrExecutionReverted then res else [], None))))
      | _ \<Rightarrow> Some (Inl StackPanic))"

definition opCreate2 :: executionFunc where
  "opCreate2 E run f m =
     (case stack f of
        endowment # ofs # sz # salt # st \<Rightarrow>
          fbind (Some (GetCopy (Uint64 ofs) (Uint64 sz) (memory f))) (\<lambda>input.
            let gas0 = c_Gas (contract f);
                gas = gas0 - gas0 div 64;
                f1 = useGas gas f
            in fbind (Create2 E run (contractRef (contract f1)) input gas (uint endowment) salt m)
                 (\<lambda>(res, addr, returnGas, suberr, m').
                   let stackvalue = (if suberr \<noteq> None then 0 else addrWord addr);
                       f2 = addGas returnGas (f1\<lparr>stack := stackvalue # st\<rparr>)
                   in Some (Inr (f2, m', if suberr = Some ErrExecutionReverted then res else [], None))))
      | _ \<Rightarrow> Some (Inl StackPanic))"

subsection \<open>Calling contracts\<close>

text \<open>
  The end of the four call instructions. When the callee returned its input slice, that slice
  is a view of this frame's memory: the bytes returned to the interpreter are read after the
  result has been written to memory.
\<close>

definition afterCall ::
    "u256 \<Rightarrow> u256 \<Rightarrow> u256 \<Rightarrow> u256 \<Rightarrow> stack \<Rightarrow> frame \<Rightarrow> bytes \<Rightarrow> (slice \<times> u64 \<times> vmError option \<times> evm) \<Rightarrow> opResult" where
  "afterCall inOffset inSize retOffset retSize st f args r =
     (let (ret, returnGas, err, m') = r;
          temp = (if err \<noteq> None then 0 else 1);
          f1 = f\<lparr>stack := temp # st\<rparr>
      in rbind (if err = None \<or> err = Some ErrExecutionReverted
                then Memory_Set (Uint64 retOffset) (Uint64 retSize) (sliceBytes args ret) (memory f1)
                else Inr (memory f1)) (\<lambda>mem.
         rbind (case ret of
                  OwnBytes b \<Rightarrow> Inr b
                | InputSlice \<Rightarrow> GetPtr (Uint64 inOffset) (Uint64 inSize) mem) (\<lambda>res.
           Inr (addGas returnGas (f1\<lparr>memory := mem\<rparr>), m', res, None))))"

definition opCall :: executionFunc where
  "opCall E run f m =
     (case stack f of
        temp # addr # value # inOffset # inSize # retOffset # retSize # st \<Rightarrow>
          fbind (Some (GetPtr (Uint64 inOffset) (Uint64 inSize) (memory f))) (\<lambda>args.
            let gas = (if value \<noteq> 0 then callGasTemp m + CallStipend else callGasTemp m)
            in fbind (Call E run (contractRef (contract f)) (Bytes20 addr) args gas (uint value) m)
                 (\<lambda>r. Some (afterCall inOffset inSize retOffset retSize st f args r)))
      | _ \<Rightarrow> Some (Inl StackPanic))"

definition opCallCode :: executionFunc where
  "opCallCode E run f m =
     (case stack f of
        temp # addr # value # inOffset # inSize # retOffset # retSize # st \<Rightarrow>
          fbind (Some (GetPtr (Uint64 inOffset) (Uint64 inSize) (memory f))) (\<lambda>args.
            let gas = (if value \<noteq> 0 then callGasTemp m + CallStipend else callGasTemp m)
            in fbind (CallCode E run (contractRef (contract f)) (Bytes20 addr) args gas (uint value) m)
                 (\<lambda>r. Some (afterCall inOffset inSize retOffset retSize st f args r)))
      | _ \<Rightarrow> Some (Inl StackPanic))"

definition opDelegateCall :: executionFunc where
  "opDelegateCall E run f m =
     (case stack f of
        temp # addr # inOffset # inSize # retOffset # retSize # st \<Rightarrow>
          fbind (Some (GetPtr (Uint64 inOffset) (Uint64 inSize) (memory f))) (\<lambda>args.
            fbind (DelegateCall E run (contractRef (contract f)) (Bytes20 addr) args (callGasTemp m) m)
              (\<lambda>r. Some (afterCall inOffset inSize retOffset retSize st f args r)))
      | _ \<Rightarrow> Some (Inl StackPanic))"

definition opStaticCall :: executionFunc where
  "opStaticCall E run f m =
     (case stack f of
        temp # addr # inOffset # inSize # retOffset # retSize # st \<Rightarrow>
          fbind (Some (GetPtr (Uint64 inOffset) (Uint64 inSize) (memory f))) (\<lambda>args.
            fbind (StaticCall E run (contractRef (contract f)) (Bytes20 addr) args (callGasTemp m) m)
              (\<lambda>r. Some (afterCall inOffset inSize retOffset retSize st f args r)))
      | _ \<Rightarrow> Some (Inl StackPanic))"

end
