(* ===== verification/EvmGas.thy ===== *)
theory EvmGas
  imports EvmState
begin

text \<open>
  The gas functions of \<^verbatim>\<open>core/vm/gas.go\<close> and \<^verbatim>\<open>core/vm/gas_table.go\<close>. A gas function may grow
  \<^verbatim>\<open>mem.lastGasCost\<close>, set \<^verbatim>\<open>evm.callGasTemp\<close> and move the refund counter, also when it fails, so it
  returns the memory and the machine along with the error or the cost.
\<close>

type_synonym 'a gasResult = "panic + Memory \<times> evm \<times> (vmError + 'a)"
type_synonym gasFunc = "env \<Rightarrow> Contract \<Rightarrow> stack \<Rightarrow> Memory \<Rightarrow> u64 \<Rightarrow> evm \<Rightarrow> u64 gasResult"

definition gbind :: "'a gasResult \<Rightarrow> ('a \<Rightarrow> Memory \<Rightarrow> evm \<Rightarrow> 'b gasResult) \<Rightarrow> 'b gasResult" where
  "gbind r k = rbind r (\<lambda>(mem, m, x). case x of Inl e \<Rightarrow> Inr (mem, m, Inl e) | Inr a \<Rightarrow> k a mem m)"

definition gret :: "vmError + 'a \<Rightarrow> Memory \<Rightarrow> evm \<Rightarrow> 'a gasResult" where
  "gret x mem m = Inr (mem, m, x)"

definition gback :: "nat \<Rightarrow> stack \<Rightarrow> Memory \<Rightarrow> evm \<Rightarrow> u256 gasResult" where
  "gback n st mem m = rbind (Back n st) (\<lambda>x. gret (Inr x) mem m)"

definition callGas :: "bool \<Rightarrow> u64 \<Rightarrow> u64 \<Rightarrow> u256 \<Rightarrow> vmError + u64" where
  "callGas isEip150 availableGas base callCost =
     (let available = availableGas - base; gas = available - available div 64
      in if isEip150 \<and> (\<not> IsUint64 callCost \<or> gas < Uint64 callCost) then Inr gas
         else if \<not> IsUint64 callCost then Inl ErrGasUintOverflow
         else Inr (Uint64 callCost))"

definition memoryGasCost :: "Memory \<Rightarrow> u64 \<Rightarrow> Memory \<times> (vmError + u64)" where
  "memoryGasCost mem newMemSize0 =
     (if newMemSize0 = 0 then (mem, Inr 0)
      else if newMemSize0 > 0x1FFFFFFFE0 then (mem, Inl ErrGasUintOverflow)
      else let newMemSizeWords = toWordSize newMemSize0;
               newMemSize = newMemSizeWords * 32
           in if newMemSize > of_nat (length (store mem))
              then let square = newMemSizeWords * newMemSizeWords;
                       linCoef = newMemSizeWords * MemoryGas;
                       quadCoef = square div QuadCoeffDiv;
                       newTotalFee = linCoef + quadCoef;
                       fee = newTotalFee - lastGasCost mem
                   in (mem\<lparr>lastGasCost := newTotalFee\<rparr>, Inr fee)
              else (mem, Inr 0))"

definition gmemory :: "u64 \<Rightarrow> Memory \<Rightarrow> evm \<Rightarrow> u64 gasResult" where
  "gmemory memorySize mem m = (let (mem', x) = memoryGasCost mem memorySize in gret x mem' m)"

definition memoryCopierGas :: "nat \<Rightarrow> gasFunc" where
  "memoryCopierGas stackpos E c st mem memorySize m =
     gbind (gmemory memorySize mem m) (\<lambda>gas mem m.
     gbind (gback stackpos st mem m) (\<lambda>w mem m.
       gret (rbind (checked (Uint64WithOverflow w)) (\<lambda>words.
             rbind (checked (SafeMul (toWordSize words) CopyGas)) (\<lambda>words.
             checked (SafeAdd gas words)))) mem m))"

definition gasCallDataCopy :: gasFunc where
  "gasCallDataCopy = memoryCopierGas 2"

definition gasCodeCopy :: gasFunc where
  "gasCodeCopy = memoryCopierGas 2"

definition gasExtCodeCopy :: gasFunc where
  "gasExtCodeCopy = memoryCopierGas 3"

definition gasReturnDataCopy :: gasFunc where
  "gasReturnDataCopy = memoryCopierGas 2"

text \<open>Queries and updates of the state database by a gas function.\<close>

definition gquery :: "(StateDB \<Rightarrow> 'a \<times> StateDB) \<Rightarrow> Memory \<Rightarrow> evm \<Rightarrow> 'a gasResult" where
  "gquery q mem m = (let (x, s) = q (statedb m) in Inr (mem, m\<lparr>statedb := s\<rparr>, Inr x))"

definition gaddRefund :: "u64 \<Rightarrow> Memory \<Rightarrow> evm \<Rightarrow> unit gasResult" where
  "gaddRefund gas mem m = Inr (mem, m\<lparr>statedb := AddRefund gas (statedb m)\<rparr>, Inr ())"

definition gsubRefund :: "u64 \<Rightarrow> Memory \<Rightarrow> evm \<Rightarrow> unit gasResult" where
  "gsubRefund gas mem m =
     (case SubRefund gas (statedb m) of
        None \<Rightarrow> Inl RefundPanic
      | Some s \<Rightarrow> Inr (mem, m\<lparr>statedb := s\<rparr>, Inr ()))"

definition gskip :: "Memory \<Rightarrow> evm \<Rightarrow> unit gasResult" where
  "gskip mem m = Inr (mem, m, Inr ())"

definition gasSStore :: gasFunc where
  "gasSStore E c st mem memorySize m =
     gbind (gback 1 st mem m) (\<lambda>y mem m.
     gbind (gback 0 st mem m) (\<lambda>x mem m.
     gbind (gquery (GetState (rdr E) (c_self c) x) mem m) (\<lambda>current mem m.
       if IsPetersburg (chainRules E) \<or> \<not> IsConstantinople (chainRules E)
       then if current = 0 \<and> y \<noteq> 0 then gret (Inr SstoreSetGas) mem m
            else if current \<noteq> 0 \<and> y = 0
            then gbind (gaddRefund SstoreRefundGas mem m) (\<lambda>_. gret (Inr SstoreClearGas))
            else gret (Inr SstoreResetGas) mem m
       else if current = y then gret (Inr NetSstoreNoopGas) mem m
       else gbind (gquery (GetCommittedState (rdr E) (c_self c) x) mem m) (\<lambda>original mem m.
         if original = current
         then if original = 0 then gret (Inr NetSstoreInitGas) mem m
              else gbind (if y = 0 then gaddRefund NetSstoreClearRefund mem m else gskip mem m) (\<lambda>_.
                   gret (Inr NetSstoreCleanGas))
         else gbind (if original \<noteq> 0
                     then if current = 0 then gsubRefund NetSstoreClearRefund mem m
                          else if y = 0 then gaddRefund NetSstoreClearRefund mem m
                          else gskip mem m
                     else gskip mem m) (\<lambda>_ mem m.
              gbind (if original = y
                     then if original = 0 then gaddRefund NetSstoreResetClearRefund mem m
                          else gaddRefund NetSstoreResetRefund mem m
                     else gskip mem m) (\<lambda>_.
              gret (Inr NetSstoreDirtyGas)))))))"

definition gasSStoreEIP2200 :: gasFunc where
  "gasSStoreEIP2200 E c st mem memorySize m =
     (if c_Gas c \<le> SstoreSentryGasEIP2200 then gret (Inl ErrReentrancySentry) mem m
      else gbind (gback 1 st mem m) (\<lambda>y mem m.
      gbind (gback 0 st mem m) (\<lambda>x mem m.
      gbind (gquery (GetState (rdr E) (c_self c) x) mem m) (\<lambda>current mem m.
        if current = y then gret (Inr SloadGasEIP2200) mem m
        else gbind (gquery (GetCommittedState (rdr E) (c_self c) x) mem m) (\<lambda>original mem m.
          if original = current
          then if original = 0 then gret (Inr SstoreSetGasEIP2200) mem m
               else gbind (if y = 0 then gaddRefund SstoreClearsScheduleRefundEIP2200 mem m
                           else gskip mem m) (\<lambda>_.
                    gret (Inr SstoreResetGasEIP2200))
          else gbind (if original \<noteq> 0
                      then if current = 0 then gsubRefund SstoreClearsScheduleRefundEIP2200 mem m
                           else if y = 0 then gaddRefund SstoreClearsScheduleRefundEIP2200 mem m
                           else gskip mem m
                      else gskip mem m) (\<lambda>_ mem m.
               gbind (if original = y
                      then if original = 0 then gaddRefund (SstoreSetGasEIP2200 - SloadGasEIP2200) mem m
                           else gaddRefund (SstoreResetGasEIP2200 - SloadGasEIP2200) mem m
                      else gskip mem m) (\<lambda>_.
               gret (Inr SloadGasEIP2200))))))))"

definition makeGasLog :: "u64 \<Rightarrow> gasFunc" where
  "makeGasLog n E c st mem memorySize m =
     gbind (gback 1 st mem m) (\<lambda>w mem m.
     gbind (gret (checked (Uint64WithOverflow w)) mem m) (\<lambda>requestedSize mem m.
     gbind (gmemory memorySize mem m) (\<lambda>gas mem m.
       gret (rbind (checked (SafeAdd gas LogGas)) (\<lambda>gas.
             rbind (checked (SafeAdd gas (n * LogTopicGas))) (\<lambda>gas.
             rbind (checked (SafeMul requestedSize LogDataGas)) (\<lambda>memorySizeGas.
             checked (SafeAdd gas memorySizeGas))))) mem m)))"

definition wordGas :: "nat \<Rightarrow> u64 \<Rightarrow> gasFunc" where
  "wordGas pos price E c st mem memorySize m =
     gbind (gmemory memorySize mem m) (\<lambda>gas mem m.
     gbind (gback pos st mem m) (\<lambda>w mem m.
       gret (rbind (checked (Uint64WithOverflow w)) (\<lambda>wordGas.
             rbind (checked (SafeMul (toWordSize wordGas) price)) (\<lambda>wordGas.
             checked (SafeAdd gas wordGas)))) mem m))"

definition gasSha3 :: gasFunc where
  "gasSha3 = wordGas 1 Sha3WordGas"

definition pureMemoryGascost :: gasFunc where
  "pureMemoryGascost E c st mem memorySize m = gmemory memorySize mem m"

definition gasReturn :: gasFunc where "gasReturn = pureMemoryGascost"

definition gasRevert :: gasFunc where "gasRevert = pureMemoryGascost"

definition gasMLoad :: gasFunc where "gasMLoad = pureMemoryGascost"

definition gasMStore8 :: gasFunc where "gasMStore8 = pureMemoryGascost"

definition gasMStore :: gasFunc where "gasMStore = pureMemoryGascost"

definition gasCreate :: gasFunc where "gasCreate = pureMemoryGascost"

definition gasCreate2 :: gasFunc where
  "gasCreate2 = wordGas 2 Sha3WordGas"

definition expGas :: "u64 \<Rightarrow> gasFunc" where
  "expGas price E c st mem memorySize m =
     gbind (gback 1 st mem m) (\<lambda>x mem m.
       let expByteLen = of_nat ((BitLen x + 7) div 8)
       in gret (checked (SafeAdd (expByteLen * price) ExpGas)) mem m)"

definition gasExpFrontier :: gasFunc where
  "gasExpFrontier = expGas ExpByteFrontier"

definition gasExpEIP158 :: gasFunc where
  "gasExpEIP158 = expGas ExpByteEIP158"

text \<open>The end of the four call gas functions: set \<^verbatim>\<open>evm.callGasTemp\<close> and add it to the cost.\<close>

definition gcall :: "env \<Rightarrow> Contract \<Rightarrow> stack \<Rightarrow> u64 \<Rightarrow> Memory \<Rightarrow> evm \<Rightarrow> u64 gasResult" where
  "gcall E c st gas mem m =
     gbind (gback 0 st mem m) (\<lambda>callCost mem m.
       case callGas (IsEIP150 (chainRules E)) (c_Gas c) gas callCost of
         Inl e \<Rightarrow> Inr (mem, m\<lparr>callGasTemp := 0\<rparr>, Inl e)
       | Inr t \<Rightarrow> gret (checked (SafeAdd gas t)) mem (m\<lparr>callGasTemp := t\<rparr>))"

definition gasCall :: gasFunc where
  "gasCall E c st mem memorySize m =
     gbind (gback 2 st mem m) (\<lambda>v mem m.
     gbind (gback 1 st mem m) (\<lambda>a mem m.
       let transfersValue = (v \<noteq> 0); address = Bytes20 a
       in gbind (if IsEIP158 (chainRules E)
                 then if transfersValue then gquery (Empty (rdr E) address) mem m
                      else gret (Inr False) mem m
                 else gbind (gquery (Exist (rdr E) address) mem m) (\<lambda>ex. gret (Inr (\<not> ex)))) (\<lambda>new mem m.
          let gas = (if new then CallNewAccountGas else 0);
              gas = (if transfersValue then gas + CallValueTransferGas else gas)
          in gbind (gmemory memorySize mem m) (\<lambda>memoryGas mem m.
             gbind (gret (checked (SafeAdd gas memoryGas)) mem m) (\<lambda>gas mem m.
             gcall E c st gas mem m)))))"

definition gasCallCode :: gasFunc where
  "gasCallCode E c st mem memorySize m =
     gbind (gmemory memorySize mem m) (\<lambda>memoryGas mem m.
     gbind (gback 2 st mem m) (\<lambda>v mem m.
       let gas = (if Sign v \<noteq> 0 then CallValueTransferGas else 0)
       in gbind (gret (checked (SafeAdd gas memoryGas)) mem m) (\<lambda>gas mem m.
          gcall E c st gas mem m)))"

definition gasDelegateCall :: gasFunc where
  "gasDelegateCall E c st mem memorySize m =
     gbind (gmemory memorySize mem m) (\<lambda>gas mem m. gcall E c st gas mem m)"

definition gasStaticCall :: gasFunc where
  "gasStaticCall E c st mem memorySize m =
     gbind (gmemory memorySize mem m) (\<lambda>gas mem m. gcall E c st gas mem m)"

definition gasSelfdestruct :: gasFunc where
  "gasSelfdestruct E c st mem memorySize m =
     gbind (if IsEIP150 (chainRules E)
            then gbind (gback 0 st mem m) (\<lambda>a mem m.
              let address = Bytes20 a
              in if IsEIP158 (chainRules E)
                 then gbind (gquery (Empty (rdr E) address) mem m) (\<lambda>e mem m.
                      if e then gbind (gquery (GetBalance (rdr E) (c_self c)) mem m) (\<lambda>b.
                                gret (Inr (if b \<noteq> 0 then SelfdestructGasEIP150 + CreateBySelfdestructGas
                                           else SelfdestructGasEIP150)))
                      else gret (Inr SelfdestructGasEIP150) mem m)
                 else gbind (gquery (Exist (rdr E) address) mem m) (\<lambda>ex.
                      gret (Inr (if \<not> ex then SelfdestructGasEIP150 + CreateBySelfdestructGas
                                 else SelfdestructGasEIP150))))
            else gret (Inr 0) mem m) (\<lambda>gas mem m.
     gbind (gquery (HasSuicided (rdr E) (c_self c)) mem m) (\<lambda>dead mem m.
     gbind (if \<not> dead then gaddRefund SelfdestructRefundGas mem m else gskip mem m) (\<lambda>_.
       gret (Inr gas))))"

end
