(* ===== verification/EvmTable.thy ===== *)
theory EvmTable
  imports EvmOps EvmGas
begin

text \<open>
  The jump tables of \<^verbatim>\<open>core/vm/jump_table.go\<close>, one per fork, the activators of single EIPs
  (\<^verbatim>\<open>core/vm/eips.go\<close>), and the choice of the table by \<^verbatim>\<open>NewEVMInterpreter\<close>.

  A table maps an opcode to its operation; the fields that an entry of the Go table leaves out
  are nil or false. The table of the first fork is a literal, split here by opcode range.
\<close>

record operation =
  o_execute :: executionFunc
  o_constantGas :: u64
  o_dynamicGas :: "gasFunc option"
  o_minStack :: nat
  o_maxStack :: nat
  o_memorySize :: "memorySizeFunc option"
  o_halts :: bool
  o_jumps :: bool
  o_writes :: bool
  o_reverts :: bool
  o_returns :: bool

type_synonym JumpTable = "byte \<rightharpoonup> operation"

definition mkOp :: "executionFunc \<Rightarrow> u64 \<Rightarrow> nat \<Rightarrow> nat \<Rightarrow> operation" where
  "mkOp e g lo hi = \<lparr>o_execute = e, o_constantGas = g, o_dynamicGas = None, o_minStack = lo,
     o_maxStack = hi, o_memorySize = None, o_halts = False, o_jumps = False, o_writes = False,
     o_reverts = False, o_returns = False\<rparr>"

definition frontierArith :: "(byte \<times> operation) list" where
  "frontierArith = [
    (STOP, (mkOp (plain opStop) 0 (minStack 0 0) (maxStack 0 0))\<lparr>o_halts := True\<rparr>),
    (ADD, mkOp (plain opAdd) GasFastestStep (minStack 2 1) (maxStack 2 1)),
    (MUL, mkOp (plain opMul) GasFastStep (minStack 2 1) (maxStack 2 1)),
    (SUB, mkOp (plain opSub) GasFastestStep (minStack 2 1) (maxStack 2 1)),
    (DIV, mkOp (plain opDiv) GasFastStep (minStack 2 1) (maxStack 2 1)),
    (SDIV, mkOp (plain opSdiv) GasFastStep (minStack 2 1) (maxStack 2 1)),
    (MOD, mkOp (plain opMod) GasFastStep (minStack 2 1) (maxStack 2 1)),
    (SMOD, mkOp (plain opSmod) GasFastStep (minStack 2 1) (maxStack 2 1)),
    (ADDMOD, mkOp (plain opAddmod) GasMidStep (minStack 3 1) (maxStack 3 1)),
    (MULMOD, mkOp (plain opMulmod) GasMidStep (minStack 3 1) (maxStack 3 1)),
    (EXP, (mkOp (plain opExp) 0 (minStack 2 1) (maxStack 2 1))
       \<lparr>o_dynamicGas := Some gasExpFrontier\<rparr>),
    (SIGNEXTEND, mkOp (plain opSignExtend) GasFastStep (minStack 2 1) (maxStack 2 1)),
    (LT, mkOp (plain opLt) GasFastestStep (minStack 2 1) (maxStack 2 1)),
    (GT, mkOp (plain opGt) GasFastestStep (minStack 2 1) (maxStack 2 1)),
    (SLT, mkOp (plain opSlt) GasFastestStep (minStack 2 1) (maxStack 2 1)),
    (SGT, mkOp (plain opSgt) GasFastestStep (minStack 2 1) (maxStack 2 1)),
    (EQ, mkOp (plain opEq) GasFastestStep (minStack 2 1) (maxStack 2 1)),
    (ISZERO, mkOp (plain opIszero) GasFastestStep (minStack 1 1) (maxStack 1 1)),
    (AND_op, mkOp (plain opAnd) GasFastestStep (minStack 2 1) (maxStack 2 1)),
    (XOR_op, mkOp (plain opXor) GasFastestStep (minStack 2 1) (maxStack 2 1)),
    (OR_op, mkOp (plain opOr) GasFastestStep (minStack 2 1) (maxStack 2 1)),
    (NOT_op, mkOp (plain opNot) GasFastestStep (minStack 1 1) (maxStack 1 1)),
    (BYTE, mkOp (plain opByte) GasFastestStep (minStack 2 1) (maxStack 2 1))]"

definition frontierEnv :: "(byte \<times> operation) list" where
  "frontierEnv = [
    (SHA3, (mkOp (plain opSha3) Sha3Gas (minStack 2 1) (maxStack 2 1))
       \<lparr>o_dynamicGas := Some gasSha3, o_memorySize := Some memorySha3\<rparr>),
    (ADDRESS, mkOp (plain opAddress) GasQuickStep (minStack 0 1) (maxStack 0 1)),
    (BALANCE, mkOp (plain opBalance) BalanceGasFrontier (minStack 1 1) (maxStack 1 1)),
    (ORIGIN, mkOp (plain opOrigin) GasQuickStep (minStack 0 1) (maxStack 0 1)),
    (CALLER, mkOp (plain opCaller) GasQuickStep (minStack 0 1) (maxStack 0 1)),
    (CALLVALUE, mkOp (plain opCallValue) GasQuickStep (minStack 0 1) (maxStack 0 1)),
    (CALLDATALOAD, mkOp (plain opCallDataLoad) GasFastestStep (minStack 1 1) (maxStack 1 1)),
    (CALLDATASIZE, mkOp (plain opCallDataSize) GasQuickStep (minStack 0 1) (maxStack 0 1)),
    (CALLDATACOPY, (mkOp (plain opCallDataCopy) GasFastestStep (minStack 3 0) (maxStack 3 0))
       \<lparr>o_dynamicGas := Some gasCallDataCopy, o_memorySize := Some memoryCallDataCopy\<rparr>),
    (CODESIZE, mkOp (plain opCodeSize) GasQuickStep (minStack 0 1) (maxStack 0 1)),
    (CODECOPY, (mkOp (plain opCodeCopy) GasFastestStep (minStack 3 0) (maxStack 3 0))
       \<lparr>o_dynamicGas := Some gasCodeCopy, o_memorySize := Some memoryCodeCopy\<rparr>),
    (GASPRICE, mkOp (plain opGasprice) GasQuickStep (minStack 0 1) (maxStack 0 1)),
    (EXTCODESIZE, mkOp (plain opExtCodeSize) ExtcodeSizeGasFrontier (minStack 1 1) (maxStack 1 1)),
    (EXTCODECOPY, (mkOp (plain opExtCodeCopy) ExtcodeCopyBaseFrontier (minStack 4 0) (maxStack 4 0))
       \<lparr>o_dynamicGas := Some gasExtCodeCopy, o_memorySize := Some memoryExtCodeCopy\<rparr>)]"

definition frontierBlock :: "(byte \<times> operation) list" where
  "frontierBlock = [
    (BLOCKHASH, mkOp (plain opBlockhash) GasExtStep (minStack 1 1) (maxStack 1 1)),
    (COINBASE, mkOp (plain opCoinbase) GasQuickStep (minStack 0 1) (maxStack 0 1)),
    (TIMESTAMP, mkOp (plain opTimestamp) GasQuickStep (minStack 0 1) (maxStack 0 1)),
    (NUMBER, mkOp (plain opNumber) GasQuickStep (minStack 0 1) (maxStack 0 1)),
    (DIFFICULTY, mkOp (plain opDifficulty) GasQuickStep (minStack 0 1) (maxStack 0 1)),
    (GASLIMIT, mkOp (plain opGasLimit) GasQuickStep (minStack 0 1) (maxStack 0 1))]"

definition frontierFlow :: "(byte \<times> operation) list" where
  "frontierFlow = [
    (POP, mkOp (plain opPop) GasQuickStep (minStack 1 0) (maxStack 1 0)),
    (MLOAD, (mkOp (plain opMload) GasFastestStep (minStack 1 1) (maxStack 1 1))
       \<lparr>o_dynamicGas := Some gasMLoad, o_memorySize := Some memoryMLoad\<rparr>),
    (MSTORE, (mkOp (plain opMstore) GasFastestStep (minStack 2 0) (maxStack 2 0))
       \<lparr>o_dynamicGas := Some gasMStore, o_memorySize := Some memoryMStore\<rparr>),
    (MSTORE8, (mkOp (plain opMstore8) GasFastestStep (minStack 2 0) (maxStack 2 0))
       \<lparr>o_dynamicGas := Some gasMStore8, o_memorySize := Some memoryMStore8\<rparr>),
    (SLOAD, mkOp (plain opSload) SloadGasFrontier (minStack 1 1) (maxStack 1 1)),
    (SSTORE, (mkOp (plain opSstore) 0 (minStack 2 0) (maxStack 2 0))
       \<lparr>o_dynamicGas := Some gasSStore, o_writes := True\<rparr>),
    (JUMP, (mkOp (plain opJump) GasMidStep (minStack 1 0) (maxStack 1 0))
       \<lparr>o_jumps := True\<rparr>),
    (JUMPI, (mkOp (plain opJumpi) GasSlowStep (minStack 2 0) (maxStack 2 0))
       \<lparr>o_jumps := True\<rparr>),
    (PC, mkOp (plain opPc) GasQuickStep (minStack 0 1) (maxStack 0 1)),
    (MSIZE, mkOp (plain opMsize) GasQuickStep (minStack 0 1) (maxStack 0 1)),
    (GAS, mkOp (plain opGas) GasQuickStep (minStack 0 1) (maxStack 0 1)),
    (JUMPDEST, mkOp (plain opJumpdest) JumpdestGas (minStack 0 0) (maxStack 0 0))]"

definition frontierPush1 :: "(byte \<times> operation) list" where
  "frontierPush1 = [
    (PUSH1, mkOp (plain opPush1) GasFastestStep (minStack 0 1) (maxStack 0 1)),
    (PUSH2, mkOp (plain (makePush 2 2)) GasFastestStep (minStack 0 1) (maxStack 0 1)),
    (PUSH3, mkOp (plain (makePush 3 3)) GasFastestStep (minStack 0 1) (maxStack 0 1)),
    (PUSH4, mkOp (plain (makePush 4 4)) GasFastestStep (minStack 0 1) (maxStack 0 1)),
    (PUSH5, mkOp (plain (makePush 5 5)) GasFastestStep (minStack 0 1) (maxStack 0 1)),
    (PUSH6, mkOp (plain (makePush 6 6)) GasFastestStep (minStack 0 1) (maxStack 0 1)),
    (PUSH7, mkOp (plain (makePush 7 7)) GasFastestStep (minStack 0 1) (maxStack 0 1)),
    (PUSH8, mkOp (plain (makePush 8 8)) GasFastestStep (minStack 0 1) (maxStack 0 1)),
    (PUSH9, mkOp (plain (makePush 9 9)) GasFastestStep (minStack 0 1) (maxStack 0 1)),
    (PUSH10, mkOp (plain (makePush 10 10)) GasFastestStep (minStack 0 1) (maxStack 0 1)),
    (PUSH11, mkOp (plain (makePush 11 11)) GasFastestStep (minStack 0 1) (maxStack 0 1)),
    (PUSH12, mkOp (plain (makePush 12 12)) GasFastestStep (minStack 0 1) (maxStack 0 1)),
    (PUSH13, mkOp (plain (makePush 13 13)) GasFastestStep (minStack 0 1) (maxStack 0 1)),
    (PUSH14, mkOp (plain (makePush 14 14)) GasFastestStep (minStack 0 1) (maxStack 0 1)),
    (PUSH15, mkOp (plain (makePush 15 15)) GasFastestStep (minStack 0 1) (maxStack 0 1)),
    (PUSH16, mkOp (plain (makePush 16 16)) GasFastestStep (minStack 0 1) (maxStack 0 1))]"

definition frontierPush2 :: "(byte \<times> operation) list" where
  "frontierPush2 = [
    (PUSH17, mkOp (plain (makePush 17 17)) GasFastestStep (minStack 0 1) (maxStack 0 1)),
    (PUSH18, mkOp (plain (makePush 18 18)) GasFastestStep (minStack 0 1) (maxStack 0 1)),
    (PUSH19, mkOp (plain (makePush 19 19)) GasFastestStep (minStack 0 1) (maxStack 0 1)),
    (PUSH20, mkOp (plain (makePush 20 20)) GasFastestStep (minStack 0 1) (maxStack 0 1)),
    (PUSH21, mkOp (plain (makePush 21 21)) GasFastestStep (minStack 0 1) (maxStack 0 1)),
    (PUSH22, mkOp (plain (makePush 22 22)) GasFastestStep (minStack 0 1) (maxStack 0 1)),
    (PUSH23, mkOp (plain (makePush 23 23)) GasFastestStep (minStack 0 1) (maxStack 0 1)),
    (PUSH24, mkOp (plain (makePush 24 24)) GasFastestStep (minStack 0 1) (maxStack 0 1)),
    (PUSH25, mkOp (plain (makePush 25 25)) GasFastestStep (minStack 0 1) (maxStack 0 1)),
    (PUSH26, mkOp (plain (makePush 26 26)) GasFastestStep (minStack 0 1) (maxStack 0 1)),
    (PUSH27, mkOp (plain (makePush 27 27)) GasFastestStep (minStack 0 1) (maxStack 0 1)),
    (PUSH28, mkOp (plain (makePush 28 28)) GasFastestStep (minStack 0 1) (maxStack 0 1)),
    (PUSH29, mkOp (plain (makePush 29 29)) GasFastestStep (minStack 0 1) (maxStack 0 1)),
    (PUSH30, mkOp (plain (makePush 30 30)) GasFastestStep (minStack 0 1) (maxStack 0 1)),
    (PUSH31, mkOp (plain (makePush 31 31)) GasFastestStep (minStack 0 1) (maxStack 0 1)),
    (PUSH32, mkOp (plain (makePush 32 32)) GasFastestStep (minStack 0 1) (maxStack 0 1))]"

definition frontierDup :: "(byte \<times> operation) list" where
  "frontierDup = [
    (DUP1, mkOp (plain (makeDup 1)) GasFastestStep (minDupStack 1) (maxDupStack 1)),
    (DUP2, mkOp (plain (makeDup 2)) GasFastestStep (minDupStack 2) (maxDupStack 2)),
    (DUP3, mkOp (plain (makeDup 3)) GasFastestStep (minDupStack 3) (maxDupStack 3)),
    (DUP4, mkOp (plain (makeDup 4)) GasFastestStep (minDupStack 4) (maxDupStack 4)),
    (DUP5, mkOp (plain (makeDup 5)) GasFastestStep (minDupStack 5) (maxDupStack 5)),
    (DUP6, mkOp (plain (makeDup 6)) GasFastestStep (minDupStack 6) (maxDupStack 6)),
    (DUP7, mkOp (plain (makeDup 7)) GasFastestStep (minDupStack 7) (maxDupStack 7)),
    (DUP8, mkOp (plain (makeDup 8)) GasFastestStep (minDupStack 8) (maxDupStack 8)),
    (DUP9, mkOp (plain (makeDup 9)) GasFastestStep (minDupStack 9) (maxDupStack 9)),
    (DUP10, mkOp (plain (makeDup 10)) GasFastestStep (minDupStack 10) (maxDupStack 10)),
    (DUP11, mkOp (plain (makeDup 11)) GasFastestStep (minDupStack 11) (maxDupStack 11)),
    (DUP12, mkOp (plain (makeDup 12)) GasFastestStep (minDupStack 12) (maxDupStack 12)),
    (DUP13, mkOp (plain (makeDup 13)) GasFastestStep (minDupStack 13) (maxDupStack 13)),
    (DUP14, mkOp (plain (makeDup 14)) GasFastestStep (minDupStack 14) (maxDupStack 14)),
    (DUP15, mkOp (plain (makeDup 15)) GasFastestStep (minDupStack 15) (maxDupStack 15)),
    (DUP16, mkOp (plain (makeDup 16)) GasFastestStep (minDupStack 16) (maxDupStack 16))]"

definition frontierSwap :: "(byte \<times> operation) list" where
  "frontierSwap = [
    (SWAP1, mkOp (plain (makeSwap 1)) GasFastestStep (minSwapStack 2) (maxSwapStack 2)),
    (SWAP2, mkOp (plain (makeSwap 2)) GasFastestStep (minSwapStack 3) (maxSwapStack 3)),
    (SWAP3, mkOp (plain (makeSwap 3)) GasFastestStep (minSwapStack 4) (maxSwapStack 4)),
    (SWAP4, mkOp (plain (makeSwap 4)) GasFastestStep (minSwapStack 5) (maxSwapStack 5)),
    (SWAP5, mkOp (plain (makeSwap 5)) GasFastestStep (minSwapStack 6) (maxSwapStack 6)),
    (SWAP6, mkOp (plain (makeSwap 6)) GasFastestStep (minSwapStack 7) (maxSwapStack 7)),
    (SWAP7, mkOp (plain (makeSwap 7)) GasFastestStep (minSwapStack 8) (maxSwapStack 8)),
    (SWAP8, mkOp (plain (makeSwap 8)) GasFastestStep (minSwapStack 9) (maxSwapStack 9)),
    (SWAP9, mkOp (plain (makeSwap 9)) GasFastestStep (minSwapStack 10) (maxSwapStack 10)),
    (SWAP10, mkOp (plain (makeSwap 10)) GasFastestStep (minSwapStack 11) (maxSwapStack 11)),
    (SWAP11, mkOp (plain (makeSwap 11)) GasFastestStep (minSwapStack 12) (maxSwapStack 12)),
    (SWAP12, mkOp (plain (makeSwap 12)) GasFastestStep (minSwapStack 13) (maxSwapStack 13)),
    (SWAP13, mkOp (plain (makeSwap 13)) GasFastestStep (minSwapStack 14) (maxSwapStack 14)),
    (SWAP14, mkOp (plain (makeSwap 14)) GasFastestStep (minSwapStack 15) (maxSwapStack 15)),
    (SWAP15, mkOp (plain (makeSwap 15)) GasFastestStep (minSwapStack 16) (maxSwapStack 16)),
    (SWAP16, mkOp (plain (makeSwap 16)) GasFastestStep (minSwapStack 17) (maxSwapStack 17))]"

definition frontierLog :: "(byte \<times> operation) list" where
  "frontierLog = [
    (LOG0, (mkOp (plain (makeLog 0)) 0 (minStack 2 0) (maxStack 2 0))
       \<lparr>o_dynamicGas := Some (makeGasLog 0), o_memorySize := Some memoryLog, o_writes := True\<rparr>),
    (LOG1, (mkOp (plain (makeLog 1)) 0 (minStack 3 0) (maxStack 3 0))
       \<lparr>o_dynamicGas := Some (makeGasLog 1), o_memorySize := Some memoryLog, o_writes := True\<rparr>),
    (LOG2, (mkOp (plain (makeLog 2)) 0 (minStack 4 0) (maxStack 4 0))
       \<lparr>o_dynamicGas := Some (makeGasLog 2), o_memorySize := Some memoryLog, o_writes := True\<rparr>),
    (LOG3, (mkOp (plain (makeLog 3)) 0 (minStack 5 0) (maxStack 5 0))
       \<lparr>o_dynamicGas := Some (makeGasLog 3), o_memorySize := Some memoryLog, o_writes := True\<rparr>),
    (LOG4, (mkOp (plain (makeLog 4)) 0 (minStack 6 0) (maxStack 6 0))
       \<lparr>o_dynamicGas := Some (makeGasLog 4), o_memorySize := Some memoryLog, o_writes := True\<rparr>)]"

definition frontierSystem :: "(byte \<times> operation) list" where
  "frontierSystem = [
    (CREATE, (mkOp opCreate CreateGas (minStack 3 1) (maxStack 3 1))
       \<lparr>o_dynamicGas := Some gasCreate, o_memorySize := Some memoryCreate, o_writes := True, o_returns := True\<rparr>),
    (CALL, (mkOp opCall CallGasFrontier (minStack 7 1) (maxStack 7 1))
       \<lparr>o_dynamicGas := Some gasCall, o_memorySize := Some memoryCall, o_returns := True\<rparr>),
    (CALLCODE, (mkOp opCallCode CallGasFrontier (minStack 7 1) (maxStack 7 1))
       \<lparr>o_dynamicGas := Some gasCallCode, o_memorySize := Some memoryCall, o_returns := True\<rparr>),
    (RETURN, (mkOp (plain opReturn) 0 (minStack 2 0) (maxStack 2 0))
       \<lparr>o_dynamicGas := Some gasReturn, o_memorySize := Some memoryReturn, o_halts := True\<rparr>),
    (SELFDESTRUCT, (mkOp (plain opSuicide) 0 (minStack 1 0) (maxStack 1 0))
       \<lparr>o_dynamicGas := Some gasSelfdestruct, o_halts := True, o_writes := True\<rparr>)]"

definition newFrontierInstructionSet :: JumpTable where
  "newFrontierInstructionSet = map_of (frontierArith @ frontierEnv @ frontierBlock
       @ frontierFlow @ frontierPush1 @ frontierPush2 @ frontierDup @ frontierSwap @ frontierLog @ frontierSystem)"

text \<open>Assignment to a field of an entry, which must exist.\<close>

definition setOp :: "byte \<Rightarrow> (operation \<Rightarrow> operation) \<Rightarrow> JumpTable \<Rightarrow> JumpTable" where
  "setOp k g jt = jt(k := map_option g (jt k))"

definition newHomesteadInstructionSet :: JumpTable where
  "newHomesteadInstructionSet = newFrontierInstructionSet(DELEGATECALL \<mapsto>
     (mkOp opDelegateCall CallGasFrontier (minStack 6 1) (maxStack 6 1))
       \<lparr>o_dynamicGas := Some gasDelegateCall, o_memorySize := Some memoryDelegateCall, o_returns := True\<rparr>)"

definition newTangerineWhistleInstructionSet :: JumpTable where
  "newTangerineWhistleInstructionSet =
     (setOp BALANCE (o_constantGas_update (\<lambda>_. BalanceGasEIP150))
      \<circ> setOp EXTCODESIZE (o_constantGas_update (\<lambda>_. ExtcodeSizeGasEIP150))
      \<circ> setOp SLOAD (o_constantGas_update (\<lambda>_. SloadGasEIP150))
      \<circ> setOp EXTCODECOPY (o_constantGas_update (\<lambda>_. ExtcodeCopyBaseEIP150))
      \<circ> setOp CALL (o_constantGas_update (\<lambda>_. CallGasEIP150))
      \<circ> setOp CALLCODE (o_constantGas_update (\<lambda>_. CallGasEIP150))
      \<circ> setOp DELEGATECALL (o_constantGas_update (\<lambda>_. CallGasEIP150))) newHomesteadInstructionSet"

definition newSpuriousDragonInstructionSet :: JumpTable where
  "newSpuriousDragonInstructionSet =
     setOp EXP (o_dynamicGas_update (\<lambda>_. Some gasExpEIP158)) newTangerineWhistleInstructionSet"

definition newByzantiumInstructionSet :: JumpTable where
  "newByzantiumInstructionSet = newSpuriousDragonInstructionSet(
     STATICCALL \<mapsto> (mkOp opStaticCall CallGasEIP150 (minStack 6 1) (maxStack 6 1))
       \<lparr>o_dynamicGas := Some gasStaticCall, o_memorySize := Some memoryStaticCall, o_returns := True\<rparr>,
     RETURNDATASIZE \<mapsto> mkOp (plain opReturnDataSize) GasQuickStep (minStack 0 1) (maxStack 0 1),
     RETURNDATACOPY \<mapsto> (mkOp (plain opReturnDataCopy) GasFastestStep (minStack 3 0) (maxStack 3 0))
       \<lparr>o_dynamicGas := Some gasReturnDataCopy, o_memorySize := Some memoryReturnDataCopy\<rparr>,
     REVERT \<mapsto> (mkOp (plain opRevert) 0 (minStack 2 0) (maxStack 2 0))
       \<lparr>o_dynamicGas := Some gasRevert, o_memorySize := Some memoryRevert, o_reverts := True,
        o_returns := True\<rparr>)"

definition newConstantinopleInstructionSet :: JumpTable where
  "newConstantinopleInstructionSet = newByzantiumInstructionSet(
     SHL \<mapsto> mkOp (plain opSHL) GasFastestStep (minStack 2 1) (maxStack 2 1),
     SHR \<mapsto> mkOp (plain opSHR) GasFastestStep (minStack 2 1) (maxStack 2 1),
     SAR \<mapsto> mkOp (plain opSAR) GasFastestStep (minStack 2 1) (maxStack 2 1),
     EXTCODEHASH \<mapsto> mkOp (plain opExtCodeHash) ExtcodeHashGasConstantinople (minStack 1 1) (maxStack 1 1),
     CREATE2 \<mapsto> (mkOp opCreate2 Create2Gas (minStack 4 1) (maxStack 4 1))
       \<lparr>o_dynamicGas := Some gasCreate2, o_memorySize := Some memoryCreate2, o_writes := True,
        o_returns := True\<rparr>)"

definition enable1344 :: "JumpTable \<Rightarrow> JumpTable" where
  "enable1344 jt = jt(CHAINID \<mapsto> mkOp (plain opChainID) GasQuickStep (minStack 0 1) (maxStack 0 1))"

definition enable1884 :: "JumpTable \<Rightarrow> JumpTable" where
  "enable1884 jt =
     ((setOp SLOAD (o_constantGas_update (\<lambda>_. SloadGasEIP1884))
      \<circ> setOp BALANCE (o_constantGas_update (\<lambda>_. BalanceGasEIP1884))
      \<circ> setOp EXTCODEHASH (o_constantGas_update (\<lambda>_. ExtcodeHashGasEIP1884))) jt)
     (SELFBALANCE \<mapsto> mkOp (plain opSelfBalance) GasFastStep (minStack 0 1) (maxStack 0 1))"

definition enable2200 :: "JumpTable \<Rightarrow> JumpTable" where
  "enable2200 jt =
     (setOp SLOAD (o_constantGas_update (\<lambda>_. SloadGasEIP2200))
      \<circ> setOp SSTORE (o_dynamicGas_update (\<lambda>_. Some gasSStoreEIP2200))) jt"

definition enable2315 :: "JumpTable \<Rightarrow> JumpTable" where
  "enable2315 jt = jt(
     BEGINSUB \<mapsto> mkOp (plain opBeginSub) GasQuickStep (minStack 0 0) (maxStack 0 0),
     JUMPSUB \<mapsto> (mkOp (plain opJumpSub) GasSlowStep (minStack 1 0) (maxStack 1 0))\<lparr>o_jumps := True\<rparr>,
     RETURNSUB \<mapsto> (mkOp (plain opReturnSub) GasFastStep (minStack 0 0) (maxStack 0 0))\<lparr>o_jumps := True\<rparr>)"

definition newIstanbulInstructionSet :: JumpTable where
  "newIstanbulInstructionSet = enable2200 (enable1884 (enable1344 newConstantinopleInstructionSet))"

definition newYoloV1InstructionSet :: JumpTable where
  "newYoloV1InstructionSet = enable2315 newIstanbulInstructionSet"

subsection \<open>Activating EIPs\<close>

text \<open>
  \<^verbatim>\<open>EnableEIP\<close> on a table. An activator that assigns to a field of a missing entry dereferences
  nil; an unknown number is an error and leaves the table alone.
\<close>

datatype enableError = EnablePanic panic | UndefinedEIP int

definition EnableEIP :: "int \<Rightarrow> JumpTable \<Rightarrow> enableError + JumpTable" where
  "EnableEIP eipNum jt =
     (if eipNum = 2200
      then if jt SLOAD = None \<or> jt SSTORE = None then Inl (EnablePanic NilPanic) else Inr (enable2200 jt)
      else if eipNum = 1884
      then if jt SLOAD = None \<or> jt BALANCE = None \<or> jt EXTCODEHASH = None then Inl (EnablePanic NilPanic)
           else Inr (enable1884 jt)
      else if eipNum = 1344 then Inr (enable1344 jt)
      else if eipNum = 2315 then Inr (enable2315 jt)
      else Inl (UndefinedEIP eipNum))"

definition ValidEip :: "int \<Rightarrow> bool" where
  "ValidEip eipNum \<longleftrightarrow> eipNum \<in> {2200, 1884, 1344, 2315}"

datatype fork = Frontier | Homestead | TangerineWhistle | SpuriousDragon | Byzantium | Constantinople
  | Istanbul | YoloV1

text \<open>The global instruction sets as they are after the package has been initialised.\<close>

fun instructionSets :: "fork \<Rightarrow> JumpTable" where
  "instructionSets Frontier = newFrontierInstructionSet"
| "instructionSets Homestead = newHomesteadInstructionSet"
| "instructionSets TangerineWhistle = newTangerineWhistleInstructionSet"
| "instructionSets SpuriousDragon = newSpuriousDragonInstructionSet"
| "instructionSets Byzantium = newByzantiumInstructionSet"
| "instructionSets Constantinople = newConstantinopleInstructionSet"
| "instructionSets Istanbul = newIstanbulInstructionSet"
| "instructionSets YoloV1 = newYoloV1InstructionSet"

definition forkOf :: "Rules \<Rightarrow> fork" where
  "forkOf r =
     (if IsYoloV1 r then YoloV1
      else if IsIstanbul r then Istanbul
      else if IsConstantinople r then Constantinople
      else if IsByzantium r then Byzantium
      else if IsEIP158 r then SpuriousDragon
      else if IsEIP150 r then TangerineWhistle
      else if IsHomestead r then Homestead
      else Frontier)"

text \<open>
  The loop over \<^verbatim>\<open>cfg.ExtraEips\<close>. It ranges over the slice it was entered with, \<open>n\<close> positions of
  the backing array \<open>arr\<close>, from position \<open>i\<close> on. An EIP that cannot be enabled is cut out by
  \<^verbatim>\<open>append(s[:i], s[i+1:]...)\<close>, which moves the rest of the current slice, the first \<open>k\<close> positions, one
  to the left in the same array; \<^verbatim>\<open>s[i+1:]\<close> is out of bounds when \<open>k \<le> i\<close>.
\<close>

definition cutAt :: "nat \<Rightarrow> nat \<Rightarrow> int list \<Rightarrow> int list" where
  "cutAt i k arr = take i arr @ take (k - (i + 1)) (drop (i + 1) arr) @ drop (k - 1) arr"

fun enableLoop :: "nat \<Rightarrow> nat \<Rightarrow> nat \<Rightarrow> int list \<Rightarrow> JumpTable \<Rightarrow> panic + int list \<times> JumpTable" where
  "enableLoop 0 i k arr jt = Inr (take k arr, jt)"
| "enableLoop (Suc n) i k arr jt =
     (case EnableEIP (arr ! i) jt of
        Inr jt' \<Rightarrow> enableLoop n (i + 1) k arr jt'
      | Inl (EnablePanic p) \<Rightarrow> Inl p
      | Inl (UndefinedEIP e) \<Rightarrow>
          if k < i + 1 then Inl IndexPanic
          else enableLoop n (i + 1) (k - 1) (cutAt i k arr) jt)"

text \<open>
  The table of the interpreter is an array of pointers, copied from the global table of the fork:
  the entries themselves are shared. The activators assign to fields of the entries of these
  four opcodes, so the global table sees the assignments.
\<close>

definition sharedOps :: "byte set" where
  "sharedOps = {SLOAD, SSTORE, BALANCE, EXTCODEHASH}"

definition NewEVMInterpreter ::
    "(fork \<Rightarrow> JumpTable) \<Rightarrow> Rules \<Rightarrow> int list \<Rightarrow> panic + JumpTable \<times> int list \<times> (fork \<Rightarrow> JumpTable)" where
  "NewEVMInterpreter globals rules ExtraEips =
     (let k = forkOf rules; jt0 = globals k; n = length ExtraEips
      in rbind (enableLoop n 0 n ExtraEips jt0) (\<lambda>(eips, jt).
           Inr (jt, eips, globals(k := (\<lambda>op. if op \<in> sharedOps then jt op else jt0 op)))))"

end
