(* ===== verification/EvmRun.thy ===== *)
theory EvmRun
  imports EvmTable
begin

text \<open>
  The interpreter loop (\<^verbatim>\<open>core/vm/interpreter.go\<close>). \<open>step\<close> is one pass through the body of the
  loop, \<open>Run\<close> is what surrounds the loop, and \<open>interp\<close> iterates \<open>step\<close>. Fuel bounds the number of
  passes of a frame plus those of the calls nested in it; \<open>EvmGasBound\<close> shows that the gas of
  the contract is enough.
\<close>

datatype stepResult =
    Next frame evm
  | Stop bytes "vmError option" frame evm

text \<open>The two gas charges of an operation, with the new memory size between them.\<close>

definition memSizeOf :: "operation \<Rightarrow> stack \<Rightarrow> panic + (vmError + u64)" where
  "memSizeOf oper st =
     (case o_memorySize oper of
        None \<Rightarrow> Inr (Inr 0)
      | Some fn \<Rightarrow> rbind (fn st) (\<lambda>(memSize, overflow).
          Inr (if overflow then Inl ErrGasUintOverflow
               else checked (SafeMul (toWordSize memSize) 32))))"

definition dynGasOf :: "operation \<Rightarrow> env \<Rightarrow> frame \<Rightarrow> u64 \<Rightarrow> evm \<Rightarrow> panic + bool \<times> frame \<times> evm" where
  "dynGasOf oper E f memorySize m =
     (case o_dynamicGas oper of
        None \<Rightarrow> Inr (True, f, m)
      | Some fn \<Rightarrow> rbind (fn E (contract f) (stack f) (memory f) memorySize m) (\<lambda>(mem, m', r).
          let f' = f\<lparr>memory := mem\<rparr>
          in case r of
               Inl e \<Rightarrow> Inr (False, f', m')
             | Inr cost \<Rightarrow>
                 let (ok, c) = UseGas cost (contract f') in Inr (ok, f'\<lparr>contract := c\<rparr>, m')))"

text \<open>What follows the execution of the operation.\<close>

definition afterExecute :: "operation \<Rightarrow> frame \<times> evm \<times> bytes \<times> vmError option \<Rightarrow> stepResult" where
  "afterExecute oper r =
     (let (f, m0, res, err) = r;
          m = (if o_returns oper then m0\<lparr>returnData := res\<rparr> else m0)
      in case err of
           Some e \<Rightarrow> Stop [] (Some e) f m
         | None \<Rightarrow>
             if o_reverts oper then Stop res (Some ErrExecutionReverted) f m
             else if o_halts oper then Stop res None f m
             else if \<not> o_jumps oper then Next (f\<lparr>pc := pc f + 1\<rparr>) m
             else Next f m)"

definition execOp :: "operation \<Rightarrow> env \<Rightarrow> runner \<Rightarrow> frame \<Rightarrow> evm \<Rightarrow> (panic + stepResult) option" where
  "execOp oper E run f m =
     (let (ok, c) = UseGas (o_constantGas oper) (contract f)
      in if \<not> ok then Some (Inr (Stop [] (Some ErrOutOfGas) f m))
         else let f = f\<lparr>contract := c\<rparr>
              in fbind (Some (memSizeOf oper (stack f))) (\<lambda>r.
                case r of
                  Inl e \<Rightarrow> Some (Inr (Stop [] (Some e) f m))
                | Inr memorySize \<Rightarrow>
                    fbind (Some (dynGasOf oper E f memorySize m)) (\<lambda>(ok, f, m).
                      if \<not> ok then Some (Inr (Stop [] (Some ErrOutOfGas) f m))
                      else let f = (if memorySize > 0 then f\<lparr>memory := Resize memorySize (memory f)\<rparr> else f)
                           in fbind (o_execute oper E run f m) (\<lambda>r. Some (Inr (afterExecute oper r))))))"

definition writeProtected :: "env \<Rightarrow> byte \<Rightarrow> operation \<Rightarrow> frame \<Rightarrow> evm \<Rightarrow> panic + bool" where
  "writeProtected E op oper f m =
     (if readOnly m \<and> IsByzantium (chainRules E)
      then if o_writes oper then Inr True
           else if op = CALL then rbind (Back 2 (stack f)) (\<lambda>v. Inr (Sign v \<noteq> 0))
           else Inr False
      else Inr False)"

definition dispatch :: "JumpTable \<Rightarrow> env \<Rightarrow> runner \<Rightarrow> frame \<Rightarrow> evm \<Rightarrow> (panic + stepResult) option" where
  "dispatch jt E run f m =
     (let op = GetOp (pc f) (contract f)
      in case jt op of
           None \<Rightarrow> Some (Inr (Stop [] (Some (ErrInvalidOpCode op)) f m))
         | Some oper \<Rightarrow>
             let sLen = length (stack f)
             in if sLen < o_minStack oper
                then Some (Inr (Stop [] (Some (ErrStackUnderflow sLen (o_minStack oper))) f m))
                else if sLen > o_maxStack oper
                then Some (Inr (Stop [] (Some (ErrStackOverflow sLen (o_maxStack oper))) f m))
                else fbind (Some (writeProtected E op oper f m)) (\<lambda>prot.
                       if prot then Some (Inr (Stop [] (Some ErrWriteProtection) f m))
                       else execOp oper E run f m))"

definition step :: "JumpTable \<Rightarrow> env \<Rightarrow> runner \<Rightarrow> frame \<Rightarrow> evm \<Rightarrow> (panic + stepResult) option" where
  "step jt E run f0 m0 =
     (let f = f0\<lparr>steps := steps f0 + 1\<rparr>;
          poll = (steps f mod 1000 = 0);
          m = (if poll then m0\<lparr>abortLoads := abortLoads m0 + 1\<rparr> else m0)
      in if poll \<and> abort E (abortLoads m0) then Some (Inr (Stop [] None f m))
         else dispatch jt E run f m)"

type_synonym loop = "frame \<Rightarrow> evm \<Rightarrow> (panic + bytes \<times> vmError option \<times> frame \<times> evm) option"

definition initFrame :: "Contract \<Rightarrow> bytes \<Rightarrow> frame" where
  "initFrame c input = \<lparr>pc = 0, stack = [], rstack = [], memory = NewMemory,
     contract = c\<lparr>c_Input := input\<rparr>, steps = 0\<rparr>"

definition Run :: "loop \<Rightarrow> runner" where
  "Run loop c input ro m0 =
     (let m1 = m0\<lparr>depth := depth m0 + 1\<rparr>;
          setRO = (ro \<and> \<not> readOnly m1);
          m2 = (if setRO then m1\<lparr>readOnly := True\<rparr> else m1);
          m3 = m2\<lparr>returnData := []\<rparr>;
          leave = (\<lambda>m. let m' = m\<lparr>depth := depth m - 1\<rparr> in if setRO then m'\<lparr>readOnly := False\<rparr> else m')
      in if c_Code c = [] then Some (Inr ([], None, c, leave m3))
         else fbind (loop (initFrame c input) m3) (\<lambda>(ret, err, f, m).
                Some (Inr (ret, err, contract f, leave m))))"

primrec interp :: "nat \<Rightarrow> JumpTable \<Rightarrow> env \<Rightarrow> loop" where
  "interp 0 jt E f m = None"
| "interp (Suc n) jt E f m =
     fbind (step jt E (Run (interp n jt E)) f m) (\<lambda>r.
       case r of
         Next f' m' \<Rightarrow> interp n jt E f' m'
       | Stop ret err f' m' \<Rightarrow> Some (Inr (ret, err, f', m')))"

text \<open>The machine with \<open>n\<close> units of fuel, as the argument of the calls of \<^verbatim>\<open>evm.go\<close>.\<close>

definition machine :: "nat \<Rightarrow> JumpTable \<Rightarrow> env \<Rightarrow> runner" where
  "machine n jt E = Run (interp n jt E)"

definition NewEVM :: "StateDB \<Rightarrow> evm" where
  "NewEVM s = \<lparr>statedb = s, depth = 0, callGasTemp = 0, readOnly = False, returnData = [],
     jumpdests = Map.empty, abortLoads = 0\<rparr>"

end
