(* ===== verification/StateCalm.thy ===== *)
theory StateCalm
  imports StateProps
begin

text \<open>
  Runs of the state database as seen by a call frame. \<open>calm\<close> relates the states before and after
  a run that reverts no further than to its own snapshots, and the locale \<open>snapshotting\<close> is the
  contract between the database and the virtual machine: how a failed call is undone.
\<close>

subsection \<open>Revision numbers grow\<close>

lemma nri_setError [simp]: "nextRevisionId (setError e s) = nextRevisionId s"
  by (simp add: setError_def)

lemma nri_quiet: "quiet rd s s' \<Longrightarrow> nextRevisionId s' = nextRevisionId s"
  by (simp add: quiet_def sameFrame_def)

lemma nri_getStateObject [simp]: "nextRevisionId (snd (getStateObject rd a s)) = nextRevisionId s"
  using getStateObject_spec(2) [of rd a s] by (cases "getStateObject rd a s") (auto dest: nri_quiet)

lemma nri_createObject: "createObject rd a s = (n, p, s') \<Longrightarrow> nextRevisionId s' = nextRevisionId s"
  by (erule createObject_cases) (auto dest: nri_quiet)

lemma nri_GetOrNew [simp]: "nextRevisionId (snd (GetOrNewStateObject rd a s)) = nextRevisionId s"
  using getStateObject_spec(2) [of rd a s]
  by (auto simp: GetOrNewStateObject_def split: prod.splits option.splits dest!: nri_createObject nri_quiet)

lemma nri_touch [simp]: "nextRevisionId (touch o1 s) = nextRevisionId s"
  by (simp add: touch_def Let_def)

lemma nri_SetBalanceObj [simp]: "nextRevisionId (SetBalanceObj x o1 s) = nextRevisionId s"
  by (simp add: SetBalanceObj_def Let_def)

lemma nri_onObject: "onObject rd a f s = Some s' \<Longrightarrow> nextRevisionId s' = nextRevisionId s"
  using getStateObject_spec(2) [of rd a s]
  by (auto simp: onObject_def split: prod.splits option.splits dest!: nri_quiet)

lemma nri_revertEntry: "revertEntry rd e s = Some s' \<Longrightarrow> nextRevisionId s' = nextRevisionId s"
  using getStateObject_spec(2) [where rd = rd and s = s]
  by (cases e)
    (fastforce split: option.splits prod.splits if_splits dest: nri_onObject dest!: nri_quiet simp: Let_def)+

lemma nri_revertLoop: "revertLoop rd es s = Some s' \<Longrightarrow> nextRevisionId s' = nextRevisionId s"
  by (induction rd es s rule: revertLoop.induct)
    (auto split: option.splits dest!: nri_revertEntry)

lemma nri_RevertToSnapshot: "RevertToSnapshot rd i s = Some s' \<Longrightarrow> nextRevisionId s' = nextRevisionId s"
  by (auto simp: RevertToSnapshot_def journal_revert_def Let_def split: if_splits option.splits
      dest!: nri_revertLoop)

lemma nri_CreateAccount [simp]: "nextRevisionId (CreateAccount rd a s) = nextRevisionId s"
  by (auto simp: CreateAccount_def split: prod.splits option.splits dest!: nri_createObject)

lemma nri_GetOrNew': "GetOrNewStateObject rd a s = (o1, s') \<Longrightarrow> nextRevisionId s' = nextRevisionId s"
  by (metis nri_GetOrNew snd_conv)

lemma nri_updates [simp]:
  "nextRevisionId (AddBalance rd a x s) = nextRevisionId s"
  "nextRevisionId (SubBalance rd a x s) = nextRevisionId s"
  "nextRevisionId (SetBalance rd a x s) = nextRevisionId s"
  "nextRevisionId (SetNonce rd a n s) = nextRevisionId s"
  "nextRevisionId (SetCode rd a c s) = nextRevisionId s"
  "nextRevisionId (SetState rd a k v s) = nextRevisionId s"
  by (auto simp: AddBalance_def SubBalance_def SetBalance_def SetNonce_def SetCode_def SetState_def
      split: prod.splits option.splits dest!: nri_GetOrNew')

lemma nri_getStateObject': "getStateObject rd a s = (o1, s') \<Longrightarrow> nextRevisionId s' = nextRevisionId s"
  by (metis nri_getStateObject snd_conv)

lemma nri_queries [simp]:
  "nextRevisionId (snd (Suicide rd a s)) = nextRevisionId s"
  "nextRevisionId (snd (Exist rd a s)) = nextRevisionId s"
  "nextRevisionId (snd (Empty rd a s)) = nextRevisionId s"
  "nextRevisionId (snd (GetBalance rd a s)) = nextRevisionId s"
  "nextRevisionId (snd (GetNonce rd a s)) = nextRevisionId s"
  "nextRevisionId (snd (GetCode rd a s)) = nextRevisionId s"
  "nextRevisionId (snd (GetCodeSize rd a s)) = nextRevisionId s"
  "nextRevisionId (snd (GetCodeHash rd a s)) = nextRevisionId s"
  "nextRevisionId (snd (HasSuicided rd a s)) = nextRevisionId s"
  "nextRevisionId (snd (GetState rd a k s)) = nextRevisionId s"
  "nextRevisionId (snd (GetCommittedState rd a k s)) = nextRevisionId s"
  by (auto simp: Suicide_def Exist_def Empty_def GetBalance_def GetNonce_def GetCode_def GetCodeSize_def
      GetCodeHash_def HasSuicided_def GetState_def GetCommittedState_def
      split: prod.splits option.splits dest!: nri_getStateObject')

lemma nri_Finalise [simp]: "nextRevisionId (Finalise rd order d s) = nextRevisionId s"
proof -
  have "nextRevisionId (fold (finaliseOne rd d) order s) = nextRevisionId s"
    by (induction order arbitrary: s) (auto simp: finaliseOne_fields)
  then show ?thesis by (simp add: Finalise_def clearJournalAndRefund_def Let_def)
qed

lemma nri_runOp: "runOp rd op s = Some s' \<Longrightarrow> nextRevisionId s \<le> nextRevisionId s'"
proof (cases op)
  case (OpRevertToSnapshot i)
  then show "runOp rd op s = Some s' \<Longrightarrow> ?thesis" by (auto dest: nri_RevertToSnapshot)
qed (auto simp: AddLog_def AddPreimage_def AddRefund_def SubRefund_def Snapshot_def Prepare_def Let_def
    split: if_splits)

subsection \<open>Calm runs\<close>

text \<open>
  A calm run from one state to another uses the operations that a call frame may use: it
  takes snapshots, and reverts to those it has taken itself, but never to an older one.
\<close>

definition calm :: "reader \<Rightarrow> StateDB \<Rightarrow> StateDB \<Rightarrow> bool" where
  "calm rd s s' \<longleftrightarrow> nextRevisionId s \<le> nextRevisionId s'
     \<and> (\<exists>ops. runOps rd ops s = Some s' \<and> (\<forall>op \<in> set ops. inFrame (nextRevisionId s - 1) op))"

lemma runOps_append: "runOps rd (xs @ ys) s = Option.bind (runOps rd xs s) (runOps rd ys)"
  by (induction xs arbitrary: s) (auto split: option.split)

lemma inFrame_mono: "inFrame i op \<Longrightarrow> j \<le> i \<Longrightarrow> inFrame j op"
  by (cases op) auto

lemma calm_refl [simp]: "calm rd s s"
  by (auto simp: calm_def intro: exI [of _ "[]"])

lemma calm_trans:
  assumes "calm rd s t" "calm rd t u"
  shows "calm rd s u"
proof -
  from assms obtain xs ys where o: "runOps rd xs s = Some t" "\<forall>op \<in> set xs. inFrame (nextRevisionId s - 1) op"
    "runOps rd ys t = Some u" "\<forall>op \<in> set ys. inFrame (nextRevisionId t - 1) op"
    "nextRevisionId s \<le> nextRevisionId t" "nextRevisionId t \<le> nextRevisionId u"
    unfolding calm_def by blast
  then have "runOps rd (xs @ ys) s = Some u" "\<forall>op \<in> set (xs @ ys). inFrame (nextRevisionId s - 1) op"
    by (auto simp: runOps_append intro: inFrame_mono)
  with o(5,6) show ?thesis unfolding calm_def by fastforce
qed

lemma calm_op: "runOp rd op s = Some s' \<Longrightarrow> inFrame (nextRevisionId s - 1) op \<Longrightarrow> calm rd s s'"
  unfolding calm_def using nri_runOp by (auto intro!: exI [of _ "[op]"])

lemma calm_reachable:
  assumes "calm rd s s'" "reachable rd s"
  shows "reachable rd s'"
proof -
  have "reachable rd t'" if "runOps rd ops t = Some t'" "reachable rd t" "\<forall>op \<in> set ops. inFrame i op" for ops t t' i
    using that
  proof (induction ops arbitrary: t)
    case (Cons op ops)
    from Cons.prems obtain u where u: "runOp rd op t = Some u" "runOps rd ops u = Some t'"
      by (auto split: option.splits)
    have "reachable rd u" using Cons.prems by (intro reachable.step [OF Cons.prems(2) u(1)]) auto
    with Cons.IH [OF u(2)] Cons.prems(3) show ?case by simp
  qed simp
  with assms show ?thesis unfolding calm_def by blast
qed

lemma calm_updates [simp, intro]:
  "calm rd s (CreateAccount rd a s)" "calm rd s (AddBalance rd a x s)" "calm rd s (SubBalance rd a x s)"
  "calm rd s (SetBalance rd a x s)" "calm rd s (SetNonce rd a n s)" "calm rd s (SetCode rd a c s)"
  "calm rd s (SetState rd a k v s)" "calm rd s (AddLog l s)" "calm rd s (AddPreimage h p s)"
  "calm rd s (AddRefund g s)" "calm rd s (snd (Suicide rd a s))" "calm rd s (snd (Snapshot s))"
  using calm_op [where op = "OpCreateAccount a" and s = s] calm_op [where op = "OpAddBalance a x" and s = s]
    calm_op [where op = "OpSubBalance a x" and s = s] calm_op [where op = "OpSetBalance a x" and s = s]
    calm_op [where op = "OpSetNonce a n" and s = s] calm_op [where op = "OpSetCode a c" and s = s]
    calm_op [where op = "OpSetState a k v" and s = s] calm_op [where op = "OpAddLog l" and s = s]
    calm_op [where op = "OpAddPreimage h p" and s = s] calm_op [where op = "OpAddRefund g" and s = s]
    calm_op [where op = "OpSuicide a" and s = s] calm_op [where op = OpSnapshot and s = s]
  by simp_all

lemma calm_SubRefund: "SubRefund g s = Some s' \<Longrightarrow> calm rd s s'"
  using calm_op [where op = "OpSubRefund g" and s = s] by simp

lemma calm_queries [simp, intro]:
  "calm rd s (snd (Exist rd a s))" "calm rd s (snd (Empty rd a s))" "calm rd s (snd (GetBalance rd a s))"
  "calm rd s (snd (GetNonce rd a s))" "calm rd s (snd (GetCode rd a s))"
  "calm rd s (snd (GetCodeSize rd a s))" "calm rd s (snd (GetCodeHash rd a s))"
  "calm rd s (snd (HasSuicided rd a s))" "calm rd s (snd (GetState rd a k s))"
  "calm rd s (snd (GetCommittedState rd a k s))"
  using calm_op [where op = "OpExist a" and s = s] calm_op [where op = "OpEmpty a" and s = s]
    calm_op [where op = "OpGetBalance a" and s = s] calm_op [where op = "OpGetNonce a" and s = s]
    calm_op [where op = "OpGetCode a" and s = s] calm_op [where op = "OpGetCodeSize a" and s = s]
    calm_op [where op = "OpGetCodeHash a" and s = s] calm_op [where op = "OpHasSuicided a" and s = s]
    calm_op [where op = "OpGetState a k" and s = s] calm_op [where op = "OpGetCommittedState a k" and s = s]
  by simp_all

lemma calm_CanTransfer [simp, intro]: "calm rd s (snd (CanTransfer rd a x s))"
  using calm_queries(3) [of rd s a] by (cases "GetBalance rd a s") (simp add: CanTransfer_def)

lemma calm_Transfer [simp, intro]: "calm rd s (Transfer rd a b x s)"
  unfolding Transfer_def by (rule calm_trans [OF calm_updates(3) calm_updates(2)])

lemma calm_revert:
  assumes "hashInj rd" "reachable rd s" "calm rd (snd (Snapshot s)) s2"
  shows "\<exists>s3. RevertToSnapshot rd (fst (Snapshot s)) s2 = Some s3 \<and> absState rd s3 = absState rd s
     \<and> calm rd s s3"
proof -
  obtain i s1 where sn: "Snapshot s = (i, s1)" by (cases "Snapshot s")
  then have i: "nextRevisionId s = i" "nextRevisionId s1 = i + 1" by (auto simp: Snapshot_def Let_def)
  from assms(3) sn i obtain ops where o: "runOps rd ops s1 = Some s2" "\<forall>op \<in> set ops. inFrame i op"
    unfolding calm_def by auto
  from RevertToSnapshot_undoes [OF assms(1,2) sn o(1)] o(2) obtain s3 where
    s3: "RevertToSnapshot rd i s2 = Some s3" "absState rd s3 = absState rd s" by blast
  have "runOps rd (OpSnapshot # ops @ [OpRevertToSnapshot i]) s = Some s3"
    using sn o(1) s3(1) by (simp add: runOps_append)
  moreover have "\<forall>op \<in> set (OpSnapshot # ops @ [OpRevertToSnapshot i]). inFrame (nextRevisionId s - 1) op"
    using o(2) i(1) by (auto intro: inFrame_mono)
  moreover have "nextRevisionId s \<le> nextRevisionId s3"
    using assms(3) nri_RevertToSnapshot [OF s3(1)] i sn by (simp add: calm_def)
  ultimately show ?thesis using s3 sn unfolding calm_def by (metis fst_conv)
qed

subsection \<open>The contract of a journaled state\<close>

text \<open>
  What the virtual machine relies on: calm runs compose and keep the state sound, and after a
  calm run the snapshot taken before it can be restored, which gives back the world of the time
  of the snapshot. A body that is attempted under a snapshot, and undone when it fails, is calm
  again, and leaves no trace in the world when it fails.
\<close>

locale snapshotting =
  fixes ok :: "'s \<Rightarrow> bool"
    and world :: "'s \<Rightarrow> 'w"
    and calmly :: "'s \<Rightarrow> 's \<Rightarrow> bool"
    and snapshot :: "'s \<Rightarrow> 'i \<times> 's"
    and revert :: "'i \<Rightarrow> 's \<Rightarrow> 's option"
  assumes ok_calmly: "ok s \<Longrightarrow> calmly s s' \<Longrightarrow> ok s'"
    and calmly_trans: "calmly s t \<Longrightarrow> calmly t u \<Longrightarrow> calmly s u"
    and snapshot_calmly: "calmly s (snd (snapshot s))"
    and revert_snapshot: "ok s \<Longrightarrow> calmly (snd (snapshot s)) t \<Longrightarrow>
          \<exists>u. revert (fst (snapshot s)) t = Some u \<and> world u = world s \<and> calmly s u"
begin

lemma attempt_total:
  assumes "ok s" "calmly (snd (snapshot s)) t"
  shows "revert (fst (snapshot s)) t \<noteq> None"
  using revert_snapshot [OF assms] by auto

lemma attempt_calmly:
  assumes "ok s" "calmly (snd (snapshot s)) t" "if failed then revert (fst (snapshot s)) t = Some u else u = t"
  shows "calmly s u" "ok u" "failed \<Longrightarrow> world u = world s"
proof -
  show c: "calmly s u"
    using revert_snapshot [OF assms(1,2)] assms(3) calmly_trans [OF snapshot_calmly assms(2)]
    by (auto split: if_splits)
  show "ok u" by (rule ok_calmly [OF assms(1) c])
  show "failed \<Longrightarrow> world u = world s"
    using revert_snapshot [OF assms(1,2)] assms(3) by auto
qed

end

interpretation sdb: snapshotting "\<lambda>s. hashInj rd \<and> reachable rd s" "absState rd" "calm rd" Snapshot
    "RevertToSnapshot rd" for rd
proof unfold_locales
  show "hashInj rd \<and> reachable rd s \<Longrightarrow> calm rd s s' \<Longrightarrow> hashInj rd \<and> reachable rd s'" for s s'
    using calm_reachable by blast
  show "calm rd s t \<Longrightarrow> calm rd t u \<Longrightarrow> calm rd s u" for s t u by (rule calm_trans)
  show "hashInj rd \<and> reachable rd s \<Longrightarrow> calm rd (snd (Snapshot s)) t \<Longrightarrow>
     \<exists>u. RevertToSnapshot rd (fst (Snapshot s)) t = Some u \<and> absState rd u = absState rd s \<and> calm rd s u" for s t
    using calm_revert by blast
qed simp

end
