(* ===== verification/EvmEffects.thy ===== *)
theory EvmEffects
  imports EvmRun StateCalm
begin

text \<open>
  What an instruction does to its frame and to the machine, apart from its result: it keeps the
  code, the addresses and the value of the contract, the call depth and the write protection, and
  runs calmly on the state database. The plain instructions leave the gas alone.
\<close>

definition sameCode :: "Contract \<Rightarrow> Contract \<Rightarrow> bool" where
  "sameCode c c' \<longleftrightarrow> c' = c\<lparr>c_Gas := c_Gas c', c_analysis := c_analysis c'\<rparr>"

definition mEffect :: "env \<Rightarrow> evm \<Rightarrow> evm \<Rightarrow> bool" where
  "mEffect E m m' \<longleftrightarrow> depth m' = depth m \<and> readOnly m' = readOnly m
     \<and> calm (rdr E) (statedb m) (statedb m')"

definition effect :: "env \<Rightarrow> frame \<Rightarrow> evm \<Rightarrow> frame \<Rightarrow> evm \<Rightarrow> bool" where
  "effect E f m f' m' \<longleftrightarrow> sameCode (contract f) (contract f') \<and> steps f' = steps f
     \<and> mEffect E m m'"

definition plainOp :: "plainFunc \<Rightarrow> bool" where
  "plainOp op \<longleftrightarrow> (\<forall>E f m f' m' ret err. op E f m = Inr (f', m', ret, err) \<longrightarrow>
     effect E f m f' m' \<and> c_Gas (contract f') = c_Gas (contract f))"

named_theorems plain_ops \<open>plain instructions\<close>

lemma sameCode_refl [simp]: "sameCode c c"
  by (simp add: sameCode_def)

lemma sameCode_trans: "sameCode a b \<Longrightarrow> sameCode b c \<Longrightarrow> sameCode a c"
  by (cases a; cases b; cases c) (simp add: sameCode_def)

lemma sameCode_upd [simp]:
  "sameCode c (c'\<lparr>c_Gas := g\<rparr>) = sameCode c c'" "sameCode (c\<lparr>c_Gas := g\<rparr>) c' = sameCode c c'"
  "sameCode c (c\<lparr>c_analysis := a\<rparr>)"
  by (cases c; cases c'; simp add: sameCode_def)+

lemma mEffect_refl [simp]: "mEffect E m m"
  by (simp add: mEffect_def)

lemma mEffect_trans: "mEffect E m m1 \<Longrightarrow> mEffect E m1 m2 \<Longrightarrow> mEffect E m m2"
  by (auto simp: mEffect_def intro: calm_trans)

lemma effect_trans: "effect E f m f1 m1 \<Longrightarrow> effect E f1 m1 f2 m2 \<Longrightarrow> effect E f m f2 m2"
  by (auto simp: effect_def intro: sameCode_trans mEffect_trans)

lemma effect_same [simp]:
  "effect E f m f m"
  "effect E f m (f\<lparr>stack := st\<rparr>) m' = effect E f m f m'"
  "effect E f m (f\<lparr>memory := mem\<rparr>) m' = effect E f m f m'"
  "effect E f m (f\<lparr>pc := p\<rparr>) m' = effect E f m f m'"
  "effect E f m (f\<lparr>rstack := rs\<rparr>) m' = effect E f m f m'"
  by (simp_all add: effect_def)

lemma query_eq: "query q m = (fst (q (statedb m)), m\<lparr>statedb := snd (q (statedb m))\<rparr>)"
  by (simp add: query_def split: prod.split)

lemma plainOp_simple:
  "plainOp (\<lambda>E. unOp (g1 E))" "plainOp (\<lambda>E. binOp (g2 E))" "plainOp (\<lambda>E. triOp (g3 E))"
  "plainOp (\<lambda>E f m. pushWord (w E f m) f m)"
  by (auto simp: plainOp_def unOp_def binOp_def triOp_def pushWord_def proceed_def split: list.splits)

lemma plainOp_arith [plain_ops]:
  "plainOp opAdd" "plainOp opSub" "plainOp opMul" "plainOp opDiv" "plainOp opSdiv" "plainOp opMod"
  "plainOp opSmod" "plainOp opExp" "plainOp opSignExtend" "plainOp opNot" "plainOp opLt"
  "plainOp opGt" "plainOp opSlt" "plainOp opSgt" "plainOp opEq" "plainOp opIszero" "plainOp opAnd"
  "plainOp opOr" "plainOp opXor" "plainOp opByte" "plainOp opAddmod" "plainOp opMulmod"
  "plainOp opSHL" "plainOp opSHR" "plainOp opSAR" "plainOp opBlockhash"
  unfolding opAdd_def opSub_def opMul_def opDiv_def opSdiv_def opMod_def opSmod_def opExp_def
    opSignExtend_def opNot_def opLt_def opGt_def opSlt_def opSgt_def opEq_def opIszero_def opAnd_def
    opOr_def opXor_def opByte_def opAddmod_def opMulmod_def opSHL_def opSHR_def opSAR_def opBlockhash_def
  by (rule plainOp_simple)+

lemma plainOp_push [plain_ops]:
  "plainOp opAddress" "plainOp opOrigin" "plainOp opCaller" "plainOp opCallValue"
  "plainOp opCallDataSize" "plainOp opReturnDataSize" "plainOp opCodeSize" "plainOp opGasprice"
  "plainOp opCoinbase" "plainOp opTimestamp" "plainOp opNumber" "plainOp opDifficulty"
  "plainOp opGasLimit" "plainOp opChainID" "plainOp opPc" "plainOp opMsize" "plainOp opGas"
  by (auto simp: plainOp_def pushWord_def proceed_def opAddress_def opOrigin_def opCaller_def opCallValue_def
      opCallDataSize_def opReturnDataSize_def opCodeSize_def opGasprice_def opCoinbase_def
      opTimestamp_def opNumber_def opDifficulty_def opGasLimit_def opChainID_def opPc_def opMsize_def opGas_def)

lemma effect_query:
  "calm (rdr E) (statedb m) (snd (q (statedb m))) \<Longrightarrow> query q m = (x, m') \<Longrightarrow> effect E f m f m'"
  by (auto simp: query_eq effect_def mEffect_def)

lemma effect_update: "calm (rdr E) (statedb m) (g (statedb m)) \<Longrightarrow> effect E f m f (update g m)"
  by (auto simp: update_def effect_def mEffect_def)

lemma plainOp_onAddress:
  assumes "\<And>E a s. calm (rdr E) s (snd (q E a s))"
  shows "plainOp (\<lambda>E. onAddress (q E))"
  using assms by (auto simp: plainOp_def onAddress_def proceed_def Let_def split: list.splits prod.splits intro: effect_query)

lemma calm_GetCodeBytes [simp]: "calm rd s (snd (GetCodeBytes rd a s))"
  using calm_queries(5) [of rd s a] by (cases "GetCode rd a s") (simp add: GetCodeBytes_def)

lemma plainOp_account [plain_ops]:
  "plainOp opBalance" "plainOp opExtCodeSize" "plainOp opExtCodeHash" "plainOp opSelfBalance"
proof -
  have "calm rd s (snd (let (b, s') = GetBalance rd a s in (of_int b, s')))" for rd a s
    using calm_queries(3) [of rd s a] by (cases "GetBalance rd a s") simp
  then show "plainOp opBalance" unfolding opBalance_def by (rule plainOp_onAddress)
  have "calm rd s (snd (let (n, s') = GetCodeSize rd a s in (ucast (of_nat n :: u64), s')))" for rd a s
    using calm_queries(6) [of rd s a] by (cases "GetCodeSize rd a s") simp
  then show "plainOp opExtCodeSize" unfolding opExtCodeSize_def by (rule plainOp_onAddress)
  have "calm rd s (snd (let (e, s') = Empty rd a s in if e then (0, s') else GetCodeHash rd a s'))" for rd a s
    using calm_queries(2) [of rd s a] calm_queries(7) [of rd "snd (Empty rd a s)" a]
    by (cases "Empty rd a s") (auto intro: calm_trans)
  then show "plainOp opExtCodeHash" unfolding opExtCodeHash_def by (rule plainOp_onAddress)
  show "plainOp opSelfBalance"
    by (auto simp: plainOp_def opSelfBalance_def pushWord_def proceed_def split: prod.splits intro: effect_query)
qed

lemma plainOp_memory [plain_ops]:
  "plainOp opSha3" "plainOp opCallDataLoad" "plainOp opCallDataCopy" "plainOp opReturnDataCopy"
  "plainOp opCodeCopy" "plainOp opExtCodeCopy" "plainOp opMload" "plainOp opMstore" "plainOp opMstore8"
  "plainOp opReturn" "plainOp opRevert"
  by (auto simp: plainOp_def opSha3_def opCallDataLoad_def opCallDataCopy_def opReturnDataCopy_def
      opCodeCopy_def opExtCodeCopy_def opMload_def opMstore_def opMstore8_def opReturn_def opRevert_def
      copyToMemory_def proceed_def fails_def Let_def rbind_eq_Inr effect_def mEffect_def query_eq update_def
      split: list.splits if_splits prod.splits)

lemma isCode_effect:
  "isCode u c m = Inr (b, c', m') \<Longrightarrow> sameCode c c' \<and> c_Gas c' = c_Gas c \<and> (\<exists>j. m' = m\<lparr>jumpdests := j\<rparr>)"
  by (auto simp: isCode_def rbind_eq_Inr split: option.splits if_splits intro: exI [of _ "jumpdests m"])

lemma validJumpdest_effect:
  "validJumpdest d c m = Inr (b, c', m') \<Longrightarrow> sameCode c c' \<and> c_Gas c' = c_Gas c \<and> (\<exists>j. m' = m\<lparr>jumpdests := j\<rparr>)"
  by (auto simp: validJumpdest_def split: prod.splits if_splits dest: isCode_effect intro: exI [of _ "jumpdests m"])

lemma validJumpSubdest_effect:
  "validJumpSubdest u c m = Inr (b, c', m') \<Longrightarrow> sameCode c c' \<and> c_Gas c' = c_Gas c \<and> (\<exists>j. m' = m\<lparr>jumpdests := j\<rparr>)"
  by (auto simp: validJumpSubdest_def split: if_splits dest: isCode_effect intro: exI [of _ "jumpdests m"])

lemma plainOp_flow [plain_ops]:
  "plainOp opPop" "plainOp opSload" "plainOp opSstore" "plainOp opJump" "plainOp opJumpi"
  "plainOp opJumpdest" "plainOp opBeginSub" "plainOp opJumpSub" "plainOp opReturnSub"
  "plainOp opPush1" "plainOp opStop"
  by (auto simp: plainOp_def opPop_def opSload_def opSstore_def opJump_def opJumpi_def opJumpdest_def
      opBeginSub_def opJumpSub_def opReturnSub_def opPush1_def opStop_def pushWord_def proceed_def fails_def
      Let_def rbind_eq_Inr effect_def mEffect_def query_eq update_def split: list.splits if_splits prod.splits
      dest!: validJumpdest_effect validJumpSubdest_effect)

lemma plainOp_make [plain_ops]:
  "plainOp (makePush n k)" "plainOp (makeDup d)" "plainOp (makeSwap d)" "plainOp (makeLog d)"
  by (auto simp: plainOp_def makePush_def makeDup_def makeSwap_def makeLog_def pushWord_def proceed_def
      Let_def rbind_eq_Inr effect_def mEffect_def update_def split: list.splits if_splits)

lemma plainOp_suicide [plain_ops]: "plainOp opSuicide"
proof -
  have "effect E f m f' m' \<and> c_Gas (contract f') = c_Gas (contract f)"
    if op: "opSuicide E f m = Inr (f', m', ret, err)" for E f m f' m' ret err
  proof -
    from op obtain b st where st: "stack f = b # st" by (auto simp: opSuicide_def split: list.splits)
    let ?me = "c_self (contract f)"
    obtain bal m1 where q: "query (GetBalance (rdr E) ?me) m = (bal, m1)" by fastforce
    let ?m2 = "update (AddBalance (rdr E) (Bytes20 b) bal) m1"
    obtain ok m3 where q3: "query (Suicide (rdr E) ?me) ?m2 = (ok, m3)" by fastforce
    have "effect E f m f m1" using q by (rule effect_query [rotated]) simp
    moreover have "effect E f m1 f ?m2" by (rule effect_update) simp
    moreover have "effect E f ?m2 f m3" using q3 by (rule effect_query [rotated]) simp
    ultimately show ?thesis using op st q q3
      by (auto simp: opSuicide_def proceed_def Let_def intro: effect_trans)
  qed
  then show ?thesis by (auto simp: plainOp_def)
qed

end
