(* ===== verification/EvmCharge.thy ===== *)
theory EvmCharge
  imports EvmEffects
begin

text \<open>
  What the gas functions charge and change. A gas function touches the stored memory cost, the
  state database (calmly) and \<^verbatim>\<open>callGasTemp\<close>, nothing else; a call instruction has paid for what it
  hands to its callee, the stipend included.
\<close>

definition gasEffect :: "env \<Rightarrow> Memory \<Rightarrow> evm \<Rightarrow> Memory \<Rightarrow> evm \<Rightarrow> bool" where
  "gasEffect E mem m mem' m' \<longleftrightarrow> store mem' = store mem
     \<and> m' = m\<lparr>statedb := statedb m', callGasTemp := callGasTemp m'\<rparr>
     \<and> calm (rdr E) (statedb m) (statedb m')"

definition gOk :: "env \<Rightarrow> Memory \<Rightarrow> evm \<Rightarrow> 'a gasResult \<Rightarrow> bool" where
  "gOk E mem m R \<longleftrightarrow> (\<forall>mem' m' r. R = Inr (mem', m', r) \<longrightarrow> gasEffect E mem m mem' m')"

named_theorems gas_effects \<open>gas functions have no other effect\<close>

lemma gasEffect_refl [simp]: "gasEffect E mem m mem m"
  by (simp add: gasEffect_def)

lemma gasEffect_trans: "gasEffect E a m b n \<Longrightarrow> gasEffect E b n c p \<Longrightarrow> gasEffect E a m c p"
  by (cases m; cases n; cases p) (auto simp: gasEffect_def intro: calm_trans)

lemma gbind_simps [simp]:
  "gbind (Inl p) k = Inl p"
  "gbind (Inr (mem, m, Inl e)) k = Inr (mem, m, Inl e)"
  "gbind (Inr (mem, m, Inr x)) k = k x mem m"
  by (simp_all add: gbind_def)

lemma gOk_bind:
  assumes "gOk E mem m r" "\<And>x mem1 m1. r = Inr (mem1, m1, Inr x) \<Longrightarrow> gOk E mem1 m1 (k x mem1 m1)"
  shows "gOk E mem m (gbind r k)"
proof (cases r)
  case (Inr x)
  obtain mem1 m1 y where x: "x = (mem1, m1, y)" by (cases x)
  with assms Inr show ?thesis by (cases y) (auto simp: gOk_def intro: gasEffect_trans)
qed (simp add: gOk_def)

lemma gOk_gret [gas_effects]: "gOk E mem m (gret x mem m)"
  by (simp add: gOk_def gret_def)

lemma gOk_gback [gas_effects]: "gOk E mem m (gback n st mem m)"
  by (auto simp: gOk_def gback_def gret_def rbind_eq_Inr)

lemma gOk_gmemory [gas_effects]: "gOk E mem m (gmemory sz mem m)"
  by (auto simp: gOk_def gmemory_def gret_def memoryGasCost_def Let_def gasEffect_def split: if_splits)

lemma gOk_gquery: "calm (rdr E) (statedb m) (snd (q (statedb m))) \<Longrightarrow> gOk E mem m (gquery q mem m)"
  by (auto simp: gOk_def gquery_def gasEffect_def split: prod.splits)

lemma gOk_gaddRefund [gas_effects]: "gOk E mem m (gaddRefund g mem m)"
  by (auto simp: gOk_def gaddRefund_def gasEffect_def)

lemma gOk_gsubRefund [gas_effects]: "gOk E mem m (gsubRefund g mem m)"
  by (auto simp: gOk_def gsubRefund_def gasEffect_def split: option.splits intro: calm_SubRefund)

lemma gOk_gskip [gas_effects]: "gOk E mem m (gskip mem m)"
  by (simp add: gOk_def gskip_def)

lemma gOk_gcall [gas_effects]: "gOk E mem m (gcall E c st g mem m)"
  unfolding gcall_def
  by (rule gOk_bind [OF gOk_gback]) (auto simp: gOk_def gret_def gback_def gasEffect_def rbind_eq_Inr split: sum.splits)

lemma gOk_queries [gas_effects]:
  "gOk E mem m (gquery (GetState (rdr E) a k) mem m)"
  "gOk E mem m (gquery (GetCommittedState (rdr E) a k) mem m)"
  "gOk E mem m (gquery (Empty (rdr E) a) mem m)"
  "gOk E mem m (gquery (Exist (rdr E) a) mem m)"
  "gOk E mem m (gquery (GetBalance (rdr E) a) mem m)"
  "gOk E mem m (gquery (HasSuicided (rdr E) a) mem m)"
  by (rule gOk_gquery, simp)+

lemma gOk_if: "(b \<Longrightarrow> gOk E mem m x) \<Longrightarrow> (\<not> b \<Longrightarrow> gOk E mem m y) \<Longrightarrow> gOk E mem m (if b then x else y)"
  by simp

definition gasFuncOk :: "gasFunc \<Rightarrow> bool" where
  "gasFuncOk g \<longleftrightarrow> (\<forall>E c st mem sz m. gOk E mem m (g E c st mem sz m))"

lemma gasFuncOk_basic:
  "gasFuncOk (memoryCopierGas n)" "gasFuncOk (makeGasLog k)" "gasFuncOk (wordGas n p)"
  "gasFuncOk pureMemoryGascost" "gasFuncOk (expGas p)" "gasFuncOk gasDelegateCall" "gasFuncOk gasStaticCall"
  unfolding gasFuncOk_def memoryCopierGas_def makeGasLog_def wordGas_def pureMemoryGascost_def expGas_def
    gasDelegateCall_def gasStaticCall_def Let_def
  by (intro allI gOk_bind gas_effects)+

lemma gasFuncOk_state:
  "gasFuncOk gasSStore" "gasFuncOk gasSStoreEIP2200" "gasFuncOk gasCall" "gasFuncOk gasCallCode"
  "gasFuncOk gasSelfdestruct"
  unfolding gasFuncOk_def gasSStore_def gasSStoreEIP2200_def gasCall_def gasCallCode_def
    gasSelfdestruct_def Let_def
  by (intro allI gOk_bind gOk_if gas_effects)+

subsection \<open>What is charged\<close>

text \<open>
  \<open>gives st m\<close> is the gas that executing an operation may add back to the frame. \<open>charges\<close> says that
  the gas function has charged it, \<open>charges1\<close> that it has charged more.
\<close>

type_synonym allowance = "stack \<Rightarrow> evm \<Rightarrow> nat"

definition charges :: "gasFunc \<Rightarrow> allowance \<Rightarrow> bool" where
  "charges g gives \<longleftrightarrow> gasFuncOk g \<and> (\<forall>E c st mem sz m mem' m' cost.
     g E c st mem sz m = Inr (mem', m', Inr cost) \<longrightarrow> gives st m' \<le> unat cost)"

definition chargesMore :: "gasFunc \<Rightarrow> allowance \<Rightarrow> bool" where
  "chargesMore g gives \<longleftrightarrow> (\<forall>E c st mem sz m mem' m' cost.
     g E c st mem sz m = Inr (mem', m', Inr cost) \<longrightarrow> gives st m' < unat cost)"

definition nothing :: allowance where
  "nothing st m = 0"

definition callee :: allowance where
  "callee st m = unat (callGasTemp m)"

definition calleeStipend :: allowance where
  "calleeStipend st m = unat (callGasTemp m) + (if st ! 2 \<noteq> 0 then 2300 else 0)"

lemma charges_nothing: "gasFuncOk g \<Longrightarrow> charges g nothing"
  by (simp add: charges_def nothing_def)

lemma gbind_Inr:
  "gbind r k = Inr (mem', m', Inr y) \<longleftrightarrow>
     (\<exists>x mem m. r = Inr (mem, m, Inr x) \<and> k x mem m = Inr (mem', m', Inr y))"
proof (cases r)
  case (Inr z)
  obtain mem1 m1 x where "z = (mem1, m1, x)" by (cases z)
  with Inr show ?thesis by (cases x) auto
qed simp

lemma checked_Inr: "checked r = Inr x \<longleftrightarrow> \<not> snd r \<and> x = fst r"
  by (auto simp: checked_def)

lemma checked_add: "checked (SafeAdd a b) = Inr c \<Longrightarrow> unat c = unat a + unat b"
  by (auto simp: checked_Inr SafeAdd_def unat_word_ariths take_bit_eq_mod)

lemma gcall_Inr:
  assumes "gcall E c st g mem m = Inr (mem', m', Inr cost)"
  shows "unat cost = unat g + unat (callGasTemp m')"
proof -
  from assms obtain x where x: "(case callGas (IsEIP150 (chainRules E)) (c_Gas c) g x of
         Inl e \<Rightarrow> Inr (mem, m\<lparr>callGasTemp := 0\<rparr>, Inl e)
       | Inr t \<Rightarrow> gret (checked (SafeAdd g t)) mem (m\<lparr>callGasTemp := t\<rparr>)) = Inr (mem', m', Inr cost)"
    by (auto simp: gcall_def gbind_Inr gback_def gret_def rbind_eq_Inr)
  then show ?thesis
    by (cases "callGas (IsEIP150 (chainRules E)) (c_Gas c) g x") (auto simp: gret_def dest: checked_add)
qed

lemma charges_calls:
  "charges gasDelegateCall callee" "charges gasStaticCall callee"
  using gasFuncOk_basic(6,7)
  by (auto simp: charges_def callee_def gasDelegateCall_def gasStaticCall_def gbind_Inr dest!: gcall_Inr)

lemma Sign_eq_0 [simp]: "Sign x = 0 \<longleftrightarrow> x = 0"
proof -
  have "x = 0" if "sint x = 0" using that by (intro signed_word_eqI) simp
  then show ?thesis by (auto simp: Sign_def sgn_0_0)
qed

lemma charges_valueCalls:
  "charges gasCall calleeStipend" "charges gasCallCode calleeStipend"
proof -
  have "unat (callGasTemp m') + (if st ! 2 \<noteq> 0 then 2300 else 0) \<le> unat cost"
    if "gasCall E c st mem sz m = Inr (mem', m', Inr cost)" for E c st mem sz m mem' m' cost
  proof -
    from that obtain g mg g' mem1 m1 where g: "checked (SafeAdd g mg) = Inr g'" "gcall E c st g' mem1 m1 = Inr (mem', m', Inr cost)"
      "st ! 2 \<noteq> 0 \<longrightarrow> g = CallValueTransferGas \<or> g = CallNewAccountGas + CallValueTransferGas"
      by (fastforce simp: gasCall_def gbind_Inr gback_def gret_def Back_def rbind_eq_Inr Let_def split: if_splits)
    have "st ! 2 \<noteq> 0 \<longrightarrow> 9000 \<le> unat g" using g(3) by (auto simp: params)
    with checked_add [OF g(1)] gcall_Inr [OF g(2)] show ?thesis by auto
  qed
  with gasFuncOk_state(3) show "charges gasCall calleeStipend" unfolding charges_def calleeStipend_def by blast
  have "unat (callGasTemp m') + (if st ! 2 \<noteq> 0 then 2300 else 0) \<le> unat cost"
    if "gasCallCode E c st mem sz m = Inr (mem', m', Inr cost)" for E c st mem sz m mem' m' cost
  proof -
    from that obtain g mg g' mem1 m1 where g: "checked (SafeAdd g mg) = Inr g'" "gcall E c st g' mem1 m1 = Inr (mem', m', Inr cost)"
      "st ! 2 \<noteq> 0 \<longrightarrow> g = CallValueTransferGas"
      by (fastforce simp: gasCallCode_def gbind_Inr gback_def gret_def Back_def rbind_eq_Inr Let_def split: if_splits)
    have "st ! 2 \<noteq> 0 \<longrightarrow> 9000 \<le> unat g" using g(3) by (auto simp: params)
    with checked_add [OF g(1)] gcall_Inr [OF g(2)] show ?thesis by auto
  qed
  with gasFuncOk_state(4) show "charges gasCallCode calleeStipend" unfolding charges_def calleeStipend_def by blast
qed

lemma chargesMore_exp: "chargesMore (expGas p) nothing"
  by (auto simp: chargesMore_def nothing_def expGas_def gbind_Inr gret_def Let_def params dest!: checked_add)

lemma chargesMore_log: "chargesMore (makeGasLog n) nothing"
  by (auto simp: chargesMore_def nothing_def makeGasLog_def gbind_Inr gret_def rbind_eq_Inr params dest!: checked_add)

definition gPos :: "u64 gasResult \<Rightarrow> bool" where
  "gPos R \<longleftrightarrow> (\<forall>mem m cost. R = Inr (mem, m, Inr cost) \<longrightarrow> 0 < unat cost)"

lemma gPos_bind: "(\<And>x mem m. gPos (k x mem m)) \<Longrightarrow> gPos (gbind r k)"
  by (auto simp: gPos_def gbind_Inr)

lemma gPos_gret: "0 < unat c \<Longrightarrow> gPos (gret (Inr c) mem m)" "gPos (gret (Inl e) mem m)"
  by (auto simp: gPos_def gret_def)

lemma gPos_if: "gPos x \<Longrightarrow> gPos y \<Longrightarrow> gPos (if b then x else y)"
  by simp

lemma chargesMore_sstore: "chargesMore gasSStore nothing" "chargesMore gasSStoreEIP2200 nothing"
proof -
  have "gPos (gasSStore E c st mem sz m)" "gPos (gasSStoreEIP2200 E c st mem sz m)" for E c st mem sz m
    unfolding gasSStore_def gasSStoreEIP2200_def
    by (intro gPos_bind gPos_if gPos_gret; simp add: params)+
  then show "chargesMore gasSStore nothing" "chargesMore gasSStoreEIP2200 nothing"
    by (auto simp: chargesMore_def nothing_def gPos_def)
qed

end
