(* ===== verification/EvmCallEffects.thy ===== *)
theory EvmCallEffects
  imports EvmCharge
begin

text \<open>
  Calls and creations. From what a runner promises (\<open>runsOk\<close>: no gas gained, depth and write
  protection restored, a calm run of the database) the same follows for the calls, on success
  and on failure, and they end when the runner does.
\<close>

definition runsOk :: "env \<Rightarrow> runner \<Rightarrow> bool" where
  "runsOk E run \<longleftrightarrow> (\<forall>c input ro m ret err c' m'. run c input ro m = Some (Inr (ret, err, c', m')) \<longrightarrow>
     unat (c_Gas c') \<le> unat (c_Gas c) \<and> mEffect E m m')"

definition endsBelow :: "runner \<Rightarrow> nat \<Rightarrow> bool" where
  "endsBelow run n \<longleftrightarrow> (\<forall>c input ro m. unat (c_Gas c) < n \<longrightarrow> run c input ro m \<noteq> None)"

definition callOk :: "env \<Rightarrow> evm \<Rightarrow> u64 \<Rightarrow> callResult \<Rightarrow> bool" where
  "callOk E m gas R \<longleftrightarrow> (\<forall>ret gas' err m'. R = Some (Inr (ret, gas', err, m')) \<longrightarrow>
     unat gas' \<le> unat gas \<and> mEffect E m m')"

definition createOk :: "env \<Rightarrow> evm \<Rightarrow> u64 \<Rightarrow> createResult \<Rightarrow> bool" where
  "createOk E m gas R \<longleftrightarrow> (\<forall>ret a gas' err m'. R = Some (Inr (ret, a, gas', err, m')) \<longrightarrow>
     unat gas' \<le> unat gas \<and> mEffect E m m')"

subsection \<open>Pieces\<close>

lemma mEffect_query: "calm (rdr E) (statedb m) (snd (q (statedb m))) \<Longrightarrow> query q m = (x, m') \<Longrightarrow> mEffect E m m'"
  by (auto simp: query_eq mEffect_def)

lemma mEffect_update: "calm (rdr E) (statedb m) (g (statedb m)) \<Longrightarrow> mEffect E m (update g m)"
  by (auto simp: update_def mEffect_def)

lemma mEffect_NewContract: "NewContract caller a v g m = (c, m') \<Longrightarrow> mEffect E m m' \<and> c_Gas c = g"
  by (auto simp: NewContract_def mEffect_def split: ContractRef.splits)

lemma SetCode_gas [simp]:
  "c_Gas (SetCallCode a h code c) = c_Gas c" "c_Gas (SetCodeOptionalHash a code h c) = c_Gas c"
  by (simp_all add: SetCallCode_def SetCodeOptionalHash_def)

lemma AsDelegate_gas: "AsDelegate c = Inr c' \<Longrightarrow> c_Gas c' = c_Gas c"
  by (auto simp: AsDelegate_def split: ContractRef.splits)

lemma callOk_const [simp]: "mEffect E m m' \<Longrightarrow> unat g \<le> unat gas \<Longrightarrow> callOk E m gas (Some (Inr (r, g, e, m')))"
  by (simp add: callOk_def)

lemma callOk_mono: "callOk E m1 gas R \<Longrightarrow> mEffect E m m1 \<Longrightarrow> callOk E m gas R"
  by (auto simp: callOk_def intro: mEffect_trans)

lemma callOk_runCode: "runsOk E run \<Longrightarrow> c_Gas c = gas \<Longrightarrow> callOk E m gas (runCode run c input ro m)"
  by (auto simp: callOk_def runCode_def fbind_eq_Inr runsOk_def)

lemma RunPrecompiled_gas:
  "RunPrecompiledContract C p input gas = Inr (ret, gas', err) \<Longrightarrow> unat gas' \<le> unat gas"
  by (auto simp: RunPrecompiledContract_def rbind_eq_Inr word_le_nat_alt [symmetric] word_sub_le_iff not_less
      split: if_splits)

lemma callOk_runPre: "callOk E m gas (runPre E p input gas m)"
  by (auto simp: callOk_def runPre_def fbind_eq_Inr dest: RunPrecompiled_gas)

lemma calm_undone:
  assumes "Snapshot s = (i, s1)" "calm rd s1 s2" "RevertToSnapshot rd i s2 = Some s3"
  shows "calm rd s s3"
proof -
  have i: "nextRevisionId s = i" "nextRevisionId s1 = i + 1" using assms(1) by (auto simp: Snapshot_def Let_def)
  with assms(2) have "nextRevisionId s2 - 1 \<ge> i" by (simp add: calm_def)
  obtain ops where o: "runOps rd ops s1 = Some s2" "\<forall>op \<in> set ops. inFrame i op"
    using assms(2) i by (auto simp: calm_def)
  have "runOps rd (OpSnapshot # ops @ [OpRevertToSnapshot i]) s = Some s3"
    using assms(1,3) o(1) by (simp add: runOps_append)
  moreover have "\<forall>op \<in> set (OpSnapshot # ops @ [OpRevertToSnapshot i]). inFrame (nextRevisionId s - 1) op"
    using o(2) i(1) by (auto intro: inFrame_mono)
  moreover have "nextRevisionId s \<le> nextRevisionId s3"
    using assms(2) nri_RevertToSnapshot [OF assms(3)] i by (simp add: calm_def)
  ultimately show ?thesis unfolding calm_def by blast
qed

lemma mEffect_undone:
  assumes "query Snapshot m = (i, m1)" "mEffect E m1 m2" "revertTo E i m2 = Inr m3"
  shows "mEffect E m m3"
  using assms calm_undone [of "statedb m" i "statedb m1" "rdr E" "statedb m2"]
  by (auto simp: query_eq revertTo_def mEffect_def split: option.splits)

lemma mEffect_snapshot: "query Snapshot m = (i, m1) \<Longrightarrow> mEffect E m m1"
  by (rule mEffect_query [of E m Snapshot i m1]) simp

lemma callOk_endCall:
  assumes "query Snapshot m = (i, m1)" "callOk E m1 gas R"
  shows "callOk E m gas (fbind R (\<lambda>(ret, g, err, m2). endCall E i ret g err m2))"
  using assms mEffect_undone [OF assms(1)] mEffect_trans [OF mEffect_snapshot [OF assms(1)]]
  by (fastforce simp: callOk_def endCall_def fbind_eq_Inr split: if_splits)

subsection \<open>The four calls\<close>

named_theorems call_rules \<open>rules that follow the structure of a call\<close>

lemma callOk_if [call_rules]:
  "(b \<Longrightarrow> callOk E m g x) \<Longrightarrow> (\<not> b \<Longrightarrow> callOk E m g y) \<Longrightarrow> callOk E m g (if b then x else y)"
  by simp

lemma callOk_query [call_rules]:
  assumes "\<And>s. calm (rdr E) s (snd (q s))" "\<And>x m1. query q m = (x, m1) \<Longrightarrow> callOk E m1 gas (k x m1)"
  shows "callOk E m gas (Let (query q m) (\<lambda>(x, m1). k x m1))"
proof -
  obtain x m1 where q: "query q m = (x, m1)" by fastforce
  then show ?thesis using callOk_mono [OF assms(2) [OF q] mEffect_query [OF assms(1) q]] by simp
qed

lemma callOk_update [call_rules]:
  assumes "\<And>s. calm (rdr E) s (g s)" "callOk E (update g m) gas (k (update g m))"
  shows "callOk E m gas (Let (update g m) k)"
  using callOk_mono [OF assms(2) mEffect_update [of E m g, OF assms(1)]] by simp

lemma callOk_NewContract [call_rules]:
  assumes "\<And>c m1. c_Gas c = g \<Longrightarrow> callOk E m1 gas (k c m1)"
  shows "callOk E m gas (Let (NewContract cl a v g m) (\<lambda>(c, m1). k c m1))"
proof -
  obtain c m1 where c: "NewContract cl a v g m = (c, m1)" by fastforce
  with mEffect_NewContract [OF c, of E] show ?thesis by (auto intro: callOk_mono assms)
qed

lemma callOk_precompile [call_rules]:
  "callOk E m gas R \<Longrightarrow> callOk E m gas (case p of Some p \<Rightarrow> runPre E p input gas m | None \<Rightarrow> R)"
  by (simp add: callOk_runPre split: option.split)

lemma callOk_AsDelegate [call_rules]:
  "(\<And>c'. c_Gas c' = c_Gas c \<Longrightarrow> callOk E m gas (k c')) \<Longrightarrow> callOk E m gas (fbind (Some (AsDelegate c)) k)"
  by (cases "AsDelegate c") (auto simp: callOk_def dest: AsDelegate_gas)

lemma callOk_bracket [call_rules]:
  assumes "\<And>i m1. query Snapshot m = (i, m1) \<Longrightarrow> callOk E m1 gas (R m1)"
  shows "callOk E m gas (Let (query Snapshot m)
     (\<lambda>(i, m1). fbind (R m1) (\<lambda>(ret, g, err, m2). endCall E i ret g err m2)))"
proof -
  obtain i m1 where sn: "query Snapshot m = (i, m1)" by fastforce
  with callOk_endCall [OF sn assms [OF sn]] show ?thesis by simp
qed

lemma callOk_stop [call_rules]: "callOk E m gas (Some (Inr (r, gas, e, m)))"
  by simp

lemmas calm_rules = calm_queries calm_updates calm_CanTransfer calm_Transfer calm_GetCodeBytes

lemma DelegateCall_ok:
  assumes "runsOk E run"
  shows "callOk E m gas (DelegateCall E run caller addr input gas m)"
  unfolding DelegateCall_def by (intro call_rules callOk_runCode [OF assms] calm_rules) simp

lemma StaticCall_ok:
  assumes "runsOk E run"
  shows "callOk E m gas (StaticCall E run caller addr input gas m)"
proof -
  have "callOk E m gas (Let (query Snapshot m) (\<lambda>(snapshot, m1).
     fbind (let m2 = update (AddBalance (rdr E) addr 0) m1 in case precompile E addr of
             Some p \<Rightarrow> runPre E p input gas m2
           | None \<Rightarrow>
               let (c, m3) = NewContract caller addr 0 gas m2;
                   (h, m4) = query (GetCodeHash (rdr E) addr) m3;
                   (code, m5) = query (GetCodeBytes (rdr E) addr) m4
               in runCode run (SetCallCode addr h code c) input True m5)
           (\<lambda>(ret, gas, err, m). endCall E snapshot ret gas err m)))"
    by (intro call_rules callOk_runCode [OF assms] calm_rules) simp
  then show ?thesis unfolding StaticCall_def by (simp add: Let_def)
qed

lemma CallCode_ok:
  assumes "runsOk E run"
  shows "callOk E m gas (CallCode E run caller addr input gas value m)"
  unfolding CallCode_def by (intro call_rules callOk_runCode [OF assms] calm_rules) simp

text \<open>\<^verbatim>\<open>Call\<close> checks for the account between the snapshot and the body.\<close>

lemma callOk_body:
  assumes "query Snapshot m = (i, m1)" "mEffect E m1 m2" "callOk E m2 gas R"
  shows "callOk E m gas (fbind R (\<lambda>(ret, g, err, m'). endCall E i ret g err m'))"
  using callOk_endCall [OF assms(1) callOk_mono [OF assms(3,2)]] .

lemma callBody_ok:
  "runsOk E run \<Longrightarrow> callOk E m gas (callBody E run caller addr input gas value m)"
  unfolding callBody_def by (intro call_rules callOk_runCode calm_rules) simp_all

text \<open>What \<^verbatim>\<open>Call\<close> does between its snapshot and its body.\<close>

lemma mEffect_enter:
  assumes "query (Exist (rdr E) addr) m2 = (ex, m3)"
  shows "mEffect E m2 m3"
    "mEffect E m2 (update (Transfer (rdr E) a addr value) (if \<not> ex then update (CreateAccount (rdr E) addr) m3 else m3))"
    (is "mEffect E m2 (update ?t ?m4)")
proof -
  show e3: "mEffect E m2 m3" by (rule mEffect_query [OF _ assms]) simp
  have "mEffect E m3 ?m4" by (simp add: mEffect_update)
  moreover have "mEffect E ?m4 (update ?t ?m4)" by (rule mEffect_update) simp
  ultimately show "mEffect E m2 (update ?t ?m4)" using e3 by (blast intro: mEffect_trans)
qed

lemma Call_ok:
  assumes "runsOk E run"
  shows "callOk E m gas (Call E run caller addr input gas value m)"
proof -
  have rest: "callOk E m1 gas
     (let (snapshot, m2) = query Snapshot m1;
              (exists, m3) = query (Exist (rdr E) addr) m2
          in if \<not> exists \<and> precompile E addr = None \<and> IsEIP158 (chainRules E) \<and> value = 0
             then Some (Inr (OwnBytes [], gas, None, m3))
             else
               let m4 = (if \<not> exists then update (CreateAccount (rdr E) addr) m3 else m3);
                   m5 = update (Transfer (rdr E) (refAddress caller) addr value) m4
               in fbind (callBody E run caller addr input gas value m5)
                    (\<lambda>(ret, gas, err, m). endCall E snapshot ret gas err m))" for m1
  proof -
    obtain i m2 where sn: "query Snapshot m1 = (i, m2)" by fastforce
    obtain ex m3 where ex: "query (Exist (rdr E) addr) m2 = (ex, m3)" by fastforce
    from callOk_body [OF sn mEffect_enter(2) [OF ex] callBody_ok [OF assms]]
      mEffect_trans [OF mEffect_snapshot [OF sn] mEffect_enter(1) [OF ex]]
    show ?thesis by (simp add: sn ex Let_def)
  qed
  have can: "callOk E m gas (let (can, m1) = (if value \<noteq> 0 then query (CanTransfer (rdr E) (refAddress caller) value) m
                         else (True, m)) in k can m1)" if "\<And>m1 can. callOk E m1 gas (k can m1)" for k
  proof (cases "value = 0")
    case False
    then show ?thesis using callOk_query [where q = "CanTransfer (rdr E) (refAddress caller) value"] that by simp
  qed (use that in simp)
  show ?thesis unfolding Call_def by (intro callOk_if callOk_stop can rest)
qed

subsection \<open>Creation\<close>

lemma createOk_mono: "createOk E m1 gas R \<Longrightarrow> mEffect E m m1 \<Longrightarrow> createOk E m gas R"
  by (auto simp: createOk_def intro: mEffect_trans)

named_theorems create_rules \<open>rules that follow the structure of a creation\<close>

lemma createOk_if [create_rules]:
  "(b \<Longrightarrow> createOk E m g x) \<Longrightarrow> (\<not> b \<Longrightarrow> createOk E m g y) \<Longrightarrow> createOk E m g (if b then x else y)"
  by simp

lemma createOk_stop [create_rules]:
  "createOk E m gas (Some (Inr (r, a, gas, e, m)))" "createOk E m gas (Some (Inr (r, a, 0, e, m)))"
  by (simp_all add: createOk_def)

lemma createOk_query [create_rules]:
  assumes "\<And>s. calm (rdr E) s (snd (q s))" "\<And>x m1. query q m = (x, m1) \<Longrightarrow> createOk E m1 gas (k x m1)"
  shows "createOk E m gas (Let (query q m) (\<lambda>(x, m1). k x m1))"
proof -
  obtain x m1 where q: "query q m = (x, m1)" by fastforce
  then show ?thesis using createOk_mono [OF assms(2) [OF q] mEffect_query [OF assms(1) q]] by simp
qed

lemma createOk_update [create_rules]:
  assumes "\<And>s. calm (rdr E) s (g s)" "createOk E (update g m) gas (k (update g m))"
  shows "createOk E m gas (Let (update g m) k)"
  using createOk_mono [OF assms(2) mEffect_update [of E m g, OF assms(1)]] by simp

lemma endCreate_ok:
  assumes sn: "query Snapshot m = (i, m1)" and m0: "mEffect E m1 m0" and g: "unat (c_Gas c0) \<le> unat gas"
  shows "createOk E m gas (endCreate E i a ret err0 c0 m0)"
proof -
  have use: "unat (c_Gas (snd (UseGas g c))) \<le> unat (c_Gas c)" for g c
    by (auto simp: UseGas_def word_le_nat_alt [symmetric] word_sub_le_iff not_less)
  define big where "big \<longleftrightarrow> IsEIP158 (chainRules E) \<and> length ret > MaxCodeSize"
  obtain err c1 m1' where r: "(if err0 = None \<and> \<not> big
             then let (ok, c) = UseGas (of_nat (length ret) * CreateDataGas) c0
                  in if ok then (None, c, update (SetCode (rdr E) a ret) m0)
                     else (Some ErrCodeStoreOutOfGas, c, m0)
             else (err0, c0, m0)) = (err, c1, m1')" by (rule prod_cases3)
  have c1: "unat (c_Gas c1) \<le> unat gas"
    using r g use [of "of_nat (length ret) * CreateDataGas" c0] by (auto split: if_splits prod.splits intro: order_trans)
  have m1': "mEffect E m1 m1'"
    using r m0 by (auto split: if_splits prod.splits intro!: mEffect_trans [OF m0] mEffect_update)
  have undone: "mEffect E m m2" if "(if undo then revertTo E i m1' else Inr m1') = Inr m2" for undo m2
    using that mEffect_undone [OF sn m1'] mEffect_trans [OF mEffect_snapshot [OF sn] m1'] by (auto split: if_splits)
  show ?thesis
    unfolding createOk_def endCreate_def big_def [symmetric]
    using r c1 order_trans [OF use c1] undone by (auto simp: Let_def fbind_eq_Inr)
qed

text \<open>The machine that the init code runs on.\<close>

lemma deploy_enter:
  assumes "NewContract caller addr value gas (update (Transfer (rdr E) (refAddress caller) addr value)
     (if IsEIP158 (chainRules E) then update (SetNonce (rdr E) addr 1) (update (CreateAccount (rdr E) addr) m6)
      else update (CreateAccount (rdr E) addr) m6)) = (c, m10)"
    (is "NewContract _ _ _ _ ?m9 = _")
  shows "mEffect E m6 m10" "c_Gas c = gas"
proof -
  let ?m7 = "update (CreateAccount (rdr E) addr) m6"
  let ?m8 = "if IsEIP158 (chainRules E) then update (SetNonce (rdr E) addr 1) ?m7 else ?m7"
  have "mEffect E m6 ?m7" by (rule mEffect_update) simp
  moreover have "mEffect E ?m7 ?m8" by (simp add: mEffect_update)
  moreover have "mEffect E ?m8 ?m9" by (rule mEffect_update) simp
  moreover have "mEffect E ?m9 m10" "c_Gas c = gas" using mEffect_NewContract [OF assms] by simp_all
  ultimately show "mEffect E m6 m10" "c_Gas c = gas" by (blast intro: mEffect_trans)+
qed

lemma deploy_ok:
  assumes "runsOk E run"
  shows "createOk E m gas (deploy E run caller code h gas value addr m)"
proof -
  obtain i m6 where sn: "query Snapshot m = (i, m6)" by fastforce
  obtain c m10 where c: "NewContract caller addr value gas (update (Transfer (rdr E) (refAddress caller) addr value)
     (if IsEIP158 (chainRules E) then update (SetNonce (rdr E) addr 1) (update (CreateAccount (rdr E) addr) m6)
      else update (CreateAccount (rdr E) addr) m6)) = (c, m10)" by fastforce
  let ?c = "SetCodeOptionalHash addr code h c"
  note e = deploy_enter [OF c]
  have "createOk E m gas (fbind (run ?c [] False m10) (\<lambda>(ret, err, c', m'). endCreate E i addr ret err c' m'))"
  proof (cases "run ?c [] False m10")
    case (Some r)
    show ?thesis
    proof (cases r)
      case (Inr z)
      obtain ret err c' m' where z: "z = (ret, err, c', m')" by (cases z)
      have "unat (c_Gas c') \<le> unat (c_Gas ?c)" "mEffect E m10 m'"
        using assms Some Inr z unfolding runsOk_def by (metis, blast)
      with endCreate_ok [OF sn mEffect_trans [OF e(1)]] Some Inr z e(2) show ?thesis by simp
    qed (simp add: Some createOk_def)
  qed (simp add: createOk_def)
  moreover have "createOk E m gas (Some (Inr ([], addr, gas, None, m10)))"
    using mEffect_trans [OF mEffect_snapshot [OF sn] e(1)] by (simp add: createOk_def)
  ultimately show ?thesis unfolding deploy_def sn Let_def by (simp add: c)
qed

lemma evm_create_ok:
  assumes "runsOk E run"
  shows "createOk E m gas (evm_create E run caller code h gas value addr m)"
  unfolding evm_create_def
  by (rule createOk_if, rule createOk_stop, rule createOk_query, rule calm_rules, rule createOk_if,
      rule createOk_stop, rule createOk_query, rule calm_rules, rule createOk_update, rule calm_rules,
      rule createOk_query, rule calm_rules, rule createOk_query, rule calm_rules, rule createOk_if,
      rule createOk_stop, rule deploy_ok [OF assms])

lemma Create_ok: "runsOk E run \<Longrightarrow> createOk E m gas (Create E run caller code gas value m)"
  unfolding Create_def by (intro createOk_query calm_rules evm_create_ok)

lemma Create2_ok: "runsOk E run \<Longrightarrow> createOk E m gas (Create2 E run caller code gas value salt m)"
  by (simp add: Create2_def Let_def evm_create_ok)

end
