(* ===== verification/EvmTermination.thy ===== *)
theory EvmTermination
  imports EvmCallEffects
begin

text \<open>
  The machine ends. Every pass through the loop that does not leave it costs gas, and what a
  call hands to its callee has been paid for, so a frame with less gas than fuel runs to its end,
  calls included. The same accounting shows that no frame ends with more gas than it had.
\<close>

subsection \<open>Calls end when the runner does\<close>

definition ends :: "'a option \<Rightarrow> bool" where
  "ends R \<longleftrightarrow> R \<noteq> None"

named_theorems ends_rules \<open>rules that follow the structure of a call\<close>

lemma ends_Some [simp, ends_rules]: "ends (Some z)"
  by (simp add: ends_def)

lemma ends_if [ends_rules]: "(b \<Longrightarrow> ends x) \<Longrightarrow> (\<not> b \<Longrightarrow> ends y) \<Longrightarrow> ends (if b then x else y)"
  by simp

lemma ends_pair [ends_rules]: "(\<And>x m1. r = (x, m1) \<Longrightarrow> ends (k x m1)) \<Longrightarrow> ends (Let r (\<lambda>(x, m1). k x m1))"
  by (simp split: prod.split)

lemma ends_let: "ends (k v) \<Longrightarrow> ends (Let v k)"
  by simp

lemma ends_fbind [ends_rules]: "ends R \<Longrightarrow> (\<And>a. R = Some (Inr a) \<Longrightarrow> ends (h a)) \<Longrightarrow> ends (fbind R h)"
  by (auto simp: ends_def fbind_def split: sum.split)

lemma ends_endCall: "ends (endCall E i ret g err m)"
  unfolding endCall_def by (intro ends_rules)

lemma ends_endCall_all [ends_rules]: "ends (case z of (ret, g, err, m) \<Rightarrow> endCall E i ret g err m)"
  by (simp add: ends_endCall split: prod.split)

lemma ends_runPre: "ends (runPre E p input gas m)"
  unfolding runPre_def by (intro ends_rules) (simp split: prod.split)

lemma ends_precompile [ends_rules]:
  "ends R \<Longrightarrow> ends (case p of Some p \<Rightarrow> runPre E p input gas m | None \<Rightarrow> R)"
  by (simp add: ends_runPre split: option.split)

lemma ends_runCode: "endsBelow run n \<Longrightarrow> unat (c_Gas c) < n \<Longrightarrow> ends (runCode run c input ro m)"
  unfolding runCode_def by (intro ends_rules) (auto simp: ends_def endsBelow_def)

lemma gas_NewContract: "NewContract cl a v g m = (c, m1) \<Longrightarrow> c_Gas c = g"
  by (auto simp: NewContract_def)

lemma calls_end:
  assumes "endsBelow run n" "unat gas < n"
  shows "ends (DelegateCall E run caller addr input gas m)"
    "ends (StaticCall E run caller addr input gas m)"
    "ends (CallCode E run caller addr input gas v m)"
    "ends (Call E run caller addr input gas v m)"
proof -
  note rules = ends_rules ends_runCode [OF assms(1)]
  have g: "unat (c_Gas c) < n" if "NewContract cl a v' gas m' = (c, m1)" for cl a v' m' c m1
    using gas_NewContract [OF that] assms(2) by simp
  show "ends (DelegateCall E run caller addr input gas m)"
    unfolding DelegateCall_def by (intro rules) (auto dest!: AsDelegate_gas dest: g)
  show "ends (StaticCall E run caller addr input gas m)"
    unfolding StaticCall_def by (intro rules ends_let) (auto dest: g)
  show "ends (CallCode E run caller addr input gas v m)"
    unfolding CallCode_def by (intro rules) (auto dest: g)
  show "ends (Call E run caller addr input gas v m)"
    unfolding Call_def callBody_def by (intro rules ends_let) (auto dest: g)
qed

lemma ends_case: "(\<And>x y. z = (x, y) \<Longrightarrow> ends (k x y)) \<Longrightarrow> ends (case z of (x, y) \<Rightarrow> k x y)"
  by (cases z) simp

lemma ends_endCreate: "ends (endCreate E i a ret err c m)"
  unfolding endCreate_def by (intro ends_Some ends_fbind ends_pair ends_case ends_let)

lemma creates_end:
  assumes "endsBelow run n" "unat gas < n"
  shows "ends (Create E run caller code gas v m)" "ends (Create2 E run caller code gas v salt m)"
proof -
  have run: "ends (run (SetCodeOptionalHash a code h c) [] False m1)"
    if "NewContract cl a' v' gas m' = (c, m1)" for a h cl a' v' m' c m1
    using gas_NewContract [OF that] assms by (simp add: ends_def endsBelow_def)
  have "ends (evm_create E run caller code h gas v a m)" for h a m
    unfolding evm_create_def deploy_def
    by (intro ends_rules ends_let) (auto intro: run simp: ends_endCreate split: prod.split)
  then show "ends (Create E run caller code gas v m)" "ends (Create2 E run caller code gas v salt m)"
    by (simp_all add: Create_def Create2_def Let_def split: prod.split)
qed

subsection \<open>Instructions\<close>

definition execOk :: "executionFunc \<Rightarrow> allowance \<Rightarrow> bool" where
  "execOk x gives \<longleftrightarrow>
     (\<forall>E run f m f' m' ret err. runsOk E run \<longrightarrow> x E run f m = Some (Inr (f', m', ret, err)) \<longrightarrow>
        effect E f m f' m' \<and> unat (c_Gas (contract f')) \<le> unat (c_Gas (contract f)) + gives (stack f) m)"

definition execEnds :: "executionFunc \<Rightarrow> allowance \<Rightarrow> bool" where
  "execEnds x gives \<longleftrightarrow> (\<forall>E run f m n. endsBelow run n \<longrightarrow>
     unat (c_Gas (contract f)) + gives (stack f) m < n \<longrightarrow> ends (x E run f m))"

lemma execOk_plain: "plainOp op \<Longrightarrow> execOk (plain op) nothing"
  by (auto simp: execOk_def plain_def plainOp_def nothing_def)

lemma execEnds_plain: "execEnds (plain op) nothing"
  by (simp add: execEnds_def plain_def)

lemma gas_useGas:
  "g \<le> c_Gas (contract f) \<Longrightarrow> contract (useGas g f) = (contract f)\<lparr>c_Gas := c_Gas (contract f) - g\<rparr>"
  "steps (useGas g f) = steps f" "stack (useGas g f) = stack f"
  by (auto simp: useGas_def UseGas_def not_less [symmetric])

lemma gas_addGas [simp]:
  "contract (addGas g f) = (contract f)\<lparr>c_Gas := c_Gas (contract f) + g\<rparr>" "steps (addGas g f) = steps f"
  by (auto simp: addGas_def)

lemma unat_add_le: "unat (a + b :: u64) \<le> unat a + unat b"
  by (simp add: unat_word_ariths take_bit_eq_mod)

lemma afterCall_ok:
  assumes "afterCall io is ro rs st f args (ret, g, err, m1) = Inr (f', m', res, e)"
  shows "m' = m1" "sameCode (contract f) (contract f')" "steps f' = steps f"
    "unat (c_Gas (contract f')) \<le> unat (c_Gas (contract f)) + unat g"
  using assms by (auto simp: afterCall_def rbind_eq_Inr Let_def unat_add_le)

lemma callOk_afterCall:
  assumes "callOk E m g R" "R = Some (Inr z)" "afterCall io is ro rs st f args z = Inr (f', m', ret, err)" "unat g \<le> k"
  shows "effect E f m f' m'" "unat (c_Gas (contract f')) \<le> unat (c_Gas (contract f)) + k"
proof -
  obtain r g' e m1 where z: "z = (r, g', e, m1)" by (cases z)
  with assms(1,2) have "unat g' \<le> unat g" "mEffect E m m1" by (auto simp: callOk_def)
  with afterCall_ok [OF assms(3) [unfolded z]] assms(4)
  show "effect E f m f' m'" "unat (c_Gas (contract f')) \<le> unat (c_Gas (contract f)) + k" by (auto simp: effect_def)
qed

lemma stipend_le: "unat (if v \<noteq> 0 then g + CallStipend else g) \<le> unat g + (if (v :: u256) \<noteq> 0 then 2300 else 0)"
  using unat_add_le [of g CallStipend] by (auto simp: params)

lemma opCall_stack:
  assumes "opCall E run f m = Some (Inr r)"
  obtains t a v io isz ro rsz st args z where "stack f = t # a # v # io # isz # ro # rsz # st"
    "Call E run (contractRef (contract f)) (Bytes20 a) args
       (if v \<noteq> 0 then callGasTemp m + CallStipend else callGasTemp m) (uint v) m = Some (Inr z)"
    "afterCall io isz ro rsz st f args z = Inr r"
  using assms by (auto simp: opCall_def fbind_eq_Inr Let_def split: list.splits)

lemma opCallCode_stack:
  assumes "opCallCode E run f m = Some (Inr r)"
  obtains t a v io isz ro rsz st args z where "stack f = t # a # v # io # isz # ro # rsz # st"
    "CallCode E run (contractRef (contract f)) (Bytes20 a) args
       (if v \<noteq> 0 then callGasTemp m + CallStipend else callGasTemp m) (uint v) m = Some (Inr z)"
    "afterCall io isz ro rsz st f args z = Inr r"
  using assms by (auto simp: opCallCode_def fbind_eq_Inr Let_def split: list.splits)

lemma opDelegateCall_stack:
  assumes "opDelegateCall E run f m = Some (Inr r)"
  obtains t a io isz ro rsz st args z where "stack f = t # a # io # isz # ro # rsz # st"
    "DelegateCall E run (contractRef (contract f)) (Bytes20 a) args (callGasTemp m) m = Some (Inr z)"
    "afterCall io isz ro rsz st f args z = Inr r"
  using assms by (auto simp: opDelegateCall_def fbind_eq_Inr Let_def split: list.splits)

lemma opStaticCall_stack:
  assumes "opStaticCall E run f m = Some (Inr r)"
  obtains t a io isz ro rsz st args z where "stack f = t # a # io # isz # ro # rsz # st"
    "StaticCall E run (contractRef (contract f)) (Bytes20 a) args (callGasTemp m) m = Some (Inr z)"
    "afterCall io isz ro rsz st f args z = Inr r"
  using assms by (auto simp: opStaticCall_def fbind_eq_Inr Let_def split: list.splits)

lemma execOk_opCall: "execOk opCall calleeStipend"
  unfolding execOk_def
proof (intro allI impI)
  fix E run f m f' m' ret err
  assume r: "runsOk E run" and x: "opCall E run f m = Some (Inr (f', m', ret, err))"
  from x obtain t a v io isz ro rsz st args z where st: "stack f = t # a # v # io # isz # ro # rsz # st"
    and z: "Call E run (contractRef (contract f)) (Bytes20 a) args
       (if v \<noteq> 0 then callGasTemp m + CallStipend else callGasTemp m) (uint v) m = Some (Inr z)"
    and a: "afterCall io isz ro rsz st f args z = Inr (f', m', ret, err)" by (rule opCall_stack)
  from callOk_afterCall [OF Call_ok [OF r] z a stipend_le] st
  show "effect E f m f' m' \<and> unat (c_Gas (contract f')) \<le> unat (c_Gas (contract f)) + calleeStipend (stack f) m"
    by (simp add: calleeStipend_def)
qed

lemma execOk_opCallCode: "execOk opCallCode calleeStipend"
  unfolding execOk_def
proof (intro allI impI)
  fix E run f m f' m' ret err
  assume r: "runsOk E run" and x: "opCallCode E run f m = Some (Inr (f', m', ret, err))"
  from x obtain t a v io isz ro rsz st args z where st: "stack f = t # a # v # io # isz # ro # rsz # st"
    and z: "CallCode E run (contractRef (contract f)) (Bytes20 a) args
       (if v \<noteq> 0 then callGasTemp m + CallStipend else callGasTemp m) (uint v) m = Some (Inr z)"
    and a: "afterCall io isz ro rsz st f args z = Inr (f', m', ret, err)" by (rule opCallCode_stack)
  from callOk_afterCall [OF CallCode_ok [OF r] z a stipend_le] st
  show "effect E f m f' m' \<and> unat (c_Gas (contract f')) \<le> unat (c_Gas (contract f)) + calleeStipend (stack f) m"
    by (simp add: calleeStipend_def)
qed

lemma execOk_opDelegateCall: "execOk opDelegateCall callee"
  unfolding execOk_def
proof (intro allI impI)
  fix E run f m f' m' ret err
  assume r: "runsOk E run" and x: "opDelegateCall E run f m = Some (Inr (f', m', ret, err))"
  from x obtain t a io isz ro rsz st args z where st: "stack f = t # a # io # isz # ro # rsz # st"
    and z: "DelegateCall E run (contractRef (contract f)) (Bytes20 a) args
       (callGasTemp m) m = Some (Inr z)"
    and a: "afterCall io isz ro rsz st f args z = Inr (f', m', ret, err)" by (rule opDelegateCall_stack)
  from callOk_afterCall [OF DelegateCall_ok [OF r] z a order_refl] st
  show "effect E f m f' m' \<and> unat (c_Gas (contract f')) \<le> unat (c_Gas (contract f)) + callee (stack f) m"
    by (simp add: callee_def)
qed

lemma execOk_opStaticCall: "execOk opStaticCall callee"
  unfolding execOk_def
proof (intro allI impI)
  fix E run f m f' m' ret err
  assume r: "runsOk E run" and x: "opStaticCall E run f m = Some (Inr (f', m', ret, err))"
  from x obtain t a io isz ro rsz st args z where st: "stack f = t # a # io # isz # ro # rsz # st"
    and z: "StaticCall E run (contractRef (contract f)) (Bytes20 a) args
       (callGasTemp m) m = Some (Inr z)"
    and a: "afterCall io isz ro rsz st f args z = Inr (f', m', ret, err)" by (rule opStaticCall_stack)
  from callOk_afterCall [OF StaticCall_ok [OF r] z a order_refl] st
  show "effect E f m f' m' \<and> unat (c_Gas (contract f')) \<le> unat (c_Gas (contract f)) + callee (stack f) m"
    by (simp add: callee_def)
qed

lemma execEnds_calls:
  "execEnds opCall calleeStipend" "execEnds opCallCode calleeStipend"
  "execEnds opDelegateCall callee" "execEnds opStaticCall callee"
proof -
  have v: "unat (if v \<noteq> 0 then callGasTemp m + CallStipend else callGasTemp m) < n"
    if "g + calleeStipend (t # a # v # st) m < n" for v g t a st m n
    using that stipend_le [of v "callGasTemp m"] by (simp add: calleeStipend_def)
  show "execEnds opCall calleeStipend"
    unfolding execEnds_def opCall_def Let_def
    by (auto intro!: ends_fbind calls_end dest!: v split: list.split)
  show "execEnds opCallCode calleeStipend"
    unfolding execEnds_def opCallCode_def Let_def
    by (auto intro!: ends_fbind calls_end dest!: v split: list.split)
  show "execEnds opDelegateCall callee"
    unfolding execEnds_def opDelegateCall_def callee_def
    by (auto intro!: ends_fbind calls_end split: list.split)
  show "execEnds opStaticCall callee"
    unfolding execEnds_def opStaticCall_def callee_def
    by (auto intro!: ends_fbind calls_end split: list.split)
qed

lemma createOk_exec:
  assumes "createOk E m g R" "R = Some (Inr (res, addr, g', suberr, m'))" "g \<le> c_Gas (contract f)"
    "f' = addGas g' ((useGas g f)\<lparr>stack := st\<rparr>)"
  shows "effect E f m f' m'" "unat (c_Gas (contract f')) \<le> unat (c_Gas (contract f))"
proof -
  have g': "unat g' \<le> unat g" "mEffect E m m'" using assms(1,2) by (auto simp: createOk_def)
  have "unat (c_Gas (contract f) - g) = unat (c_Gas (contract f)) - unat g"
    using assms(3) by (simp add: unat_sub)
  then have "unat (c_Gas (contract f) - g + g') \<le> unat (c_Gas (contract f))"
    using unat_add_le [of "c_Gas (contract f) - g" g'] g'(1) assms(3) by (simp add: word_le_nat_alt)
  with g' assms(3,4) show "effect E f m f' m'" "unat (c_Gas (contract f')) \<le> unat (c_Gas (contract f))"
    by (auto simp: effect_def gas_useGas sameCode_def)
qed

lemma share_le: "g - g div 64 \<le> (g :: u64)"
  by (simp add: word_le_nat_alt unat_sub unat_div div_le_dividend)

lemma execOk_creates: "execOk opCreate nothing" "execOk opCreate2 nothing"
proof -
  show "execOk opCreate nothing"
    unfolding execOk_def
  proof (intro allI impI)
    fix E run f m f' m' ret err
    assume r: "runsOk E run" and x: "opCreate E run f m = Some (Inr (f', m', ret, err))"
    let ?g0 = "c_Gas (contract f)"
    let ?g = "if IsEIP150 (chainRules E) then ?g0 - ?g0 div 64 else ?g0"
    from x obtain v input res addr g' suberr st where
      "Create E run (contractRef (contract (useGas ?g f))) input ?g v m = Some (Inr (res, addr, g', suberr, m'))"
      "f' = addGas g' ((useGas ?g f)\<lparr>stack := st\<rparr>)"
      unfolding opCreate_def Let_def by (fastforce simp: fbind_eq_Inr split: list.splits prod.splits)
    from createOk_exec [OF Create_ok [OF r] this(1) _ this(2)] share_le
    show "effect E f m f' m' \<and> unat (c_Gas (contract f')) \<le> unat (c_Gas (contract f)) + nothing (stack f) m"
      by (simp add: nothing_def)
  qed
  show "execOk opCreate2 nothing"
    unfolding execOk_def
  proof (intro allI impI)
    fix E run f m f' m' ret err
    assume r: "runsOk E run" and x: "opCreate2 E run f m = Some (Inr (f', m', ret, err))"
    let ?g = "c_Gas (contract f) - c_Gas (contract f) div 64"
    from x obtain v salt input res addr g' suberr st where
      "Create2 E run (contractRef (contract (useGas ?g f))) input ?g v salt m = Some (Inr (res, addr, g', suberr, m'))"
      "f' = addGas g' ((useGas ?g f)\<lparr>stack := st\<rparr>)"
      unfolding opCreate2_def Let_def by (fastforce simp: fbind_eq_Inr split: list.splits prod.splits)
    from createOk_exec [OF Create2_ok [OF r] this(1) _ this(2)] share_le
    show "effect E f m f' m' \<and> unat (c_Gas (contract f')) \<le> unat (c_Gas (contract f)) + nothing (stack f) m"
      by (simp add: nothing_def)
  qed
qed

lemma execEnds_creates: "execEnds opCreate nothing" "execEnds opCreate2 nothing"
proof -
  have g: "unat (c_Gas (contract f) - c_Gas (contract f) div 64) < n" if "unat (c_Gas (contract f)) < n" for f n
    using share_le [of "c_Gas (contract f)"] that by (simp add: word_le_nat_alt)
  show "execEnds opCreate nothing" "execEnds opCreate2 nothing"
    unfolding execEnds_def opCreate_def opCreate2_def Let_def nothing_def
    by (auto intro!: ends_fbind creates_end g split: list.split)
qed

subsection \<open>Operations and tables\<close>

definition operOk :: "operation \<Rightarrow> bool" where
  "operOk oper \<longleftrightarrow> (\<exists>gives. execOk (o_execute oper) gives \<and> execEnds (o_execute oper) gives
     \<and> (case o_dynamicGas oper of None \<Rightarrow> gives = nothing | Some g \<Rightarrow> charges g gives)
     \<and> (0 < o_constantGas oper
        \<or> gives = nothing \<and> (o_halts oper \<or> o_reverts oper \<or> (\<exists>g. o_dynamicGas oper = Some g \<and> chargesMore g nothing))
           \<and> (\<exists>op. o_execute oper = plain op)))"

definition tableOk :: "JumpTable \<Rightarrow> bool" where
  "tableOk jt \<longleftrightarrow> (\<forall>op oper. jt op = Some oper \<longrightarrow> operOk oper)"

lemma operOk_plain:
  assumes "o_dynamicGas oper = None" "o_execute oper = plain op" "plainOp op" "0 < o_constantGas oper"
  shows "operOk oper"
  unfolding operOk_def using assms by (intro exI [of _ nothing]) (simp add: execOk_plain execEnds_plain)

lemma operOk_plain_gas:
  assumes "o_execute oper = plain op" "o_dynamicGas oper = Some gf" "plainOp op" "gasFuncOk gf"
    "0 < o_constantGas oper \<or> o_halts oper \<or> o_reverts oper \<or> chargesMore gf nothing"
  shows "operOk oper"
  unfolding operOk_def using assms
  by (intro exI [of _ nothing]) (auto simp: execOk_plain execEnds_plain charges_nothing)

end
