(* ===== verification/EvmTables.thy ===== *)
theory EvmTables
  imports EvmTermination
begin

text \<open>Every operation of every instruction set is accounted for.\<close>

lemma gasFuncOk_table [gas_effects]:
  "gasFuncOk gasCallDataCopy" "gasFuncOk gasCodeCopy" "gasFuncOk gasExtCodeCopy" "gasFuncOk gasReturnDataCopy"
  "gasFuncOk gasSha3" "gasFuncOk gasReturn" "gasFuncOk gasRevert" "gasFuncOk gasMLoad" "gasFuncOk gasMStore8"
  "gasFuncOk gasMStore" "gasFuncOk gasCreate" "gasFuncOk gasCreate2" "gasFuncOk gasExpFrontier"
  "gasFuncOk gasExpEIP158" "gasFuncOk gasSStore" "gasFuncOk gasSStoreEIP2200" "gasFuncOk gasSelfdestruct"
  "gasFuncOk (makeGasLog k)"
  using gasFuncOk_basic gasFuncOk_state
  by (simp_all add: gasCallDataCopy_def gasCodeCopy_def gasExtCodeCopy_def gasReturnDataCopy_def gasSha3_def
      gasReturn_def gasRevert_def gasMLoad_def gasMStore8_def gasMStore_def gasCreate_def gasCreate2_def
      gasExpFrontier_def gasExpEIP158_def)

lemma chargesMore_table:
  "chargesMore gasExpFrontier nothing" "chargesMore gasExpEIP158 nothing" "chargesMore gasSStore nothing"
  "chargesMore gasSStoreEIP2200 nothing" "chargesMore (makeGasLog k) nothing"
  by (simp_all add: gasExpFrontier_def gasExpEIP158_def chargesMore_exp chargesMore_sstore chargesMore_log)

lemma operOk_call:
  assumes "execOk x gives" "execEnds x gives" "charges gf gives" "o_execute oper = x"
    "o_dynamicGas oper = Some gf" "0 < o_constantGas oper"
  shows "operOk oper"
  unfolding operOk_def using assms by (intro exI [of _ gives]) simp

lemma operOk_creates:
  "0 < o_constantGas oper \<Longrightarrow> o_execute oper = opCreate \<Longrightarrow> o_dynamicGas oper = Some gasCreate \<Longrightarrow> operOk oper"
  "0 < o_constantGas oper \<Longrightarrow> o_execute oper = opCreate2 \<Longrightarrow> o_dynamicGas oper = Some gasCreate2 \<Longrightarrow> operOk oper"
  by (rule operOk_call [of _ nothing], rule execOk_creates, rule execEnds_creates, rule charges_nothing,
      rule gas_effects, simp_all)+

lemma operOk_calls:
  "0 < o_constantGas oper \<Longrightarrow> o_execute oper = opCall \<Longrightarrow> o_dynamicGas oper = Some gasCall \<Longrightarrow> operOk oper"
  "0 < o_constantGas oper \<Longrightarrow> o_execute oper = opCallCode \<Longrightarrow> o_dynamicGas oper = Some gasCallCode \<Longrightarrow> operOk oper"
  "0 < o_constantGas oper \<Longrightarrow> o_execute oper = opDelegateCall \<Longrightarrow> o_dynamicGas oper = Some gasDelegateCall \<Longrightarrow> operOk oper"
  "0 < o_constantGas oper \<Longrightarrow> o_execute oper = opStaticCall \<Longrightarrow> o_dynamicGas oper = Some gasStaticCall \<Longrightarrow> operOk oper"
  by (rule operOk_call, rule execOk_opCall execOk_opCallCode execOk_opDelegateCall execOk_opStaticCall,
      rule execEnds_calls, rule charges_calls charges_valueCalls, simp_all)+

lemma operOk_gasPrice: "operOk oper \<Longrightarrow> 0 < g \<Longrightarrow> operOk (oper\<lparr>o_constantGas := g\<rparr>)"
  by (auto simp: operOk_def)

definition listOk :: "(byte \<times> operation) list \<Rightarrow> bool" where
  "listOk xs \<longleftrightarrow> (\<forall>oper \<in> snd ` set xs. operOk oper)"

lemma listOk_simps [simp]:
  "listOk []" "listOk ((k, oper) # xs) \<longleftrightarrow> operOk oper \<and> listOk xs" "listOk (xs @ ys) \<longleftrightarrow> listOk xs \<and> listOk ys"
  by (auto simp: listOk_def)

lemma operOk_stop: "operOk ((mkOp (plain opStop) 0 lo hi)\<lparr>o_halts := True\<rparr>)"
  unfolding operOk_def
  by (intro exI [of _ nothing]) (auto simp: mkOp_def execEnds_plain intro: execOk_plain plain_ops)

lemma tableOk_map_of: "listOk xs \<Longrightarrow> tableOk (map_of xs)"
  by (auto simp: listOk_def tableOk_def dest!: map_of_SomeD)

lemma tableOk_upd: "tableOk jt \<Longrightarrow> operOk oper \<Longrightarrow> tableOk (jt(k \<mapsto> oper))"
  by (auto simp: tableOk_def)

lemma tableOk_setOp:
  "tableOk jt \<Longrightarrow> (\<And>oper. jt k = Some oper \<Longrightarrow> operOk (g oper)) \<Longrightarrow> tableOk (setOp k g jt)"
  by (auto simp: tableOk_def setOp_def)

lemma tableOk_price: "tableOk jt \<Longrightarrow> 0 < g \<Longrightarrow> tableOk (setOp k (o_constantGas_update (\<lambda>_. g)) jt)"
  by (rule tableOk_setOp) (auto simp: tableOk_def intro: operOk_gasPrice)

lemma tableOk_frontier: "tableOk newFrontierInstructionSet"
proof -
  have "listOk (frontierArith @ frontierEnv @ frontierBlock @ frontierFlow @ frontierPush1 @ frontierPush2
     @ frontierDup @ frontierSwap @ frontierLog @ frontierSystem)"
    unfolding frontierArith_def frontierEnv_def frontierBlock_def frontierFlow_def frontierPush1_def
      frontierPush2_def frontierDup_def frontierSwap_def frontierLog_def frontierSystem_def
      listOk_simps append.simps
    by (intro conjI TrueI;
        (rule listOk_simps(1) operOk_stop
         | (rule operOk_plain, (simp add: mkOp_def; fail), simp add: mkOp_def, rule plain_ops, simp add: mkOp_def params)
         | (rule operOk_plain_gas, simp add: mkOp_def, simp add: mkOp_def, rule plain_ops, rule gas_effects,
            simp add: mkOp_def params chargesMore_table)
         | (rule operOk_calls operOk_creates; simp add: mkOp_def params)))
  then show ?thesis unfolding newFrontierInstructionSet_def by (rule tableOk_map_of)
qed

lemma tableOk_homestead: "tableOk newHomesteadInstructionSet"
  unfolding newHomesteadInstructionSet_def
  by (rule tableOk_upd [OF tableOk_frontier], rule operOk_calls(3)) (simp_all add: mkOp_def params)

lemma tableOk_tangerine: "tableOk newTangerineWhistleInstructionSet"
  unfolding newTangerineWhistleInstructionSet_def o_apply
  by (intro tableOk_price tableOk_homestead) (simp_all add: params)

lemma frontier_EXP: "newFrontierInstructionSet EXP =
   Some ((mkOp (plain opExp) 0 (minStack 2 1) (maxStack 2 1))\<lparr>o_dynamicGas := Some gasExpFrontier\<rparr>)"
  by (simp add: newFrontierInstructionSet_def frontierArith_def opcodes)

lemma tangerine_EXP: "newTangerineWhistleInstructionSet EXP =
   Some ((mkOp (plain opExp) 0 (minStack 2 1) (maxStack 2 1))\<lparr>o_dynamicGas := Some gasExpFrontier\<rparr>)"
  using frontier_EXP
  by (simp add: newTangerineWhistleInstructionSet_def newHomesteadInstructionSet_def setOp_def opcodes)

lemma tableOk_spurious: "tableOk newSpuriousDragonInstructionSet"
  unfolding newSpuriousDragonInstructionSet_def
proof (rule tableOk_setOp [OF tableOk_tangerine])
  fix oper assume "newTangerineWhistleInstructionSet EXP = Some oper"
  then have "oper = (mkOp (plain opExp) 0 (minStack 2 1) (maxStack 2 1))\<lparr>o_dynamicGas := Some gasExpFrontier\<rparr>"
    by (simp add: tangerine_EXP)
  then show "operOk (oper\<lparr>o_dynamicGas := Some gasExpEIP158\<rparr>)"
    by (intro operOk_plain_gas [of _ opExp gasExpEIP158] plain_ops gas_effects) (simp_all add: mkOp_def chargesMore_table)
qed

lemma tableOk_byzantium: "tableOk newByzantiumInstructionSet"
  unfolding newByzantiumInstructionSet_def
  by (intro tableOk_upd tableOk_spurious;
      ((rule operOk_plain, (simp add: mkOp_def; fail), simp add: mkOp_def, rule plain_ops, simp add: mkOp_def params)
       | (rule operOk_plain_gas, simp add: mkOp_def, simp add: mkOp_def, rule plain_ops, rule gas_effects,
          simp add: mkOp_def params)
       | (rule operOk_calls(4); simp add: mkOp_def params)))

lemma tableOk_constantinople: "tableOk newConstantinopleInstructionSet"
  unfolding newConstantinopleInstructionSet_def
  by (intro tableOk_upd tableOk_byzantium;
      ((rule operOk_plain, (simp add: mkOp_def; fail), simp add: mkOp_def, rule plain_ops, simp add: mkOp_def params)
       | (rule operOk_creates(2); simp add: mkOp_def params)))

lemma tableOk_enable1344: "tableOk jt \<Longrightarrow> tableOk (enable1344 jt)"
  unfolding enable1344_def
  by (erule tableOk_upd, rule operOk_plain, simp add: mkOp_def, simp add: mkOp_def, rule plain_ops, simp add: mkOp_def params)

lemma tableOk_enable1884: "tableOk jt \<Longrightarrow> tableOk (enable1884 jt)"
  unfolding enable1884_def o_apply
  by (intro tableOk_upd tableOk_price;
      (assumption | (rule operOk_plain, (simp add: mkOp_def; fail), simp add: mkOp_def, rule plain_ops, simp add: mkOp_def params)
       | simp add: params))

lemma tableOk_enable2315: "tableOk jt \<Longrightarrow> tableOk (enable2315 jt)"
  unfolding enable2315_def
  by (intro tableOk_upd;
      (assumption | (rule operOk_plain, (simp add: mkOp_def; fail), simp add: mkOp_def, rule plain_ops, simp add: mkOp_def params)))

text \<open>\<^verbatim>\<open>enable2200\<close> replaces the gas function of \<^verbatim>\<open>SSTORE\<close>, whose instruction must be the usual one.\<close>

definition plainSstore :: "JumpTable \<Rightarrow> bool" where
  "plainSstore jt \<longleftrightarrow> (\<forall>oper. jt SSTORE = Some oper \<longrightarrow> o_execute oper = plain opSstore)"

lemma tableOk_enable2200:
  assumes "tableOk jt" "plainSstore jt"
  shows "tableOk (enable2200 jt)"
proof -
  have "tableOk (setOp SSTORE (o_dynamicGas_update (\<lambda>_. Some gasSStoreEIP2200)) jt)"
    by (rule tableOk_setOp [OF assms(1)], rule operOk_plain_gas [of _ opSstore gasSStoreEIP2200])
      (use assms(2) in \<open>auto simp: plainSstore_def chargesMore_table intro: plain_ops gas_effects\<close>)
  then show ?thesis unfolding enable2200_def o_apply by (rule tableOk_price) (simp add: params)
qed

lemma frontier_SSTORE: "newFrontierInstructionSet SSTORE =
   Some ((mkOp (plain opSstore) 0 (minStack 2 0) (maxStack 2 0))\<lparr>o_dynamicGas := Some gasSStore, o_writes := True\<rparr>)"
  by (simp add: newFrontierInstructionSet_def frontierArith_def frontierEnv_def frontierBlock_def frontierFlow_def opcodes)

lemma plainSstore_enable:
  "plainSstore (enable1344 jt) = plainSstore jt" "plainSstore (enable1884 jt) = plainSstore jt"
  "plainSstore (enable2200 jt) = plainSstore jt" "plainSstore (enable2315 jt) = plainSstore jt"
  by (auto simp: plainSstore_def enable1344_def enable1884_def enable2200_def enable2315_def setOp_def opcodes)

lemma plainSstore_sets: "plainSstore (instructionSets k)"
proof -
  have f: "plainSstore newFrontierInstructionSet" by (simp add: plainSstore_def frontier_SSTORE mkOp_def)
  then have h: "plainSstore newHomesteadInstructionSet"
    by (simp add: plainSstore_def newHomesteadInstructionSet_def opcodes)
  then have t: "plainSstore newTangerineWhistleInstructionSet"
    by (simp add: plainSstore_def newTangerineWhistleInstructionSet_def setOp_def opcodes)
  then have d: "plainSstore newSpuriousDragonInstructionSet"
    by (simp add: plainSstore_def newSpuriousDragonInstructionSet_def setOp_def opcodes)
  then have b: "plainSstore newByzantiumInstructionSet"
    by (simp add: plainSstore_def newByzantiumInstructionSet_def opcodes)
  then have c: "plainSstore newConstantinopleInstructionSet"
    by (simp add: plainSstore_def newConstantinopleInstructionSet_def opcodes)
  then have i: "plainSstore newIstanbulInstructionSet"
    by (simp add: newIstanbulInstructionSet_def plainSstore_enable)
  then have "plainSstore newYoloV1InstructionSet" by (simp add: newYoloV1InstructionSet_def plainSstore_enable)
  with f h t d b c i show ?thesis by (cases k) simp_all
qed

lemma tableOk_sets: "tableOk (instructionSets k)"
proof -
  have c: "tableOk newConstantinopleInstructionSet" "plainSstore newConstantinopleInstructionSet"
    using tableOk_constantinople plainSstore_sets [of Constantinople] by simp_all
  then have i: "tableOk newIstanbulInstructionSet" unfolding newIstanbulInstructionSet_def
    by (intro tableOk_enable2200 tableOk_enable1884 tableOk_enable1344) (simp_all add: plainSstore_enable)
  then have "tableOk newYoloV1InstructionSet" unfolding newYoloV1InstructionSet_def by (rule tableOk_enable2315)
  with i c tableOk_frontier tableOk_homestead tableOk_tangerine tableOk_spurious tableOk_byzantium
  show ?thesis by (cases k) simp_all
qed

text \<open>Tables with extra EIPs.\<close>

lemma EnableEIP_ok: "EnableEIP e jt = Inr jt' \<Longrightarrow> tableOk jt \<Longrightarrow> plainSstore jt \<Longrightarrow> tableOk jt' \<and> plainSstore jt'"
  by (auto simp: EnableEIP_def plainSstore_enable split: if_splits
      intro: tableOk_enable1344 tableOk_enable1884 tableOk_enable2200 tableOk_enable2315)

lemma enableLoop_ok:
  "enableLoop n i k arr jt = Inr (eips, jt') \<Longrightarrow> tableOk jt \<Longrightarrow> plainSstore jt \<Longrightarrow> tableOk jt' \<and> plainSstore jt'"
  by (induction n arbitrary: i k arr jt)
    (auto split: sum.splits enableError.splits if_splits dest: EnableEIP_ok)

end
