(* ===== verification/EvmGasBound.thy ===== *)
theory EvmGasBound
  imports EvmTables
begin

text \<open>
  The accounting of one pass, and of whole runs: \<open>interp_ok\<close> bounds the gas that is left, \<open>interp_ends\<close>
  bounds the fuel that is needed.
\<close>

subsection \<open>One pass\<close>

definition stepOk :: "env \<Rightarrow> frame \<Rightarrow> evm \<Rightarrow> stepResult \<Rightarrow> bool" where
  "stepOk E f m r \<longleftrightarrow> (case r of
     Next f' m' \<Rightarrow> sameCode (contract f) (contract f') \<and> mEffect E m m'
       \<and> unat (c_Gas (contract f')) < unat (c_Gas (contract f))
   | Stop ret err f' m' \<Rightarrow> sameCode (contract f) (contract f') \<and> mEffect E m m'
       \<and> unat (c_Gas (contract f')) \<le> unat (c_Gas (contract f)))"

lemma UseGas_True: "UseGas g c = (True, c') \<Longrightarrow> c' = c\<lparr>c_Gas := c_Gas c - g\<rparr> \<and> unat (c_Gas c') + unat g = unat (c_Gas c)"
  by (auto simp: UseGas_def unat_sub not_less word_le_nat_alt split: if_splits)

lemma UseGas_False: "UseGas g c = (False, c') \<Longrightarrow> c' = c"
  by (auto simp: UseGas_def split: if_splits)

lemma gasEffect_mEffect: "gasEffect E mem m mem' m' \<Longrightarrow> mEffect E m m'"
  by (cases m; cases m') (auto simp: gasEffect_def mEffect_def)

lemma dynGasOf_ok:
  assumes "dynGasOf oper E f sz m = Inr (ok, f', m')"
    and gas: "case o_dynamicGas oper of None \<Rightarrow> gives = nothing | Some g \<Rightarrow> charges g gives"
  shows "sameCode (contract f) (contract f')" "mEffect E m m'" "stack f' = stack f" "steps f' = steps f"
    "store (memory f') = store (memory f)" "pc f' = pc f"
    "unat (c_Gas (contract f')) \<le> unat (c_Gas (contract f))"
    "ok \<Longrightarrow> unat (c_Gas (contract f')) + gives (stack f) m' \<le> unat (c_Gas (contract f))"
    "ok \<Longrightarrow> o_dynamicGas oper = Some g \<Longrightarrow> chargesMore g nothing \<Longrightarrow>
       unat (c_Gas (contract f')) < unat (c_Gas (contract f))"
proof -
  have "sameCode (contract f) (contract f') \<and> mEffect E m m' \<and> stack f' = stack f \<and> steps f' = steps f
    \<and> store (memory f') = store (memory f) \<and> pc f' = pc f
    \<and> unat (c_Gas (contract f')) \<le> unat (c_Gas (contract f))
    \<and> (ok \<longrightarrow> unat (c_Gas (contract f')) + gives (stack f) m' \<le> unat (c_Gas (contract f)))
    \<and> (ok \<longrightarrow> o_dynamicGas oper = Some g \<longrightarrow> chargesMore g nothing \<longrightarrow>
       unat (c_Gas (contract f')) < unat (c_Gas (contract f)))"
  proof (cases "o_dynamicGas oper")
    case None
    with assms show ?thesis by (auto simp: dynGasOf_def nothing_def)
  next
    case (Some gf)
    with assms(1) obtain mem r where gf: "gf E (contract f) (stack f) (memory f) sz m = Inr (mem, m', r)"
      and r: "case r of Inl e \<Rightarrow> \<not> ok \<and> f' = f\<lparr>memory := mem\<rparr>
        | Inr cost \<Rightarrow> (\<exists>c. UseGas cost (contract f) = (ok, c) \<and> f' = f\<lparr>memory := mem, contract := c\<rparr>)"
      by (fastforce simp: dynGasOf_def rbind_eq_Inr Let_def split: sum.splits prod.splits)
    have ch: "gasFuncOk gf" "\<And>cost. r = Inr cost \<Longrightarrow> gives (stack f) m' \<le> unat cost"
      using gas Some gf by (auto simp: charges_def)
    have e: "gasEffect E (memory f) m mem m'" using ch(1) gf unfolding gasFuncOk_def gOk_def by blast
    then have e': "mEffect E m m'" "store mem = store (memory f)" by (auto simp: gasEffect_mEffect gasEffect_def)
    show ?thesis
    proof (cases r)
      case (Inl x)
      with r e' show ?thesis by simp
    next
      case (Inr cost)
      with r obtain c where c: "UseGas cost (contract f) = (ok, c)" "f' = f\<lparr>memory := mem, contract := c\<rparr>" by auto
      have "0 < unat cost" if "o_dynamicGas oper = Some g" "chargesMore g nothing"
        using that Some gf Inr by (auto simp: chargesMore_def nothing_def)
      with c e' ch(2) [OF Inr] show ?thesis
        by (cases ok) (auto dest!: UseGas_True UseGas_False)
    qed
  qed
  then show "sameCode (contract f) (contract f')" "mEffect E m m'" "stack f' = stack f" "steps f' = steps f"
    "store (memory f') = store (memory f)" "pc f' = pc f"
    "unat (c_Gas (contract f')) \<le> unat (c_Gas (contract f))"
    "ok \<Longrightarrow> unat (c_Gas (contract f')) + gives (stack f) m' \<le> unat (c_Gas (contract f))"
    "ok \<Longrightarrow> o_dynamicGas oper = Some g \<Longrightarrow> chargesMore g nothing \<Longrightarrow>
       unat (c_Gas (contract f')) < unat (c_Gas (contract f))" by auto
qed

lemma mEffect_returnData [simp]: "mEffect E m (m'\<lparr>returnData := d\<rparr>) = mEffect E m m'"
  by (simp add: mEffect_def)

lemma afterExecute_ok:
  assumes "sameCode (contract f) (contract f')" "mEffect E m m'"
    "unat (c_Gas (contract f')) \<le> unat (c_Gas (contract f))"
    "o_halts oper \<or> o_reverts oper \<or> unat (c_Gas (contract f')) < unat (c_Gas (contract f))"
  shows "stepOk E f m (afterExecute oper (f', m', ret, err))"
  using assms by (auto simp: afterExecute_def stepOk_def Let_def split: option.split)

text \<open>The frame that the instruction is executed in.\<close>

lemma execOp_cases:
  assumes "execOp oper E run f m = Some (Inr r)"
  obtains (nogas) "r = Stop [] (Some ErrOutOfGas) f m"
  | (overflow) c e where "UseGas (o_constantGas oper) (contract f) = (True, c)"
      "r = Stop [] (Some e) (f\<lparr>contract := c\<rparr>) m"
  | (nodyn) c sz f1 m1 where "UseGas (o_constantGas oper) (contract f) = (True, c)"
      "dynGasOf oper E (f\<lparr>contract := c\<rparr>) sz m = Inr (False, f1, m1)" "r = Stop [] (Some ErrOutOfGas) f1 m1"
  | (exec) c sz f1 m1 f2 z where "UseGas (o_constantGas oper) (contract f) = (True, c)"
      "memSizeOf oper (stack f) = Inr (Inr sz)"
      "dynGasOf oper E (f\<lparr>contract := c\<rparr>) sz m = Inr (True, f1, m1)"
      "f2 = (if sz > 0 then f1\<lparr>memory := Resize sz (memory f1)\<rparr> else f1)"
      "o_execute oper E run f2 m1 = Some (Inr z)" "r = afterExecute oper z"
proof (cases "UseGas (o_constantGas oper) (contract f)")
  case (Pair ok c)
  show ?thesis
  proof (cases ok)
    case False
    with Pair assms nogas show ?thesis by (simp add: execOp_def)
  next
    case True
    with Pair assms obtain x where x: "memSizeOf oper (stack f) = Inr x"
      by (auto simp: execOp_def fbind_eq_Inr Let_def)
    show ?thesis
    proof (cases x)
      case (Inl e)
      with Pair True assms x have "r = Stop [] (Some e) (f\<lparr>contract := c\<rparr>) m" by (simp add: execOp_def)
      with overflow [of c e] Pair True show ?thesis by simp
    next
      case (Inr sz)
      with Pair True assms x obtain ok' f1 m1 where d: "dynGasOf oper E (f\<lparr>contract := c\<rparr>) sz m = Inr (ok', f1, m1)"
        by (auto simp: execOp_def fbind_eq_Inr)
      show ?thesis
      proof (cases ok')
        case False
        with Pair True assms x Inr d have "r = Stop [] (Some ErrOutOfGas) f1 m1" by (simp add: execOp_def)
        with nodyn [of c sz f1 m1] Pair True d False show ?thesis by simp
      next
        case t: True
        define f2 where "f2 = (if sz > 0 then f1\<lparr>memory := Resize sz (memory f1)\<rparr> else f1)"
        have "fbind (o_execute oper E run f2 m1) (\<lambda>r. Some (Inr (afterExecute oper r))) = Some (Inr r)"
          using Pair True assms x Inr d t by (simp add: execOp_def f2_def)
        then obtain z where "o_execute oper E run f2 m1 = Some (Inr z)" "r = afterExecute oper z"
          by (auto simp: fbind_eq_Inr)
        with exec [of c sz f1 m1 f2 z] Pair True x Inr d t f2_def show ?thesis by simp
      qed
    qed
  qed
qed

lemma execOp_ok:
  assumes "operOk oper" "runsOk E run" "execOp oper E run f m = Some (Inr r)"
  shows "stepOk E f m r"
  using assms(3)
proof (cases rule: execOp_cases)
  case nogas
  then show ?thesis by (simp add: stepOk_def)
next
  case (overflow c e)
  then show ?thesis by (auto simp: stepOk_def dest!: UseGas_True)
next
  case (nodyn c sz f1 m1)
  from assms(1) obtain gives where g: "case o_dynamicGas oper of None \<Rightarrow> gives = nothing | Some g \<Rightarrow> charges g gives"
    by (auto simp: operOk_def)
  from dynGasOf_ok(1,2,7) [OF nodyn(2) g] UseGas_True [OF nodyn(1)] nodyn(3) show ?thesis
    by (auto simp: stepOk_def intro: sameCode_trans)
next
  case (exec c sz f1 m1 f2 z)
  obtain f3 m3 ret err where z: "z = (f3, m3, ret, err)" by (cases z)
  from assms(1) obtain gives where g: "case o_dynamicGas oper of None \<Rightarrow> gives = nothing | Some g \<Rightarrow> charges g gives"
    and x: "execOk (o_execute oper) gives"
    and pos: "0 < o_constantGas oper \<or> gives = nothing \<and> (o_halts oper \<or> o_reverts oper
       \<or> (\<exists>g. o_dynamicGas oper = Some g \<and> chargesMore g nothing))"
    by (auto simp: operOk_def)
  note d = dynGasOf_ok [OF exec(3) g]
  have u: "c = (contract f)\<lparr>c_Gas := c_Gas (contract f) - o_constantGas oper\<rparr>"
    "unat (c_Gas c) + unat (o_constantGas oper) = unat (c_Gas (contract f))" using UseGas_True [OF exec(1)] by auto
  have f2: "contract f2 = contract f1" "stack f2 = stack f" "steps f2 = steps f1" using exec(4) d(3) by auto
  have e: "effect E f2 m1 f3 m3" "unat (c_Gas (contract f3)) \<le> unat (c_Gas (contract f2)) + gives (stack f2) m1"
    using x assms(2) exec(5) z unfolding execOk_def by blast+
  have "sameCode (contract f) (contract f3)"
    using d(1) e(1) f2(1) u(1) by (auto simp: effect_def intro: sameCode_trans)
  moreover have "mEffect E m m3" using d(2) e(1) by (auto simp: effect_def intro: mEffect_trans)
  moreover have "unat (c_Gas (contract f3)) \<le> unat (c_Gas c)" using e(2) d(8) f2 by simp
  moreover have "o_halts oper \<or> o_reverts oper \<or> unat (c_Gas (contract f3)) < unat (c_Gas (contract f))"
  proof (cases "0 < o_constantGas oper")
    case True
    then have "0 < unat (o_constantGas oper)" by (simp add: word_less_nat_alt)
    with u(2) \<open>unat (c_Gas (contract f3)) \<le> unat (c_Gas c)\<close> show ?thesis by linarith
  next
    case False
    with pos d(9) e(2) f2 u(2) show ?thesis by (fastforce simp: nothing_def)
  qed
  ultimately show ?thesis using afterExecute_ok [of f f3 E m m3 oper ret err] u(2) exec(6) z by simp
qed

lemma execOp_ends:
  assumes "operOk oper" "endsBelow run n" "unat (c_Gas (contract f)) \<le> n"
  shows "ends (execOp oper E run f m)"
proof -
  from assms(1) obtain gives where g: "case o_dynamicGas oper of None \<Rightarrow> gives = nothing | Some g \<Rightarrow> charges g gives"
    and x: "execEnds (o_execute oper) gives"
    and pos: "0 < o_constantGas oper \<or> (\<exists>op. o_execute oper = plain op)"
    by (auto simp: operOk_def)
  have "ends (o_execute oper E run f2 m1)"
    if c: "UseGas (o_constantGas oper) (contract f) = (True, c)"
      and d: "dynGasOf oper E (f\<lparr>contract := c\<rparr>) sz m = Inr (True, f1, m1)"
      and f2: "contract f2 = contract f1" "stack f2 = stack f1" for c sz f1 m1 f2
  proof (cases "0 < o_constantGas oper")
    case True
    then have "0 < unat (o_constantGas oper)" by (simp add: word_less_nat_alt)
    moreover have "unat (c_Gas c) + unat (o_constantGas oper) \<le> n" using UseGas_True [OF c, THEN conjunct2] assms(3) by linarith
    moreover have "unat (c_Gas (contract f2)) + gives (stack f2) m1 \<le> unat (c_Gas c)"
      using dynGasOf_ok(8) [OF d g] dynGasOf_ok(3) [OF d g] f2 by simp
    ultimately have "unat (c_Gas (contract f2)) + gives (stack f2) m1 < n" by linarith
    with x assms(2) show ?thesis unfolding execEnds_def by blast
  next
    case False
    with pos show ?thesis by (auto simp: plain_def)
  qed
  then show ?thesis unfolding execOp_def
    by (intro ends_if ends_Some ends_pair ends_case ends_let ends_fbind) (auto intro!: ends_fbind split: sum.split)
qed

lemma step_ok:
  assumes "tableOk jt" "runsOk E run" "step jt E run f m = Some (Inr r)"
  shows "stepOk E f m r"
proof -
  have d: "stepOk E f' m' r" if "dispatch jt E run f' m' = Some (Inr r)" for f' m'
    using that assms(1,2)
    by (auto simp: dispatch_def Let_def fbind_eq_Inr tableOk_def stepOk_def split: option.splits if_splits
        intro: execOp_ok [unfolded stepOk_def])
  show ?thesis
    using assms(3) d [of "f\<lparr>steps := steps f + 1\<rparr>" m] d [of "f\<lparr>steps := steps f + 1\<rparr>" "m\<lparr>abortLoads := abortLoads m + 1\<rparr>"]
    by (auto simp: step_def Let_def stepOk_def mEffect_def split: if_splits stepResult.splits)
qed

lemma step_ends:
  assumes "tableOk jt" "endsBelow run n" "unat (c_Gas (contract f)) \<le> n"
  shows "ends (step jt E run f m)"
proof -
  have "ends (dispatch jt E run f' m')" if "contract f' = contract f" for f' m'
    unfolding dispatch_def Let_def
    by (auto split: option.split intro!: ends_fbind execOp_ends [OF _ assms(2)])
      (use assms(1,3) that in \<open>auto simp: tableOk_def\<close>)
  then show ?thesis by (simp add: step_def Let_def)
qed

subsection \<open>Whole runs\<close>

lemma Run_runsOk:
  assumes "\<And>f m ret err f' m'. loop f m = Some (Inr (ret, err, f', m')) \<Longrightarrow>
     mEffect E m m' \<and> unat (c_Gas (contract f')) \<le> unat (c_Gas (contract f))"
  shows "runsOk E (Run loop)"
  unfolding runsOk_def
proof (intro allI impI)
  fix c input ro m ret err c' m'
  assume r: "Run loop c input ro m = Some (Inr (ret, err, c', m'))"
  show "unat (c_Gas c') \<le> unat (c_Gas c) \<and> mEffect E m m'"
  proof (cases "c_Code c = []")
    case True
    with r show ?thesis by (auto simp: Run_def Let_def mEffect_def split: if_splits)
  next
    case False
    define m3 where "m3 = (let m1 = m\<lparr>depth := depth m + 1\<rparr>;
       m2 = (if ro \<and> \<not> readOnly m1 then m1\<lparr>readOnly := True\<rparr> else m1) in m2\<lparr>returnData := []\<rparr>)"
    from r False obtain f1 m1 where l: "loop (initFrame c input) m3 = Some (Inr (ret, err, f1, m1))"
      "c' = contract f1" "m' = (let m' = m1\<lparr>depth := depth m1 - 1\<rparr> in
          if ro \<and> \<not> readOnly m then m'\<lparr>readOnly := False\<rparr> else m')"
      by (auto simp: Run_def Let_def fbind_eq_Inr m3_def split: if_splits)
    from assms [OF l(1)] l(2,3) show ?thesis
      by (auto simp: mEffect_def m3_def Let_def initFrame_def split: if_splits)
  qed
qed

lemma interp_ok:
  assumes "tableOk jt"
  shows "interp n jt E f m = Some (Inr (ret, err, f', m')) \<Longrightarrow>
    sameCode (contract f) (contract f') \<and> mEffect E m m' \<and> unat (c_Gas (contract f')) \<le> unat (c_Gas (contract f))"
proof (induction n arbitrary: f m ret err f' m')
  case (Suc n)
  have run: "runsOk E (Run (interp n jt E))" by (rule Run_runsOk) (use Suc.IH in blast)
  from Suc.prems obtain r where r: "step jt E (Run (interp n jt E)) f m = Some (Inr r)"
    and c: "(case r of Next f' m' \<Rightarrow> interp n jt E f' m' | Stop ret err f' m' \<Rightarrow> Some (Inr (ret, err, f', m')))
       = Some (Inr (ret, err, f', m'))"
    by (auto simp: fbind_eq_Inr)
  note s = step_ok [OF assms run r]
  show ?case
  proof (cases r)
    case (Next f1 m1)
    with Suc.IH [of f1 m1] s c show ?thesis
      by (auto simp: stepOk_def intro: sameCode_trans mEffect_trans)
  next
    case (Stop ret1 err1 f1 m1)
    with s c show ?thesis by (simp add: stepOk_def)
  qed
qed simp

lemma machine_runsOk: "tableOk jt \<Longrightarrow> runsOk E (machine n jt E)"
  unfolding machine_def by (rule Run_runsOk) (use interp_ok in blast)

lemma Run_ends:
  assumes "\<And>f m. unat (c_Gas (contract f)) < n \<Longrightarrow> ends (loop f m)"
  shows "endsBelow (Run loop) n"
proof -
  have "ends (Run loop c input ro m)" if "unat (c_Gas c) < n" for c input ro m
    unfolding Run_def
    by (intro ends_if ends_Some ends_let ends_fbind assms) (auto simp: initFrame_def that split: prod.split)
  then show ?thesis by (simp add: endsBelow_def ends_def)
qed

lemma interp_ends:
  assumes "tableOk jt"
  shows "unat (c_Gas (contract f)) < n \<Longrightarrow> ends (interp n jt E f m)"
proof (induction n arbitrary: f m)
  case (Suc n)
  have run: "endsBelow (Run (interp n jt E)) n"
    using Suc.IH by (rule Run_ends)
  have ok: "runsOk E (Run (interp n jt E))" by (rule Run_runsOk) (use interp_ok [OF assms] in blast)
  have "ends (case r of Next f' m' \<Rightarrow> interp n jt E f' m' | Stop ret err f' m' \<Rightarrow> Some (Inr (ret, err, f', m')))"
    if "step jt E (Run (interp n jt E)) f m = Some (Inr r)" for r
    using step_ok [OF assms ok that] Suc by (auto simp: stepOk_def split: stepResult.splits)
  with step_ends [OF assms run] Suc.prems show ?case by (auto intro!: ends_fbind)
qed simp

lemma machine_ends: "tableOk jt \<Longrightarrow> endsBelow (machine n jt E) n"
  unfolding machine_def by (rule Run_ends) (rule interp_ends)

end
