(* ===== verification/EvmRevert.thy ===== *)
theory EvmRevert
  imports EvmGasBound
begin

text \<open>
  A failed call leaves the world as it was. The contract of the state database
  (\<^verbatim>\<open>StateCalm\<close>) undoes the body of the call; what the call does before its snapshot only reads.
\<close>

definition soundState :: "env \<Rightarrow> evm \<Rightarrow> bool" where
  "soundState E m \<longleftrightarrow> hashInj (rdr E) \<and> reachable (rdr E) (statedb m)"

definition worldOf :: "env \<Rightarrow> evm \<Rightarrow> world" where
  "worldOf E m = absState (rdr E) (statedb m)"

definition failOk :: "env \<Rightarrow> evm \<Rightarrow> callResult \<Rightarrow> bool" where
  "failOk E m R \<longleftrightarrow> (\<forall>ret gas e m'. R = Some (Inr (ret, gas, Some e, m')) \<longrightarrow> worldOf E m' = worldOf E m)"

lemma soundState_mEffect: "soundState E m \<Longrightarrow> mEffect E m m' \<Longrightarrow> soundState E m'"
  by (auto simp: soundState_def mEffect_def intro: calm_reachable)

named_theorems fail_rules \<open>rules that follow the structure of a call\<close>

lemma failOk_stop [fail_rules]:
  "failOk E m (Some (Inr (r, g, None, m')))" "failOk E m (Some (Inr (r, g, e, m)))"
  by (simp_all add: failOk_def)

lemma failOk_if [fail_rules]: "(b \<Longrightarrow> failOk E m x) \<Longrightarrow> (\<not> b \<Longrightarrow> failOk E m y) \<Longrightarrow> failOk E m (if b then x else y)"
  by simp

lemma failOk_body:
  assumes "soundState E m" "query Snapshot m = (i, m1)" "mEffect E m1 m2" "callOk E m2 gas R"
  shows "failOk E m (fbind R (\<lambda>(ret, g, err, m'). endCall E i ret g err m'))"
  unfolding failOk_def
proof (intro allI impI)
  fix ret g e m'
  assume "fbind R (\<lambda>(ret, g, err, m'). endCall E i ret g err m') = Some (Inr (ret, g, Some e, m'))"
  then obtain r g1 err m3 where R: "R = Some (Inr (r, g1, err, m3))" and
    en: "endCall E i r g1 err m3 = Some (Inr (ret, g, Some e, m'))" by (auto simp: fbind_eq_Inr)
  have m3: "mEffect E m1 m3" using assms(3,4) R by (auto simp: callOk_def intro: mEffect_trans)
  from en have "revertTo E i m3 = Inr m'"
    by (auto simp: endCall_def fbind_eq_Inr split: if_splits)
  then have rv: "RevertToSnapshot (rdr E) i (statedb m3) = Some (statedb m')"
    by (auto simp: revertTo_def split: option.splits)
  have sn: "Snapshot (statedb m) = (i, statedb m1)" using assms(2) by (auto simp: query_eq)
  show "worldOf E m' = worldOf E m"
    using sdb.attempt_calmly(3) [of "rdr E" "statedb m" "statedb m3" True "statedb m'"] assms(1) m3 rv sn
    by (simp add: soundState_def mEffect_def worldOf_def)
qed

text \<open>Reverting at the end of a call always succeeds.\<close>

lemma endCall_total:
  assumes "soundState E m" "query Snapshot m = (i, m1)" "mEffect E m1 m2"
  shows "\<exists>m'. endCall E i ret g err m2 =
    Some (Inr (ret, if err \<noteq> None \<and> err \<noteq> Some ErrExecutionReverted then 0 else g, err, m'))"
proof -
  have sn: "Snapshot (statedb m) = (i, statedb m1)" using assms(2) by (auto simp: query_eq)
  obtain s where "RevertToSnapshot (rdr E) i (statedb m2) = Some s"
    using sdb.attempt_total [of "rdr E" "statedb m" "statedb m2"] assms(1,3) sn
    by (auto simp: soundState_def mEffect_def)
  then show ?thesis by (simp add: endCall_def revertTo_def)
qed

lemma failOk_bracket [fail_rules]:
  assumes "soundState E m" "\<And>i m1. query Snapshot m = (i, m1) \<Longrightarrow> callOk E m1 gas (R m1)"
  shows "failOk E m (Let (query Snapshot m)
     (\<lambda>(i, m1). fbind (R m1) (\<lambda>(ret, g, err, m2). endCall E i ret g err m2)))"
proof -
  obtain i m1 where sn: "query Snapshot m = (i, m1)" by fastforce
  with failOk_body [OF assms(1) sn mEffect_refl assms(2) [OF sn]] show ?thesis by simp
qed

lemma CanTransfer_quiet: "quiet rd s (snd (CanTransfer rd a x s))"
  using queries_quiet(3) [of rd s a] by (cases "GetBalance rd a s") (simp add: CanTransfer_def)

lemma failOk_CanTransfer [fail_rules]:
  assumes "soundState E m" "\<And>x m1. soundState E m1 \<Longrightarrow> failOk E m1 (k x m1)"
  shows "failOk E m (Let (query (CanTransfer (rdr E) a v) m) (\<lambda>(x, m1). k x m1))"
proof -
  obtain x m1 where q: "query (CanTransfer (rdr E) a v) m = (x, m1)" by fastforce
  have "worldOf E m1 = worldOf E m"
    using q CanTransfer_quiet [of "rdr E" "statedb m" a v] by (auto simp: query_eq worldOf_def quiet_def)
  moreover have "soundState E m1" by (rule soundState_mEffect [OF assms(1) mEffect_query [OF _ q]]) simp
  ultimately show ?thesis using q assms(2) [of m1 x] by (simp add: failOk_def)
qed

lemma DelegateCall_fail:
  assumes "runsOk E run" "soundState E m"
  shows "failOk E m (DelegateCall E run caller addr input gas m)"
  unfolding DelegateCall_def
  by (intro failOk_if failOk_stop failOk_bracket [where gas = gas, OF assms(2)]) (intro call_rules callOk_runCode [OF assms(1)] calm_rules; simp)

lemma StaticCall_fail:
  assumes "runsOk E run" "soundState E m"
  shows "failOk E m (StaticCall E run caller addr input gas m)"
proof -
  have "failOk E m (Let (query Snapshot m) (\<lambda>(snapshot, m1).
     fbind (let m2 = update (AddBalance (rdr E) addr 0) m1 in case precompile E addr of
             Some p \<Rightarrow> runPre E p input gas m2
           | None \<Rightarrow>
               let (c, m3) = NewContract caller addr 0 gas m2;
                   (h, m4) = query (GetCodeHash (rdr E) addr) m3;
                   (code, m5) = query (GetCodeBytes (rdr E) addr) m4
               in runCode run (SetCallCode addr h code c) input True m5)
           (\<lambda>(ret, gas, err, m). endCall E snapshot ret gas err m)))"
    by (intro failOk_bracket [where gas = gas, OF assms(2)] call_rules callOk_runCode [OF assms(1)] calm_rules) simp
  then show ?thesis unfolding StaticCall_def by (simp add: Let_def failOk_stop)
qed

lemma CallCode_fail:
  assumes "runsOk E run" "soundState E m"
  shows "failOk E m (CallCode E run caller addr input gas value m)"
  unfolding CallCode_def
  by (intro failOk_if failOk_stop failOk_CanTransfer [OF assms(2)] failOk_bracket [where gas = gas])
    (assumption | intro call_rules callOk_runCode [OF assms(1)] calm_rules; simp)+

lemma Call_fail:
  assumes "runsOk E run" "soundState E m"
  shows "failOk E m (Call E run caller addr input gas value m)"
proof -
  have rest: "failOk E m1
     (let (snapshot, m2) = query Snapshot m1;
              (exists, m3) = query (Exist (rdr E) addr) m2
          in if \<not> exists \<and> precompile E addr = None \<and> IsEIP158 (chainRules E) \<and> value = 0
             then Some (Inr (OwnBytes [], gas, None, m3))
             else
               let m4 = (if \<not> exists then update (CreateAccount (rdr E) addr) m3 else m3);
                   m5 = update (Transfer (rdr E) (refAddress caller) addr value) m4
               in fbind (callBody E run caller addr input gas value m5)
                    (\<lambda>(ret, gas, err, m). endCall E snapshot ret gas err m))" if "soundState E m1" for m1
  proof -
    obtain i m2 where sn: "query Snapshot m1 = (i, m2)" by fastforce
    obtain ex m3 where ex: "query (Exist (rdr E) addr) m2 = (ex, m3)" by fastforce
    from failOk_body [OF that sn mEffect_enter(2) [OF ex] callBody_ok [OF assms(1)]]
    show ?thesis by (simp add: sn ex Let_def failOk_stop)
  qed
  have can: "failOk E m (let (can, m1) = (if value \<noteq> 0 then query (CanTransfer (rdr E) (refAddress caller) value) m
                         else (True, m)) in k can m1)" if "\<And>m1 can. soundState E m1 \<Longrightarrow> failOk E m1 (k can m1)" for k
  proof (cases "value = 0")
    case False
    then show ?thesis using failOk_CanTransfer [OF assms(2)] that by simp
  qed (use that assms(2) in simp)
  show ?thesis unfolding Call_def by (intro failOk_if failOk_stop can rest)
qed

end
