(* ===== verification/StateStill.thy ===== *)
theory StateStill
  imports StateCalm
begin

text \<open>
  Runs that change nothing: every account keeps its data, code and storage, logs and refunds stay.
  Accounts that did not exist may come into being, with nothing in them. Queries are still, and so are
  the steps a call without value takes before it runs code.
\<close>

definition keepsWorld :: "world \<Rightarrow> world \<Rightarrow> bool" where
  "keepsWorld w w' \<longleftrightarrow>
     (\<forall>a v. liveView w a = Some v \<longrightarrow> liveView w' a = Some v)
     \<and> (\<forall>a. liveView w a = None \<longrightarrow> balOf w' a = 0 \<and> nonceOf w' a = 0 \<and> codeOf w' a = [])
     \<and> w_refund w' = w_refund w \<and> w_logs w' = w_logs w \<and> w_logSize w' = w_logSize w \<and> w_tx w' = w_tx w"

definition still :: "reader \<Rightarrow> StateDB \<Rightarrow> StateDB \<Rightarrow> bool" where
  "still rd s s' \<longleftrightarrow> calm rd s s'
     \<and> (hashInj rd \<and> reachable rd s \<longrightarrow> keepsWorld (absState rd s) (absState rd s'))"

lemma keepsWorld_refl [simp]: "keepsWorld w w"
  by (simp add: keepsWorld_def world_reads)

lemma keepsWorld_trans:
  assumes "keepsWorld u v" "keepsWorld v w"
  shows "keepsWorld u w"
proof -
  have "balOf w a = 0 \<and> nonceOf w a = 0 \<and> codeOf w a = []" if "liveView u a = None" for a
  proof (cases "liveView v a")
    case (Some x)
    with assms(2) have "liveView w a = Some x" by (simp add: keepsWorld_def)
    moreover have "balOf v a = 0 \<and> nonceOf v a = 0 \<and> codeOf v a = []" using assms(1) that by (simp add: keepsWorld_def)
    ultimately show ?thesis using Some by (simp add: world_reads)
  qed (use assms(2) in \<open>simp add: keepsWorld_def\<close>)
  with assms show ?thesis by (simp add: keepsWorld_def)
qed

lemma keepsWorld_reads:
  assumes "keepsWorld w w'"
  shows "balOf w' a = balOf w a" "nonceOf w' a = nonceOf w a" "codeOf w' a = codeOf w a"
    "liveView w a \<noteq> None \<Longrightarrow> slotOf w' a k = slotOf w a k"
  using assms by (cases "liveView w a"; simp add: keepsWorld_def world_reads)+

lemma still_refl [simp]: "still rd s s"
  by (simp add: still_def)

lemma still_trans: "still rd s t \<Longrightarrow> still rd t u \<Longrightarrow> still rd s u"
  unfolding still_def by (blast intro: calm_trans calm_reachable keepsWorld_trans)

lemma still_calm: "still rd s t \<Longrightarrow> calm rd s t"
  by (simp add: still_def)

lemma still_sameWorld: "calm rd s t \<Longrightarrow> (hashInj rd \<Longrightarrow> reachable rd s \<Longrightarrow> absState rd t = absState rd s) \<Longrightarrow> still rd s t"
  by (auto simp: still_def)

lemma reachable_objectsOk: "reachable rd s \<Longrightarrow> hashInj rd \<Longrightarrow> objectsOk rd s"
  using reachable_histInv by (auto simp: histInv_def)

lemma still_queries [simp, intro]:
  "still rd s (snd (Exist rd a s))" "still rd s (snd (Empty rd a s))" "still rd s (snd (GetBalance rd a s))"
  "still rd s (snd (GetNonce rd a s))" "still rd s (snd (GetCode rd a s))"
  "still rd s (snd (GetCodeSize rd a s))" "still rd s (snd (GetCodeHash rd a s))"
  "still rd s (snd (HasSuicided rd a s))" "still rd s (snd (GetState rd a k s))"
  "still rd s (snd (GetCommittedState rd a k s))" "still rd s (snd (CanTransfer rd a x s))"
  "still rd s (snd (Snapshot s))"
proof -
  have still: "still rd s t" if "calm rd s t" "hashInj rd \<Longrightarrow> reachable rd s \<Longrightarrow> quiet rd s t" for t
    using that by (auto intro: still_sameWorld simp: quiet_def)
  show "still rd s (snd (Exist rd a s))" "still rd s (snd (Empty rd a s))"
    "still rd s (snd (GetNonce rd a s))" "still rd s (snd (GetCode rd a s))"
    "still rd s (snd (GetCodeSize rd a s))" "still rd s (snd (GetCodeHash rd a s))"
    "still rd s (snd (HasSuicided rd a s))" "still rd s (snd (GetState rd a k s))"
    "still rd s (snd (GetCommittedState rd a k s))"
    by (rule still, simp, (rule queries_quiet | (rule caching_queries_quiet, rule reachable_objectsOk, assumption+)))+
  show "still rd s (snd (GetBalance rd a s))" by (rule still, simp, rule queries_quiet)
  then have "still rd s (snd (GetBalance rd a s))" by simp
  then show "still rd s (snd (CanTransfer rd a x s))" by (cases "GetBalance rd a s") (simp add: CanTransfer_def)
  show "still rd s (snd (Snapshot s))" 
    by (rule still_sameWorld, simp) (simp add: Snapshot_def Let_def)
qed

lemma still_AddPreimage [simp, intro]: "still rd s (AddPreimage h p s)"
proof -
  have "absState rd (t\<lparr>preimages := q\<rparr>) = (absState rd t)\<lparr>w_preimages := q\<rparr>" for t q
    by (simp add: absState_def peekObj_def fun_eq_iff split: option.split sum.split)
  then have "\<exists>q. absState rd (AddPreimage h p s) = (absState rd s)\<lparr>w_preimages := q\<rparr>"
    by (auto simp: AddPreimage_def Let_def intro: exI [of _ "w_preimages (absState rd s)"])
  moreover have "keepsWorld w (w\<lparr>w_preimages := q\<rparr>)" for w :: world and q
    by (simp add: keepsWorld_def world_reads liveView_def)
  ultimately show ?thesis unfolding still_def by (metis calm_updates(9))
qed

text \<open>An account that comes into being is empty, and no other changes.\<close>

lemma createObject_fields:
  assumes "createObject rd a s = (n, p, s')"
  shows "w_refund (absState rd s') = w_refund (absState rd s)" "w_logs (absState rd s') = w_logs (absState rd s)"
    "w_logSize (absState rd s') = w_logSize (absState rd s)" "w_tx (absState rd s') = w_tx (absState rd s)"
proof -
  define same where "same t \<longleftrightarrow> refund t = refund s' \<and> logs t = logs s' \<and> logSize t = logSize s'
    \<and> thash t = thash s' \<and> bhash t = bhash s' \<and> txIndex t = txIndex s'" for t :: StateDB
  from assms obtain s1 where "quiet rd s s1" "same s1"
    by (cases rule: createObject_cases) (auto simp: same_def record_change_def setStateObject_def)
  then have "absState rd s = absState rd s1" "same s1" by (simp_all add: quiet_def)
  then show "w_refund (absState rd s') = w_refund (absState rd s)" "w_logs (absState rd s') = w_logs (absState rd s)"
    "w_logSize (absState rd s') = w_logSize (absState rd s)" "w_tx (absState rd s') = w_tx (absState rd s)"
    by (simp_all add: same_def absState_def)
qed

lemma viewObj_fresh: "Balance (av_data (viewObj rd s (freshObj rd a))) = 0"
  "Nonce (av_data (viewObj rd s (freshObj rd a))) = 0" "av_code (viewObj rd s (freshObj rd a)) = []"
  by (simp_all add: viewObj_def CodeObj_def freshObj_def newObject_def setNonceObj_def zeroAccount_def)

lemma createObject_keeps:
  assumes "createObject rd a s = (n, p, s')" "objectsOk rd s" "hashInj rd" "liveView (absState rd s) a = None"
  shows "keepsWorld (absState rd s) (absState rd s')"
proof -
  note c = createObject_changes [OF assms(1-3)]
  have "liveView (absState rd s') a = Some (viewObj rd s' (freshObj rd a))"
    using c(2,3) by (simp add: liveView_def absState_def)
  then have "balOf (absState rd s') a = 0" "nonceOf (absState rd s') a = 0" "codeOf (absState rd s') a = []"
    by (simp_all add: world_reads viewObj_fresh)
  moreover have "liveView (absState rd s') b = liveView (absState rd s) b" if "b \<noteq> a" for b
    by (rule createObject_world [OF assms(1-3) that])
  ultimately have "balOf (absState rd s') b = 0 \<and> nonceOf (absState rd s') b = 0 \<and> codeOf (absState rd s') b = []"
    if "liveView (absState rd s) b = None" for b
    using that by (cases "b = a") (simp_all add: world_reads)
  moreover have "liveView (absState rd s') b = Some v" if "liveView (absState rd s) b = Some v" for b v
    using that assms(4) createObject_world [OF assms(1-3), of b] by (cases "b = a") simp_all
  ultimately show ?thesis unfolding keepsWorld_def using createObject_fields [OF assms(1)] by blast
qed

lemma GetOrNew_keeps:
  assumes "GetOrNewStateObject rd a s = (o1, s')" "objectsOk rd s" "hashInj rd"
  shows "keepsWorld (absState rd s) (absState rd s')"
proof -
  obtain r t where g: "getStateObject rd a s = (r, t)" by (cases "getStateObject rd a s")
  note gs = getStateObject_spec [OF g]
  have t: "absState rd t = absState rd s" "objectsOk rd t" using gs(2) assms(2) by (auto simp: quiet_def)
  obtain n p u where c: "createObject rd a t = (n, p, u)" by (cases "createObject rd a t") auto
  show ?thesis
  proof (cases r)
    case None
    then have "liveView (absState rd t) a = None" using gs(1) t(1) by (simp add: liveView_absState)
    from createObject_keeps [OF c t(2) assms(3) this] assms(1) g c None t(1) show ?thesis
      by (simp add: GetOrNewStateObject_def)
  next
    case (Some o2)
    then show ?thesis using assms(1) g t(1) by (simp add: GetOrNewStateObject_def)
  qed
qed

lemma still_touches [simp, intro]:
  "still rd s (AddBalance rd a 0 s)" "still rd s (SubBalance rd a 0 s)" "still rd s (Transfer rd a b 0 s)"
proof -
  have "keepsWorld (absState rd s) (absState rd (AddBalance rd a 0 s))"
    "keepsWorld (absState rd s) (absState rd (SubBalance rd a 0 s))" if "hashInj rd" "reachable rd s" for a s
  proof -
    obtain o1 s' where g: "GetOrNewStateObject rd a s = (o1, s')" by (cases "GetOrNewStateObject rd a s")
    from GetOrNew_keeps [OF g reachable_objectsOk [OF that(2,1)] that(1)] g
    show "keepsWorld (absState rd s) (absState rd (AddBalance rd a 0 s))"
      "keepsWorld (absState rd s) (absState rd (SubBalance rd a 0 s))"
      by (simp_all add: AddBalance_def SubBalance_def)
  qed
  then have *: "still rd s (AddBalance rd a 0 s)" "still rd s (SubBalance rd a 0 s)" for a s
    by (simp_all add: still_def)
  then show "still rd s (AddBalance rd a 0 s)" "still rd s (SubBalance rd a 0 s)" by simp_all
  show "still rd s (Transfer rd a b 0 s)" unfolding Transfer_def using * by (blast intro: still_trans)
qed

lemma still_CreateAccount: "\<not> fst (Exist rd a s) \<Longrightarrow> still rd (snd (Exist rd a s)) (CreateAccount rd a (snd (Exist rd a s)))"
proof -
  assume no: "\<not> fst (Exist rd a s)"
  let ?s = "snd (Exist rd a s)"
  have live: "liveView (absState rd ?s) a = None"
    using no queries_quiet(1) [of rd s a] by (simp add: Exist_world quiet_def)
  have "keepsWorld (absState rd ?s) (absState rd (CreateAccount rd a ?s))" if "hashInj rd" "reachable rd ?s"
  proof -
    obtain n p u where c: "createObject rd a ?s = (n, p, u)" by (cases "createObject rd a ?s") auto
    have "p = None" using createObject_changes(4) [OF c reachable_objectsOk [OF that(2,1)] that(1)] live
      by (simp add: liveView_absState)
    with createObject_keeps [OF c reachable_objectsOk [OF that(2,1)] that(1) live] c show ?thesis
      by (simp add: CreateAccount_def)
  qed
  then show ?thesis by (simp add: still_def)
qed

end
