(* ===== verification/EvmStatic.thy ===== *)
theory EvmStatic
  imports EvmRevert StateStill
begin

text \<open>
  Static calls change nothing. In write-protected mode the loop lets only instructions run that are
  \<open>still\<close>: the plain ones that read, and the calls that carry no value, whose callees are
  write-protected themselves.
\<close>

definition stills :: "env \<Rightarrow> evm \<Rightarrow> evm \<Rightarrow> bool" where
  "stills E m m' \<longleftrightarrow> readOnly m' = readOnly m \<and> still (rdr E) (statedb m) (statedb m')"

definition runsStill :: "env \<Rightarrow> runner \<Rightarrow> bool" where
  "runsStill E run \<longleftrightarrow> (\<forall>c input ro m ret err c' m'. run c input ro m = Some (Inr (ret, err, c', m')) \<longrightarrow>
     ro \<or> readOnly m \<longrightarrow> stills E m m')"

definition callStill :: "env \<Rightarrow> bool \<Rightarrow> evm \<Rightarrow> callResult \<Rightarrow> bool" where
  "callStill E ro m R \<longleftrightarrow> (ro \<or> readOnly m \<longrightarrow>
     (\<forall>ret gas err m'. R = Some (Inr (ret, gas, err, m')) \<longrightarrow> stills E m m'))"

lemma stills_refl [simp]: "stills E m m"
  by (simp add: stills_def)

lemma stills_trans: "stills E m m1 \<Longrightarrow> stills E m1 m2 \<Longrightarrow> stills E m m2"
  by (auto simp: stills_def intro: still_trans)

lemma stills_query: "still (rdr E) (statedb m) (snd (q (statedb m))) \<Longrightarrow> query q m = (x, m') \<Longrightarrow> stills E m m'"
  by (auto simp: query_eq stills_def)

lemma stills_update: "still (rdr E) (statedb m) (g (statedb m)) \<Longrightarrow> stills E m (update g m)"
  by (auto simp: update_def stills_def)

lemma still_GetCodeBytes [simp]: "still rd s (snd (GetCodeBytes rd a s))"
  using still_queries(5) [of rd s a] by (cases "GetCode rd a s") (simp add: GetCodeBytes_def)

subsection \<open>Calls\<close>

named_theorems still_rules \<open>rules that follow the structure of a call\<close>

lemma callStill_mono: "callStill E ro m1 R \<Longrightarrow> stills E m m1 \<Longrightarrow> callStill E ro m R"
  using stills_trans [of E m m1] by (fastforce simp: callStill_def stills_def)

lemma callStill_if [still_rules]:
  "(b \<Longrightarrow> callStill E ro m x) \<Longrightarrow> (\<not> b \<Longrightarrow> callStill E ro m y) \<Longrightarrow> callStill E ro m (if b then x else y)"
  by simp

lemma callStill_stop [still_rules]: "callStill E ro m (Some (Inr (r, g, e, m)))"
  by (simp add: callStill_def)

lemma callStill_query [still_rules]:
  assumes "\<And>s. still (rdr E) s (snd (q s))" "\<And>x m1. query q m = (x, m1) \<Longrightarrow> callStill E ro m1 (k x m1)"
  shows "callStill E ro m (Let (query q m) (\<lambda>(x, m1). k x m1))"
proof -
  obtain x m1 where q: "query q m = (x, m1)" by fastforce
  then show ?thesis using callStill_mono [OF assms(2) [OF q] stills_query [OF assms(1) q]] by simp
qed

lemma callStill_update [still_rules]:
  assumes "\<And>s. still (rdr E) s (g s)" "callStill E ro (update g m) (k (update g m))"
  shows "callStill E ro m (Let (update g m) k)"
  using callStill_mono [OF assms(2) stills_update [of E m g, OF assms(1)]] by simp

lemma stills_NewContract: "NewContract caller a v g m = (c, m') \<Longrightarrow> stills E m m'"
  by (auto simp: NewContract_def stills_def split: ContractRef.splits)

lemma callStill_NewContract [still_rules]:
  assumes "\<And>c m1. callStill E ro m1 (k c m1)"
  shows "callStill E ro m (Let (NewContract cl a v g m) (\<lambda>(c, m1). k c m1))"
proof -
  obtain c m1 where c: "NewContract cl a v g m = (c, m1)" by fastforce
  with stills_NewContract [OF c, of E] show ?thesis by (auto intro: callStill_mono assms)
qed

lemma callStill_runPre: "callStill E ro m (runPre E p input gas m)"
  by (auto simp: callStill_def runPre_def fbind_eq_Inr)

lemma callStill_precompile [still_rules]:
  "callStill E ro m R \<Longrightarrow> callStill E ro m (case p of Some p \<Rightarrow> runPre E p input gas m | None \<Rightarrow> R)"
  by (simp add: callStill_runPre split: option.split)

lemma callStill_AsDelegate [still_rules]:
  "(\<And>c'. callStill E ro m (k c')) \<Longrightarrow> callStill E ro m (fbind (Some (AsDelegate c)) k)"
  by (cases "AsDelegate c") (auto simp: callStill_def)

lemma callStill_runCode: "runsStill E run \<Longrightarrow> callStill E ro m (runCode run c input ro m)"
  by (auto simp: callStill_def runCode_def fbind_eq_Inr runsStill_def)

lemma callStill_endCall:
  assumes "query Snapshot m = (i, m1)" "callStill E ro m1 R"
  shows "callStill E ro m (fbind R (\<lambda>(ret, g, err, m2). endCall E i ret g err m2))"
  unfolding callStill_def
proof (intro impI allI)
  fix ret g err m'
  assume ro: "ro \<or> readOnly m" and R: "fbind R (\<lambda>(ret, g, err, m2). endCall E i ret g err m2) = Some (Inr (ret, g, err, m'))"
  have sn: "Snapshot (statedb m) = (i, statedb m1)" "readOnly m1 = readOnly m" using assms(1) by (auto simp: query_eq)
  from R obtain r0 g1 err0 m2 where r: "R = Some (Inr (r0, g1, err0, m2))"
    and en: "endCall E i r0 g1 err0 m2 = Some (Inr (ret, g, err, m'))"
    by (auto simp: fbind_eq_Inr)
  have s2: "stills E m1 m2" using assms(2) r ro sn(2) by (auto simp: callStill_def)
  have s1: "stills E m m1" by (rule stills_query [OF _ assms(1)]) simp
  show "stills E m m'"
  proof (cases "err0 = None")
    case True
    with en have "m' = m2" by (simp add: endCall_def)
    with stills_trans [OF s1 s2] show ?thesis by simp
  next
    case False
    with en have "revertTo E i m2 = Inr m'" by (auto simp: endCall_def fbind_eq_Inr)
    then have rv: "RevertToSnapshot (rdr E) i (statedb m2) = Some (statedb m')" and "readOnly m' = readOnly m2"
      by (auto simp: revertTo_def split: option.splits)
    have c: "calm (rdr E) (statedb m1) (statedb m2)" using s2 by (simp add: stills_def still_calm)
    have "still (rdr E) (statedb m) (statedb m')"
      by (rule still_sameWorld [OF calm_undone [OF sn(1) c rv]])
        (use sdb.attempt_calmly(3) [of "rdr E" "statedb m" "statedb m2" True "statedb m'"] c rv sn in simp)
    then show ?thesis using s1 s2 \<open>readOnly m' = readOnly m2\<close> by (simp add: stills_def)
  qed
qed

lemma callStill_bracket [still_rules]:
  assumes "\<And>i m1. query Snapshot m = (i, m1) \<Longrightarrow> callStill E ro m1 (R m1)"
  shows "callStill E ro m (Let (query Snapshot m)
     (\<lambda>(i, m1). fbind (R m1) (\<lambda>(ret, g, err, m2). endCall E i ret g err m2)))"
proof -
  obtain i m1 where sn: "query Snapshot m = (i, m1)" by fastforce
  with callStill_endCall [OF sn assms [OF sn]] show ?thesis by simp
qed

lemma DelegateCall_still: "runsStill E run \<Longrightarrow> callStill E False m (DelegateCall E run caller addr input gas m)"
  unfolding DelegateCall_def by (intro still_rules callStill_runCode still_queries still_GetCodeBytes)

lemma CallCode_still: "runsStill E run \<Longrightarrow> callStill E False m (CallCode E run caller addr input gas value m)"
  unfolding CallCode_def by (intro still_rules callStill_runCode still_queries still_GetCodeBytes)

lemma StaticCall_still:
  assumes "runsStill E run"
  shows "callStill E True m (StaticCall E run caller addr input gas m)"
proof -
  have "callStill E True m (Let (query Snapshot m) (\<lambda>(snapshot, m1).
     fbind (let m2 = update (AddBalance (rdr E) addr 0) m1 in case precompile E addr of
             Some p \<Rightarrow> runPre E p input gas m2
           | None \<Rightarrow>
               let (c, m3) = NewContract caller addr 0 gas m2;
                   (h, m4) = query (GetCodeHash (rdr E) addr) m3;
                   (code, m5) = query (GetCodeBytes (rdr E) addr) m4
               in runCode run (SetCallCode addr h code c) input True m5)
           (\<lambda>(ret, gas, err, m). endCall E snapshot ret gas err m)))"
    by (intro still_rules callStill_runCode [OF assms] still_queries still_touches still_GetCodeBytes)
  then show ?thesis unfolding StaticCall_def by (simp add: Let_def callStill_stop)
qed

lemma callStill_weaken: "callStill E True m R \<Longrightarrow> callStill E False m R"
  by (simp add: callStill_def)

lemma stills_enter:
  assumes "query (Exist (rdr E) addr) m2 = (ex, m3)"
  shows "stills E m2 m3"
    "stills E m2 (update (Transfer (rdr E) a addr 0) (if \<not> ex then update (CreateAccount (rdr E) addr) m3 else m3))"
    (is "stills E m2 (update ?t ?m4)")
proof -
  show e3: "stills E m2 m3" by (rule stills_query [OF _ assms]) simp
  have "stills E m3 ?m4"
    using assms still_CreateAccount [of "rdr E" addr "statedb m2"] by (auto simp: query_eq stills_def update_def)
  moreover have "stills E ?m4 (update ?t ?m4)" by (rule stills_update) simp
  ultimately show "stills E m2 (update ?t ?m4)" using e3 by (blast intro: stills_trans)
qed

lemma callBody_still:
  "runsStill E run \<Longrightarrow> callStill E False m (callBody E run caller addr input gas value m)"
  unfolding callBody_def by (intro still_rules callStill_runCode still_queries still_GetCodeBytes)

lemma Call_still:
  assumes "runsStill E run"
  shows "callStill E False m (Call E run caller addr input gas 0 m)"
proof -
  obtain i m2 where sn: "query Snapshot m = (i, m2)" by fastforce
  obtain ex m3 where ex: "query (Exist (rdr E) addr) m2 = (ex, m3)" by fastforce
  have "stills E m m3"
    using stills_trans [OF stills_query [OF _ sn] stills_enter(1) [OF ex]] by simp
  then have "callStill E False m (Some (Inr (OwnBytes [], gas, None, m3)))" by (simp add: callStill_def)
  moreover from callStill_endCall [OF sn callStill_mono [OF callBody_still [OF assms] stills_enter(2) [OF ex]]]
  have "callStill E False m (fbind (callBody E run caller addr input gas 0
     (update (Transfer (rdr E) (refAddress caller) addr 0) (if \<not> ex then update (CreateAccount (rdr E) addr) m3 else m3)))
     (\<lambda>(ret, g, err, m2). endCall E i ret g err m2))" .
  ultimately show ?thesis by (simp add: Call_def sn ex Let_def callStill_stop)
qed

subsection \<open>Instructions\<close>

definition plainStill :: "plainFunc \<Rightarrow> bool" where
  "plainStill op \<longleftrightarrow> (\<forall>E f m f' m' ret err. op E f m = Inr (f', m', ret, err) \<longrightarrow> stills E m m')"

named_theorems plain_stills \<open>plain instructions that write nothing\<close>

lemma plainStill_simple:
  "plainStill (\<lambda>E. unOp (g1 E))" "plainStill (\<lambda>E. binOp (g2 E))" "plainStill (\<lambda>E. triOp (g3 E))"
  "plainStill (\<lambda>E f m. pushWord (w E f m) f m)"
  by (auto simp: plainStill_def unOp_def binOp_def triOp_def pushWord_def proceed_def split: list.splits)

lemma plainStill_arith [plain_stills]:
  "plainStill opAdd" "plainStill opSub" "plainStill opMul" "plainStill opDiv" "plainStill opSdiv" "plainStill opMod"
  "plainStill opSmod" "plainStill opExp" "plainStill opSignExtend" "plainStill opNot" "plainStill opLt"
  "plainStill opGt" "plainStill opSlt" "plainStill opSgt" "plainStill opEq" "plainStill opIszero" "plainStill opAnd"
  "plainStill opOr" "plainStill opXor" "plainStill opByte" "plainStill opAddmod" "plainStill opMulmod"
  "plainStill opSHL" "plainStill opSHR" "plainStill opSAR" "plainStill opBlockhash"
  unfolding opAdd_def opSub_def opMul_def opDiv_def opSdiv_def opMod_def opSmod_def opExp_def
    opSignExtend_def opNot_def opLt_def opGt_def opSlt_def opSgt_def opEq_def opIszero_def opAnd_def
    opOr_def opXor_def opByte_def opAddmod_def opMulmod_def opSHL_def opSHR_def opSAR_def opBlockhash_def
  by (rule plainStill_simple)+

lemma plainStill_push [plain_stills]:
  "plainStill opAddress" "plainStill opOrigin" "plainStill opCaller" "plainStill opCallValue"
  "plainStill opCallDataSize" "plainStill opReturnDataSize" "plainStill opCodeSize" "plainStill opGasprice"
  "plainStill opCoinbase" "plainStill opTimestamp" "plainStill opNumber" "plainStill opDifficulty"
  "plainStill opGasLimit" "plainStill opChainID" "plainStill opPc" "plainStill opMsize" "plainStill opGas"
  by (auto simp: plainStill_def pushWord_def proceed_def opAddress_def opOrigin_def opCaller_def opCallValue_def
      opCallDataSize_def opReturnDataSize_def opCodeSize_def opGasprice_def opCoinbase_def
      opTimestamp_def opNumber_def opDifficulty_def opGasLimit_def opChainID_def opPc_def opMsize_def opGas_def)

lemma plainStill_onAddress:
  assumes "\<And>E a s. still (rdr E) s (snd (q E a s))"
  shows "plainStill (\<lambda>E. onAddress (q E))"
  using assms by (auto simp: plainStill_def onAddress_def proceed_def Let_def split: list.splits prod.splits intro: stills_query)

lemma plainStill_account [plain_stills]:
  "plainStill opBalance" "plainStill opExtCodeSize" "plainStill opExtCodeHash" "plainStill opSelfBalance"
proof -
  have "still rd s (snd (let (b, s') = GetBalance rd a s in (of_int b, s')))" for rd a s
    using still_queries(3) [of rd s a] by (cases "GetBalance rd a s") simp
  then show "plainStill opBalance" unfolding opBalance_def by (rule plainStill_onAddress)
  have "still rd s (snd (let (n, s') = GetCodeSize rd a s in (ucast (of_nat n :: u64), s')))" for rd a s
    using still_queries(6) [of rd s a] by (cases "GetCodeSize rd a s") simp
  then show "plainStill opExtCodeSize" unfolding opExtCodeSize_def by (rule plainStill_onAddress)
  have "still rd s (snd (let (e, s') = Empty rd a s in if e then (0, s') else GetCodeHash rd a s'))" for rd a s
    using still_queries(2) [of rd s a] still_queries(7) [of rd "snd (Empty rd a s)" a]
    by (cases "Empty rd a s") (auto intro: still_trans)
  then show "plainStill opExtCodeHash" unfolding opExtCodeHash_def by (rule plainStill_onAddress)
  show "plainStill opSelfBalance"
    by (auto simp: plainStill_def opSelfBalance_def pushWord_def proceed_def split: prod.splits intro: stills_query)
qed

lemma plainStill_memory [plain_stills]:
  "plainStill opSha3" "plainStill opCallDataLoad" "plainStill opCallDataCopy" "plainStill opReturnDataCopy"
  "plainStill opCodeCopy" "plainStill opExtCodeCopy" "plainStill opMload" "plainStill opMstore" "plainStill opMstore8"
  "plainStill opReturn" "plainStill opRevert"
  by (auto simp: plainStill_def opSha3_def opCallDataLoad_def opCallDataCopy_def opReturnDataCopy_def
      opCodeCopy_def opExtCodeCopy_def opMload_def opMstore_def opMstore8_def opReturn_def opRevert_def
      copyToMemory_def proceed_def fails_def Let_def rbind_eq_Inr stills_def query_eq update_def
      split: list.splits if_splits prod.splits)

lemma plainStill_flow [plain_stills]:
  "plainStill opPop" "plainStill opSload" "plainStill opJump" "plainStill opJumpi"
  "plainStill opJumpdest" "plainStill opBeginSub" "plainStill opJumpSub" "plainStill opReturnSub"
  "plainStill opPush1" "plainStill opStop"
  by (auto simp: plainStill_def opPop_def opSload_def opJump_def opJumpi_def opJumpdest_def
      opBeginSub_def opJumpSub_def opReturnSub_def opPush1_def opStop_def pushWord_def proceed_def fails_def
      Let_def rbind_eq_Inr stills_def query_eq update_def split: list.splits if_splits prod.splits
      dest!: validJumpdest_effect validJumpSubdest_effect)

lemma plainStill_make [plain_stills]:
  "plainStill (makePush n k)" "plainStill (makeDup d)" "plainStill (makeSwap d)"
  by (auto simp: plainStill_def makePush_def makeDup_def makeSwap_def pushWord_def proceed_def
      Let_def rbind_eq_Inr split: list.splits if_splits)

subsection \<open>Gas functions\<close>

definition gStill :: "env \<Rightarrow> evm \<Rightarrow> 'a gasResult \<Rightarrow> bool" where
  "gStill E m R \<longleftrightarrow> (\<forall>mem' m' r. R = Inr (mem', m', r) \<longrightarrow> stills E m m')"

definition gasStill :: "gasFunc \<Rightarrow> bool" where
  "gasStill g \<longleftrightarrow> (\<forall>E c st mem sz m. gStill E m (g E c st mem sz m))"

named_theorems gas_stills \<open>gas functions that write nothing\<close>

lemma gStill_bind:
  assumes "gStill E m r" "\<And>x mem1 m1. gStill E m1 (k x mem1 m1)"
  shows "gStill E m (gbind r k)"
proof (cases r)
  case (Inr x)
  obtain mem1 m1 y where x: "x = (mem1, m1, y)" by (cases x)
  with assms(1) Inr have "stills E m m1" by (simp add: gStill_def)
  then have "stills E m m2" if "stills E m1 m2" for m2 using that by (rule stills_trans)
  with assms(2) [of m1] Inr x \<open>stills E m m1\<close> show ?thesis by (cases y) (auto simp: gStill_def)
qed (simp add: gStill_def)

lemma gStill_basic [gas_stills]:
  "gStill E m (gret x mem m)" "gStill E m (gback n st mem m)" "gStill E m (gmemory sz mem m)"
  by (auto simp: gStill_def gret_def gback_def gmemory_def rbind_eq_Inr split: prod.splits)

lemma gStill_queries [gas_stills]:
  "gStill E m (gquery (Empty (rdr E) a) mem m)" "gStill E m (gquery (Exist (rdr E) a) mem m)"
  by (simp_all add: gStill_def gquery_def stills_def split: prod.split, metis still_queries(2) snd_conv, metis still_queries(1) snd_conv)

lemma gStill_gcall [gas_stills]: "gStill E m (gcall E c st g mem m)"
  unfolding gcall_def
  by (rule gStill_bind [OF gStill_basic(2)]) (auto simp: gStill_def gret_def stills_def split: sum.splits)

lemma gStill_if [gas_stills]: "gStill E m x \<Longrightarrow> gStill E m y \<Longrightarrow> gStill E m (if b then x else y)"
  by simp

lemma gasStill_table [gas_stills]:
  "gasStill gasCallDataCopy" "gasStill gasCodeCopy" "gasStill gasExtCodeCopy" "gasStill gasReturnDataCopy"
  "gasStill gasSha3" "gasStill gasReturn" "gasStill gasRevert" "gasStill gasMLoad" "gasStill gasMStore8"
  "gasStill gasMStore" "gasStill gasExpFrontier" "gasStill gasExpEIP158" "gasStill gasDelegateCall"
  "gasStill gasStaticCall" "gasStill gasCall" "gasStill gasCallCode"
  unfolding gasStill_def gasCallDataCopy_def gasCodeCopy_def gasExtCodeCopy_def gasReturnDataCopy_def
    gasSha3_def gasReturn_def gasRevert_def gasMLoad_def gasMStore8_def gasMStore_def gasExpFrontier_def
    gasExpEIP158_def memoryCopierGas_def wordGas_def pureMemoryGascost_def expGas_def gasDelegateCall_def
    gasStaticCall_def gasCall_def gasCallCode_def Let_def
  by (intro allI gStill_bind gas_stills)+

subsection \<open>Operations and tables\<close>

definition execStill :: "byte \<Rightarrow> executionFunc \<Rightarrow> bool" where
  "execStill op x \<longleftrightarrow> (\<forall>E run f m f' m' ret err. runsStill E run \<longrightarrow> readOnly m \<longrightarrow>
     (op = CALL \<longrightarrow> stack f ! 2 = 0) \<longrightarrow> x E run f m = Some (Inr (f', m', ret, err)) \<longrightarrow> stills E m m')"

definition operStill :: "byte \<Rightarrow> operation \<Rightarrow> bool" where
  "operStill op oper \<longleftrightarrow> o_writes oper \<or> execStill op (o_execute oper)
     \<and> (case o_dynamicGas oper of None \<Rightarrow> True | Some g \<Rightarrow> gasStill g)"

definition tableStill :: "JumpTable \<Rightarrow> bool" where
  "tableStill jt \<longleftrightarrow> (\<forall>op oper. jt op = Some oper \<longrightarrow> operStill op oper)"

lemma execStill_plain: "plainStill op \<Longrightarrow> execStill k (plain op)"
  by (simp add: execStill_def plainStill_def plain_def)

lemma callStill_afterCall:
  assumes "callStill E False m R" "R = Some (Inr z)" "afterCall io is ro rs st f args z = Inr (f', m', ret, err)" "readOnly m"
  shows "stills E m m'"
proof -
  obtain r g' e m1 where z: "z = (r, g', e, m1)" by (cases z)
  with assms(1,2,4) have "stills E m m1" by (simp add: callStill_def)
  with afterCall_ok(1) [OF assms(3) [unfolded z]] show ?thesis by simp
qed

lemma execStill_calls:
  "execStill CALL opCall" "execStill k opCallCode" "execStill k opDelegateCall" "execStill k opStaticCall"
proof -
  show "execStill CALL opCall"
    unfolding execStill_def
  proof (intro allI impI)
    fix E run f m f' m' ret err
    assume r: "runsStill E run" "readOnly m" "CALL = CALL \<longrightarrow> stack f ! 2 = 0"
      and x: "opCall E run f m = Some (Inr (f', m', ret, err))"
    from x obtain t a v io isz ro rsz st args z where st: "stack f = t # a # v # io # isz # ro # rsz # st"
      and z: "Call E run (contractRef (contract f)) (Bytes20 a) args
         (if v \<noteq> 0 then callGasTemp m + CallStipend else callGasTemp m) (uint v) m = Some (Inr z)"
      and a: "afterCall io isz ro rsz st f args z = Inr (f', m', ret, err)" by (rule opCall_stack)
    have "v = 0" using r(3) st by simp
    with callStill_afterCall [OF Call_still [OF r(1)] _ a r(2)] z show "stills E m m'" by simp
  qed
  show "execStill k opCallCode" "execStill k opDelegateCall" "execStill k opStaticCall"
    unfolding execStill_def
    by (intro allI impI, elim opCallCode_stack opDelegateCall_stack opStaticCall_stack,
        rule callStill_afterCall [OF CallCode_still] callStill_afterCall [OF DelegateCall_still]
          callStill_afterCall [OF callStill_weaken [OF StaticCall_still]], assumption+)+
qed

lemma operStill_rules:
  "o_writes oper \<Longrightarrow> operStill k oper"
  "o_execute oper = plain op \<Longrightarrow> plainStill op \<Longrightarrow> o_dynamicGas oper = None \<Longrightarrow> operStill k oper"
  "o_execute oper = plain op \<Longrightarrow> plainStill op \<Longrightarrow> o_dynamicGas oper = Some g \<Longrightarrow> gasStill g \<Longrightarrow> operStill k oper"
  "o_execute oper = x \<Longrightarrow> execStill k x \<Longrightarrow> o_dynamicGas oper = Some g \<Longrightarrow> gasStill g \<Longrightarrow> operStill k oper"
  by (auto simp: operStill_def execStill_plain)

lemma operStill_price [simp]: "operStill k (oper\<lparr>o_constantGas := g\<rparr>) = operStill k oper"
  by (simp add: operStill_def)

definition listStill :: "(byte \<times> operation) list \<Rightarrow> bool" where
  "listStill xs \<longleftrightarrow> (\<forall>(k, oper) \<in> set xs. operStill k oper)"

lemma listStill_simps [simp]:
  "listStill []" "listStill ((k, oper) # xs) \<longleftrightarrow> operStill k oper \<and> listStill xs"
  "listStill (xs @ ys) \<longleftrightarrow> listStill xs \<and> listStill ys"
  by (auto simp: listStill_def)

lemma tableStill_map_of: "listStill xs \<Longrightarrow> tableStill (map_of xs)"
  by (auto simp: listStill_def tableStill_def dest!: map_of_SomeD)

lemma tableStill_upd: "tableStill jt \<Longrightarrow> operStill k oper \<Longrightarrow> tableStill (jt(k \<mapsto> oper))"
  by (auto simp: tableStill_def)

lemma tableStill_price: "tableStill jt \<Longrightarrow> tableStill (setOp k (o_constantGas_update (\<lambda>_. g)) jt)"
  by (auto simp: tableStill_def setOp_def)

lemma tableStill_dynamic:
  assumes "tableStill jt" "gasStill g \<or> (\<forall>oper. jt k = Some oper \<longrightarrow> o_writes oper)"
  shows "tableStill (setOp k (o_dynamicGas_update (\<lambda>_. Some g)) jt)"
proof -
  have "operStill k (oper\<lparr>o_dynamicGas := Some g\<rparr>)" if "jt k = Some oper" for oper
  proof -
    have "operStill k oper" using assms(1) that by (simp add: tableStill_def)
    with assms(2) that show ?thesis by (auto simp: operStill_def)
  qed
  with assms(1) show ?thesis by (auto simp: tableStill_def setOp_def)
qed

lemma tableStill_frontier: "tableStill newFrontierInstructionSet"
proof -
  have "listStill (frontierArith @ frontierEnv @ frontierBlock @ frontierFlow @ frontierPush1 @ frontierPush2
     @ frontierDup @ frontierSwap @ frontierLog @ frontierSystem)"
    unfolding frontierArith_def frontierEnv_def frontierBlock_def frontierFlow_def frontierPush1_def
      frontierPush2_def frontierDup_def frontierSwap_def frontierLog_def frontierSystem_def
      listStill_simps append.simps
    by (intro conjI TrueI;
        (rule listStill_simps(1)
         | (rule operStill_rules(1), simp add: mkOp_def; fail)
         | (rule operStill_rules(2), simp add: mkOp_def, rule plain_stills, simp add: mkOp_def; fail)
         | (rule operStill_rules(3), simp add: mkOp_def, rule plain_stills, simp add: mkOp_def, rule gas_stills)
         | (rule operStill_rules(4), simp add: mkOp_def, rule execStill_calls, simp add: mkOp_def, rule gas_stills)))
  then show ?thesis unfolding newFrontierInstructionSet_def by (rule tableStill_map_of)
qed

lemma tableStill_homestead: "tableStill newHomesteadInstructionSet"
  unfolding newHomesteadInstructionSet_def
  by (rule tableStill_upd [OF tableStill_frontier], rule operStill_rules(4), simp add: mkOp_def,
      rule execStill_calls, simp add: mkOp_def, rule gas_stills)

lemma tableStill_spurious: "tableStill newSpuriousDragonInstructionSet"
  unfolding newSpuriousDragonInstructionSet_def newTangerineWhistleInstructionSet_def o_apply
  by (intro tableStill_dynamic tableStill_price tableStill_homestead disjI1 gas_stills)

lemma tableStill_constantinople: "tableStill newConstantinopleInstructionSet" "tableStill newByzantiumInstructionSet"
proof -
  show b: "tableStill newByzantiumInstructionSet"
    unfolding newByzantiumInstructionSet_def
    by (intro tableStill_upd tableStill_spurious;
      ((rule operStill_rules(2), simp add: mkOp_def, rule plain_stills, simp add: mkOp_def; fail)
       | (rule operStill_rules(3), simp add: mkOp_def, rule plain_stills, simp add: mkOp_def, rule gas_stills)
       | (rule operStill_rules(4), simp add: mkOp_def, rule execStill_calls, simp add: mkOp_def, rule gas_stills)))
  show "tableStill newConstantinopleInstructionSet"
    unfolding newConstantinopleInstructionSet_def
    by (intro tableStill_upd b;
      ((rule operStill_rules(1), simp add: mkOp_def; fail)
       | (rule operStill_rules(2), simp add: mkOp_def, rule plain_stills, simp add: mkOp_def; fail)))
qed

definition writesSstore :: "JumpTable \<Rightarrow> bool" where
  "writesSstore jt \<longleftrightarrow> (\<forall>oper. jt SSTORE = Some oper \<longrightarrow> o_writes oper)"

lemma tableStill_enable:
  "tableStill jt \<Longrightarrow> tableStill (enable1344 jt)" "tableStill jt \<Longrightarrow> tableStill (enable1884 jt)"
  "tableStill jt \<Longrightarrow> tableStill (enable2315 jt)" "tableStill jt \<Longrightarrow> writesSstore jt \<Longrightarrow> tableStill (enable2200 jt)"
  unfolding enable1344_def enable1884_def enable2315_def enable2200_def o_apply
  by (intro tableStill_upd tableStill_price tableStill_dynamic;
      (assumption | (simp add: writesSstore_def setOp_def; fail)
       | (rule operStill_rules(2), simp add: mkOp_def, rule plain_stills, simp add: mkOp_def)))+

lemma writesSstore_enable:
  "writesSstore (enable1344 jt) = writesSstore jt" "writesSstore (enable1884 jt) = writesSstore jt"
  "writesSstore (enable2315 jt) = writesSstore jt" "writesSstore (enable2200 jt) = writesSstore jt"
  by (simp_all add: writesSstore_def enable1344_def enable1884_def enable2315_def enable2200_def setOp_def opcodes)
    (cases "jt SSTORE"; simp add: opcodes)

lemma writesSstore_frontier: "writesSstore newFrontierInstructionSet"
  by (simp add: writesSstore_def newFrontierInstructionSet_def frontierArith_def frontierEnv_def frontierBlock_def
      frontierFlow_def opcodes mkOp_def)

lemma writesSstore_constantinople: "writesSstore newConstantinopleInstructionSet"
  using writesSstore_frontier
  by (auto simp: writesSstore_def newConstantinopleInstructionSet_def newByzantiumInstructionSet_def
      newSpuriousDragonInstructionSet_def newTangerineWhistleInstructionSet_def newHomesteadInstructionSet_def
      setOp_def opcodes)

lemma tableStill_sets: "tableStill (instructionSets k)" "writesSstore (instructionSets k)"
proof -
  have t: "tableStill newTangerineWhistleInstructionSet"
    unfolding newTangerineWhistleInstructionSet_def o_apply by (intro tableStill_price tableStill_homestead)
  note c = tableStill_constantinople writesSstore_constantinople
  show "tableStill (instructionSets k)"
    using t c tableStill_frontier tableStill_homestead tableStill_spurious
    by (cases k) (simp_all add: newIstanbulInstructionSet_def newYoloV1InstructionSet_def tableStill_enable writesSstore_enable)
  have "writesSstore newByzantiumInstructionSet" "writesSstore newSpuriousDragonInstructionSet"
    "writesSstore newTangerineWhistleInstructionSet" "writesSstore newHomesteadInstructionSet"
    using writesSstore_frontier
    by (auto simp: writesSstore_def newByzantiumInstructionSet_def
      newSpuriousDragonInstructionSet_def newTangerineWhistleInstructionSet_def newHomesteadInstructionSet_def
      setOp_def opcodes)
  then show "writesSstore (instructionSets k)"
    using writesSstore_frontier writesSstore_constantinople
    by (cases k) (simp_all add: newIstanbulInstructionSet_def newYoloV1InstructionSet_def writesSstore_enable)
qed

lemma EnableEIP_still:
  "EnableEIP e jt = Inr jt' \<Longrightarrow> tableStill jt \<Longrightarrow> writesSstore jt \<Longrightarrow> tableStill jt' \<and> writesSstore jt'"
  by (auto simp: EnableEIP_def writesSstore_enable tableStill_enable split: if_splits)

lemma enableLoop_still:
  "enableLoop n i k arr jt = Inr (eips, jt') \<Longrightarrow> tableStill jt \<Longrightarrow> writesSstore jt \<Longrightarrow> tableStill jt'"
  by (induction n arbitrary: i k arr jt)
    (auto split: sum.splits enableError.splits if_splits dest: EnableEIP_still)

subsection \<open>Runs\<close>

definition stepStill :: "env \<Rightarrow> evm \<Rightarrow> stepResult \<Rightarrow> bool" where
  "stepStill E m r \<longleftrightarrow> (case r of Next f' m' \<Rightarrow> stills E m m' | Stop ret err f' m' \<Rightarrow> stills E m m')"

lemma stepStill_afterExecute: "stills E m m' \<Longrightarrow> stepStill E m (afterExecute oper (f', m', ret, err))"
  by (auto simp: afterExecute_def stepStill_def stills_def Let_def split: option.split)

lemma dynGasOf_still:
  assumes "dynGasOf oper E f sz m = Inr (ok, f', m')" "case o_dynamicGas oper of None \<Rightarrow> True | Some g \<Rightarrow> gasStill g"
  shows "stills E m m' \<and> stack f' = stack f"
proof (cases "o_dynamicGas oper")
  case (Some g)
  with assms(1) obtain mem m1 r where g: "g E (contract f) (stack f) (memory f) sz m = Inr (mem, m1, r)"
    by (auto simp: dynGasOf_def rbind_eq_Inr)
  then have "m1 = m'" "stack f' = stack f"
    using assms(1) Some by (auto simp: dynGasOf_def Let_def split: sum.splits prod.splits)
  moreover have "stills E m m'" using assms(2) [unfolded Some] g \<open>m1 = m'\<close> unfolding gasStill_def gStill_def option.case by blast
  ultimately show ?thesis by simp
qed (use assms in \<open>simp add: dynGasOf_def\<close>)

lemma execOp_still:
  assumes "operStill op oper" "\<not> o_writes oper" "runsStill E run" "readOnly m" "op = CALL \<longrightarrow> stack f ! 2 = 0"
    "execOp oper E run f m = Some (Inr r)"
  shows "stepStill E m r"
  using assms(6)
proof (cases rule: execOp_cases)
  case (nodyn c sz f1 m1)
  then show ?thesis using dynGasOf_still [OF nodyn(2)] assms(1,2) by (simp add: operStill_def stepStill_def)
next
  case (exec c sz f1 m1 f2 z)
  obtain f3 m3 ret err where z: "z = (f3, m3, ret, err)" by (cases z)
  have x: "execStill op (o_execute oper)" and d: "stills E m m1" "stack f1 = stack f"
    using dynGasOf_still [OF exec(3)] assms(1,2) by (auto simp: operStill_def)
  have "readOnly m1" "op = CALL \<longrightarrow> stack f2 ! 2 = 0" using d assms(4,5) exec(4) by (auto simp: stills_def)
  with x assms(3) exec(5) z have "stills E m1 m3" unfolding execStill_def by blast
  with stepStill_afterExecute [OF stills_trans [OF d(1)]] exec(6) z show ?thesis by blast
qed (simp_all add: stepStill_def)

lemma Sign_0: "Sign v = 0 \<longleftrightarrow> v = 0"
  by (simp add: Sign_def sgn_0_0) (metis signed_0 signed_word_eqI)

lemma step_still:
  assumes "tableStill jt" "IsByzantium (chainRules E)" "runsStill E run" "readOnly m" "step jt E run f m = Some (Inr r)"
  shows "stepStill E m r"
proof -
  have d: "stepStill E m' r" if di: "dispatch jt E run f' m' = Some (Inr r)" and ro: "readOnly m'" for f' m'
  proof (cases "jt (GetOp (pc f') (contract f'))")
    case (Some oper)
    let ?op = "GetOp (pc f') (contract f')"
    show ?thesis
    proof (cases "writeProtected E ?op oper f' m' = Inr False \<and> execOp oper E run f' m' = Some (Inr r)")
      case True
      then have "\<not> o_writes oper" "?op = CALL \<longrightarrow> stack f' ! 2 = 0"
        using ro assms(2) by (auto simp: writeProtected_def Back_def rbind_eq_Inr Sign_0 split: if_splits)
      moreover have "operStill ?op oper" using assms(1) Some by (simp add: tableStill_def)
      ultimately show ?thesis using execOp_still [OF _ _ assms(3) ro] True by blast
    next
      case False
      with di Some show ?thesis
        by (auto simp: dispatch_def Let_def fbind_eq_Inr stepStill_def split: if_splits)
    qed
  qed (use di in \<open>auto simp: dispatch_def stepStill_def\<close>)
  show ?thesis
    using assms(4,5) d [of "f\<lparr>steps := steps f + 1\<rparr>" m] d [of "f\<lparr>steps := steps f + 1\<rparr>" "m\<lparr>abortLoads := abortLoads m + 1\<rparr>"]
    by (auto simp: step_def Let_def stepStill_def stills_def split: if_splits stepResult.splits)
qed

lemma Run_runsStill:
  assumes "\<And>f m ret err f' m'. readOnly m \<Longrightarrow> loop f m = Some (Inr (ret, err, f', m')) \<Longrightarrow> stills E m m'"
  shows "runsStill E (Run loop)"
  unfolding runsStill_def
proof (intro allI impI)
  fix c input ro m ret err c' m'
  assume r: "Run loop c input ro m = Some (Inr (ret, err, c', m'))" and ro: "ro \<or> readOnly m"
  show "stills E m m'"
  proof (cases "c_Code c = []")
    case True
    with r show ?thesis by (auto simp: Run_def Let_def stills_def split: if_splits)
  next
    case False
    define m3 where "m3 = (let m1 = m\<lparr>depth := depth m + 1\<rparr>;
       m2 = (if ro \<and> \<not> readOnly m1 then m1\<lparr>readOnly := True\<rparr> else m1) in m2\<lparr>returnData := []\<rparr>)"
    from r False obtain f1 m1 where l: "loop (initFrame c input) m3 = Some (Inr (ret, err, f1, m1))"
      "m' = (let m' = m1\<lparr>depth := depth m1 - 1\<rparr> in if ro \<and> \<not> readOnly m then m'\<lparr>readOnly := False\<rparr> else m')"
      by (auto simp: Run_def Let_def fbind_eq_Inr m3_def split: if_splits)
    have "readOnly m3" "statedb m3 = statedb m" using ro by (auto simp: m3_def Let_def)
    with assms [OF _ l(1)] l(2) ro show ?thesis by (auto simp: stills_def Let_def m3_def split: if_splits)
  qed
qed

lemma interp_still:
  assumes "tableStill jt" "IsByzantium (chainRules E)"
  shows "readOnly m \<Longrightarrow> interp n jt E f m = Some (Inr (ret, err, f', m')) \<Longrightarrow> stills E m m'"
proof (induction n arbitrary: f m ret err f' m')
  case (Suc n)
  have run: "runsStill E (Run (interp n jt E))" by (rule Run_runsStill) (use Suc.IH in blast)
  from Suc.prems obtain r where r: "step jt E (Run (interp n jt E)) f m = Some (Inr r)"
    and c: "(case r of Next f' m' \<Rightarrow> interp n jt E f' m' | Stop ret err f' m' \<Rightarrow> Some (Inr (ret, err, f', m')))
       = Some (Inr (ret, err, f', m'))"
    by (auto simp: fbind_eq_Inr)
  note s = step_still [OF assms run Suc.prems(1) r]
  show ?case
  proof (cases r)
    case (Next f1 m1)
    with s have "stills E m m1" "readOnly m1" using Suc.prems(1) by (auto simp: stepStill_def stills_def)
    with Suc.IH [of m1 f1] Next c show ?thesis by (auto intro: stills_trans)
  next
    case (Stop ret1 err1 f1 m1)
    with s c show ?thesis by (simp add: stepStill_def)
  qed
qed simp

lemma machine_runsStill:
  "tableStill jt \<Longrightarrow> IsByzantium (chainRules E) \<Longrightarrow> runsStill E (machine n jt E)"
  unfolding machine_def by (rule Run_runsStill) (rule interp_still)

end
