(* ===== verification/EvmCreateFail.thy ===== *)
theory EvmCreateFail
  imports EvmStatic
begin

text \<open>
  A failed creation leaves the nonce of its creator raised, and nothing else: the nonce is
  set before the snapshot to which a failure reverts.
\<close>

subsection \<open>Setting a nonce\<close>

definition nonceOnly :: "address \<Rightarrow> world \<Rightarrow> world \<Rightarrow> bool" where
  "nonceOnly a w w' \<longleftrightarrow>
     (\<forall>b. b \<noteq> a \<longrightarrow> liveView w' b = liveView w b)
     \<and> balOf w' a = balOf w a \<and> codeOf w' a = codeOf w a
     \<and> (liveView w a \<noteq> None \<longrightarrow> (\<forall>k. slotOf w' a k = slotOf w a k))
     \<and> (nonceOf w' a = nonceOf w a \<or> nonceOf w' a = nonceOf w a + 1)
     \<and> w_refund w' = w_refund w \<and> w_logs w' = w_logs w \<and> w_logSize w' = w_logSize w"

lemma nonceOnly_refl [simp]: "nonceOnly a w w"
  by (simp add: nonceOnly_def)

lemma GetOrNew_code:
  assumes "GetOrNewStateObject rd a s = (o1, s')" "objectsOk rd s" "hashInj rd"
  shows "av_code (viewObj rd s' o1) = codeOf (absState rd s) a"
proof (cases "liveView (absState rd s) a")
  case None
  with GetOrNew_world(3) [OF assms None] show ?thesis by (simp add: codeOf_def viewObj_fresh)
next
  case (Some v)
  with GetOrNew_world(4) [OF assms Some] show ?thesis by (simp add: codeOf_def)
qed

lemma SetNonce_world:
  assumes "hashInj rd" "reachable rd s"
  shows "nonceOnly a (absState rd s) (absState rd (SetNonce rd a (nonceOf (absState rd s) a + 1) s))"
proof -
  note ok = reachable_objectsOk [OF assms(2,1)]
  obtain o1 s' where g: "GetOrNewStateObject rd a s = (o1, s')" by (cases "GetOrNewStateObject rd a s")
  note w = GetOrNew_world [OF g ok assms(1)] and b = GetOrNew_balance [OF g ok assms(1)]
    and sp = GetOrNewStateObject_changes [OF g ok assms(1)] and k = GetOrNew_keeps [OF g ok assms(1)]
  let ?n = "nonceOf (absState rd s) a + 1"
  let ?t = "SetNonce rd a ?n s"
  have eq: "?t = setStateObject (setNonceObj ?n o1) (record_change (nonceChange (so_address o1) (Nonce (so_data o1))) s')"
    using g by (simp add: SetNonce_def)
  have d: "so_address (setNonceObj ?n o1) = a" "\<not> deleted (setNonceObj ?n o1)"
    using sp(3,5) by (simp_all add: setNonceObj_def)
  have lv: "liveView (absState rd ?t) c = (if c = a then Some ((viewObj rd s' o1)\<lparr>av_data := (so_data o1)\<lparr>Nonce := ?n\<rparr>\<rparr>)
       else liveView (absState rd s') c)" for c
    unfolding eq using liveView_setStateObject [OF d] by (simp add: viewObj_setNonceObj)
  have "slotOf (absState rd ?t) a l = slotOf (absState rd s) a l" if "liveView (absState rd s) a \<noteq> None" for l
    using that w(4) by (auto simp: slotOf_def lv simp del: viewObj_sels)
  moreover have "balOf (absState rd ?t) a = balOf (absState rd s) a" "codeOf (absState rd ?t) a = codeOf (absState rd s) a"
    "nonceOf (absState rd ?t) a = ?n"
    using b(1) GetOrNew_code [OF g ok assms(1)] lv by (simp_all add: balOf_def [of "absState rd ?t"] codeOf_def [of "absState rd ?t"] nonceOf_def [of "absState rd ?t"])
  moreover have "w_refund (absState rd ?t) = w_refund (absState rd s)" "w_logs (absState rd ?t) = w_logs (absState rd s)"
    "w_logSize (absState rd ?t) = w_logSize (absState rd s)"
    using k unfolding eq absState_setStateObject by (simp_all add: keepsWorld_def)
  ultimately show ?thesis using w(1) lv by (simp add: nonceOnly_def)
qed

subsection \<open>Failed creations\<close>

lemma revertTo_world:
  assumes "soundState E m" "query Snapshot m = (i, m1)" "mEffect E m1 m2" "revertTo E i m2 = Inr m3"
  shows "worldOf E m3 = worldOf E m"
proof -
  have sn: "Snapshot (statedb m) = (i, statedb m1)" using assms(2) by (auto simp: query_eq)
  from assms(4) have rv: "RevertToSnapshot (rdr E) i (statedb m2) = Some (statedb m3)"
    by (auto simp: revertTo_def split: option.splits)
  show ?thesis
    using sdb.attempt_calmly(3) [of "rdr E" "statedb m" "statedb m2" True "statedb m3"] assms(1,3) rv sn
    by (simp add: soundState_def mEffect_def worldOf_def)
qed

lemma endCreate_fail:
  assumes "soundState E m" "query Snapshot m = (i, m1)" "mEffect E m1 m0" "IsHomestead (chainRules E)"
    "endCreate E i a ret err0 c0 m0 = Some (Inr (ret', a', gas', Some e, m'))"
  shows "worldOf E m' = worldOf E m"
proof -
  define big where "big \<longleftrightarrow> IsEIP158 (chainRules E) \<and> length ret > MaxCodeSize"
  obtain err c1 m2 where r: "(if err0 = None \<and> \<not> big
             then let (ok, c) = UseGas (of_nat (length ret) * CreateDataGas) c0
                  in if ok then (None, c, update (SetCode (rdr E) a ret) m0)
                     else (Some ErrCodeStoreOutOfGas, c, m0)
             else (err0, c0, m0)) = (err, c1, m2)" by (rule prod_cases3)
  have m2: "mEffect E m1 m2"
    using r assms(3) by (auto split: if_splits prod.splits intro!: mEffect_trans [OF assms(3)] mEffect_update)
  have "revertTo E i m2 = Inr m'"
    using assms(4,5) r unfolding endCreate_def big_def [symmetric]
    by (auto simp: Let_def fbind_eq_Inr split: if_splits prod.splits)
  then show ?thesis by (rule revertTo_world [OF assms(1,2) m2])
qed

lemma deploy_fail:
  assumes "runsOk E run" "soundState E m" "IsHomestead (chainRules E)"
    "deploy E run caller code h gas value addr m = Some (Inr (ret, a, gas', Some e, m'))"
  shows "worldOf E m' = worldOf E m"
proof -
  obtain i m6 where sn: "query Snapshot m = (i, m6)" by fastforce
  obtain c m10 where c: "NewContract caller addr value gas (update (Transfer (rdr E) (refAddress caller) addr value)
     (if IsEIP158 (chainRules E) then update (SetNonce (rdr E) addr 1) (update (CreateAccount (rdr E) addr) m6)
      else update (CreateAccount (rdr E) addr) m6)) = (c, m10)" by fastforce
  from assms(4) obtain r err c' m1 where run: "run (SetCodeOptionalHash addr code h c) [] False m10 = Some (Inr (r, err, c', m1))"
    and en: "endCreate E i addr r err c' m1 = Some (Inr (ret, a, gas', Some e, m'))"
    unfolding deploy_def by (auto simp: sn c Let_def fbind_eq_Inr split: if_splits)
  have "mEffect E m10 m1" using assms(1) run unfolding runsOk_def by blast
  from endCreate_fail [OF assms(2) sn mEffect_trans [OF deploy_enter(1) [OF c] this] assms(3) en] show ?thesis .
qed

lemma soundState_query:
  assumes "soundState E m" "query q m = (x, m')" "still (rdr E) (statedb m) (snd (q (statedb m)))"
    "quiet (rdr E) (statedb m) (snd (q (statedb m)))"
  shows "soundState E m' \<and> worldOf E m' = worldOf E m"
  using assms by (auto simp: soundState_def query_eq worldOf_def quiet_def still_def intro: calm_reachable)

lemma evm_create_fail:
  assumes "runsOk E run" "soundState E m" "IsHomestead (chainRules E)"
    "evm_create E run caller code h gas value addr m = Some (Inr (ret, a, gas', Some e, m'))"
  shows "nonceOnly (refAddress caller) (worldOf E m) (worldOf E m')"
proof -
  let ?a = "refAddress caller"
  obtain can m1 where q1: "query (CanTransfer (rdr E) ?a value) m = (can, m1)" by fastforce
  obtain nonce m2 where q2: "query (GetNonce (rdr E) ?a) m1 = (nonce, m2)" by fastforce
  let ?m3 = "update (SetNonce (rdr E) ?a (nonce + 1)) m2"
  obtain ch m4 where q4: "query (GetCodeHash (rdr E) addr) ?m3 = (ch, m4)" by fastforce
  obtain an m5 where q5: "query (GetNonce (rdr E) addr) m4 = (an, m5)" by fastforce
  have w1: "soundState E m1" "worldOf E m1 = worldOf E m"
    using soundState_query [OF assms(2) q1] CanTransfer_quiet by auto
  have w2: "soundState E m2" "worldOf E m2 = worldOf E m"
    using soundState_query [OF w1(1) q2] queries_quiet(4) w1(2) by auto
  have "nonce = nonceOf (worldOf E m2) ?a"
    using q2 GetNonce_world [of "rdr E" ?a "statedb m1"] w1(2) w2(2) by (auto simp: query_eq worldOf_def)
  then have n3: "nonceOnly ?a (worldOf E m) (worldOf E ?m3)"
    using SetNonce_world [of "rdr E" "statedb m2" ?a] w2 by (simp add: soundState_def worldOf_def update_def)
  have s3: "soundState E ?m3" by (rule soundState_mEffect [OF w2(1) mEffect_update]) simp
  have w4: "soundState E m4" "worldOf E m4 = worldOf E ?m3"
    using soundState_query [OF s3 q4] queries_quiet(5) by auto
  have w5: "soundState E m5" "worldOf E m5 = worldOf E ?m3"
    using soundState_query [OF w4(1) q5] queries_quiet(4) w4(2) by auto
  from assms(4) consider "m' = m" | "m' = m1" | "m' = m5"
    | "deploy E run caller code h gas value addr m5 = Some (Inr (ret, a, gas', Some e, m'))"
    unfolding evm_create_def by (auto simp: q1 q2 q4 q5 Let_def split: if_splits)
  then show ?thesis
  proof cases
    case 4
    from deploy_fail [OF assms(1) w5(1) assms(3) this] n3 w5(2) show ?thesis by simp
  qed (use w1(2) w5(2) n3 in simp_all)
qed

lemma creates_fail:
  assumes "runsOk E run" "soundState E m" "IsHomestead (chainRules E)"
  shows "Create E run caller code gas value m = Some (Inr (ret, a, gas', Some e, m')) \<Longrightarrow>
      nonceOnly (refAddress caller) (worldOf E m) (worldOf E m')"
    "Create2 E run caller code gas value salt m = Some (Inr (ret, a, gas', Some e, m')) \<Longrightarrow>
      nonceOnly (refAddress caller) (worldOf E m) (worldOf E m')"
proof -
  obtain nonce m1 where q: "query (GetNonce (rdr E) (refAddress caller)) m = (nonce, m1)" by fastforce
  have w: "soundState E m1" "worldOf E m1 = worldOf E m"
    using soundState_query [OF assms(2) q] queries_quiet(4) by auto
  show "Create E run caller code gas value m = Some (Inr (ret, a, gas', Some e, m')) \<Longrightarrow>
      nonceOnly (refAddress caller) (worldOf E m) (worldOf E m')"
    using evm_create_fail [OF assms(1) w(1) assms(3)] w(2) by (auto simp: Create_def q)
  show "Create2 E run caller code gas value salt m = Some (Inr (ret, a, gas', Some e, m')) \<Longrightarrow>
      nonceOnly (refAddress caller) (worldOf E m) (worldOf E m')"
    using evm_create_fail [OF assms] by (auto simp: Create2_def Let_def)
qed

end
