(* ===== verification/EvmAnalysis.thy ===== *)
theory EvmAnalysis
  imports EvmRun
begin

text \<open>
  The jump destination analysis (\<^verbatim>\<open>core/vm/analysis.go\<close>). The positions of the instructions of a
  piece of code are those a linear sweep visits; the bit vector that \<^verbatim>\<open>codeBitmap\<close> computes
  marks every other position, eight at a time where it can.
\<close>

inductive opcodeAt :: "bytes \<Rightarrow> nat \<Rightarrow> bool" for code where
  first: "opcodeAt code 0"
| nxt: "opcodeAt code p \<Longrightarrow> p < length code \<Longrightarrow> opcodeAt code (p + 1 + pushBytes (code ! p))"

subsection \<open>Bit vectors as sets of positions\<close>

definition marked :: "bitvec \<Rightarrow> nat \<Rightarrow> bool" where
  "marked bits p \<longleftrightarrow> p div 8 < length bits \<and> bit (bits ! (p div 8)) (7 - p mod 8)"

lemma bit_0x80: "bit (0x80 :: byte) n \<longleftrightarrow> n = 7"
proof -
  have e: "(0x80 :: byte) = 2 ^ 7" by simp
  show ?thesis unfolding e bit_exp_iff possible_bit_def by auto
qed

lemma bit_0xFF: "bit (0xFF :: byte) n \<longleftrightarrow> n < 8"
proof -
  have e: "(0xFF :: byte) = mask 8" by (simp add: mask_eq_exp_minus_1)
  show ?thesis unfolding e bit_mask_iff possible_bit_def by auto
qed

lemma bit_drop_masks:
  "bit (drop_bit k (0x80 :: byte)) n \<longleftrightarrow> k + n = 7" "bit (drop_bit k (0xFF :: byte)) n \<longleftrightarrow> k + n < 8"
  unfolding bit_drop_bit_eq o_def bit_0x80 bit_0xFF by simp_all

lemma bit_masks:
  "bit (b OR drop_bit k (0x80 :: byte)) n \<longleftrightarrow> bit b n \<or> k + n = 7"
  "bit (b OR drop_bit k (0xFF :: byte)) n \<longleftrightarrow> bit b n \<or> k + n < 8"
  "bit (b OR NOT (drop_bit k (0xFF :: byte))) n \<longleftrightarrow> bit b n \<or> n < 8 \<and> \<not> k + n < 8"
  "bit (b AND drop_bit k (0x80 :: byte)) n \<longleftrightarrow> bit b n \<and> k + n = 7"
  unfolding bit_or_iff bit_and_iff bit_not_iff bit_drop_masks possible_bit_def by auto

lemma marked_set:
  assumes "pos div 8 < length bits"
  obtains bits' where "bitvec_set pos bits = Inr bits'" "length bits' = length bits"
    "\<And>p. marked bits' p \<longleftrightarrow> marked bits p \<or> p = pos"
proof -
  define bits' where "bits' = bits[pos div 8 := bits ! (pos div 8) OR drop_bit (pos mod 8) 0x80]"
  have "marked bits' p \<longleftrightarrow> marked bits p \<or> p = pos" for p
  proof (cases "p div 8 = pos div 8")
    case True
    have "pos mod 8 + (7 - p mod 8) = 7 \<longleftrightarrow> p mod 8 = pos mod 8"
      using mod_less_divisor [of 8 p] mod_less_divisor [of 8 pos] by linarith
    also have "\<dots> \<longleftrightarrow> p = pos" using True by (metis div_mult_mod_eq)
    finally show ?thesis using True assms unfolding marked_def bits'_def by (simp add: bit_masks)
  next
    case False
    then show ?thesis by (auto simp: marked_def bits'_def nth_list_update)
  qed
  moreover have "bitvec_set pos bits = Inr bits'" using assms by (simp add: bitvec_set_def bits'_def)
  ultimately show thesis using that [of bits'] by (simp add: bits'_def)
qed

lemma marked_set8:
  assumes "pos div 8 + 1 < length bits"
  obtains bits' where "bitvec_set8 pos bits = Inr bits'" "length bits' = length bits"
    "\<And>p. marked bits' p \<longleftrightarrow> marked bits p \<or> pos \<le> p \<and> p < pos + 8"
proof -
  define k where "k = pos mod 8"
  have k: "k < 8" by (simp add: k_def)
  define bits' where "bits' = bits[pos div 8 := bits ! (pos div 8) OR drop_bit k 0xFF,
    pos div 8 + 1 := bits ! (pos div 8 + 1) OR NOT (drop_bit k 0xFF)]"
  have "marked bits' p \<longleftrightarrow> marked bits p \<or> pos \<le> p \<and> p < pos + 8" for p
  proof -
    have p: "p = p div 8 * 8 + p mod 8" "p mod 8 < 8" and q: "pos = pos div 8 * 8 + k"
      by (auto simp: k_def)
    consider (same) "p div 8 = pos div 8" | (nxt) "p div 8 = pos div 8 + 1"
      | (other) "p div 8 \<noteq> pos div 8" "p div 8 \<noteq> pos div 8 + 1" by blast
    then show ?thesis
    proof cases
      case same
      have "k + (7 - p mod 8) < 8 \<longleftrightarrow> k \<le> p mod 8" using p(2) k by linarith
      also have "\<dots> \<longleftrightarrow> pos \<le> p \<and> p < pos + 8" using p q k same by linarith
      finally show ?thesis using same assms unfolding marked_def bits'_def by (simp add: bit_masks)
    next
      case nxt
      have "\<not> k + (7 - p mod 8) < 8 \<longleftrightarrow> p mod 8 < k" using p(2) k by linarith
      also have "\<dots> \<longleftrightarrow> pos \<le> p \<and> p < pos + 8" using p q k nxt by linarith
      finally show ?thesis using nxt assms unfolding marked_def bits'_def by (auto simp: bit_masks)
    next
      case other
      have "\<not> (pos \<le> p \<and> p < pos + 8)" using other p q k by linarith
      with other show ?thesis by (auto simp: marked_def bits'_def nth_list_update)
    qed
  qed
  moreover have "bitvec_set8 pos bits = Inr bits'" using assms by (simp add: bitvec_set8_def bits'_def k_def)
  ultimately show thesis using that [of bits'] by (simp add: bits'_def)
qed

lemma codeSegment_marked:
  assumes "unat pos div 8 < length bits"
  shows "codeSegment bits pos = Inr (\<not> marked bits (unat pos))"
proof -
  let ?k = "unat pos mod 8"
  have k: "?k + n = 7 \<longleftrightarrow> n = 7 - ?k" for n using mod_less_divisor [of 8 "unat pos"] by linarith
  have "(b AND drop_bit ?k 0x80 = 0) \<longleftrightarrow> \<not> bit b (7 - ?k)" for b :: byte
  proof -
    have "(b AND drop_bit ?k 0x80 = 0) \<longleftrightarrow> (\<forall>n. \<not> bit (b AND drop_bit ?k 0x80) n)"
      using bit_eqI [of "b AND drop_bit ?k 0x80" 0] by (metis bit_0_eq bot_apply bot_bool_def)
    then show ?thesis unfolding bit_masks k by blast
  qed
  then show ?thesis using assms by (simp add: codeSegment_def marked_def Let_def)
qed

lemma markData_marked:
  assumes "p + n \<le> L + 32" "length bits = L div 8 + 5"
  shows "\<exists>bits'. markData n p bits = Inr bits' \<and> length bits' = length bits
    \<and> (\<forall>q. marked bits' q \<longleftrightarrow> marked bits q \<or> p \<le> q \<and> q < p + n)"
  using assms
proof (induction n p bits rule: markData.induct)
  case (1 n p bits)
  show ?case
  proof (cases "8 \<le> n")
    case True
    then have "p div 8 + 1 < length bits" using "1.prems" by linarith
    from marked_set8 [OF this] obtain b1 where b1: "bitvec_set8 p bits = Inr b1" "length b1 = length bits"
      "\<And>q. marked b1 q \<longleftrightarrow> marked bits q \<or> p \<le> q \<and> q < p + 8" by blast
    from "1.IH"(1) [OF True, of b1] b1(2) "1.prems" True obtain b2 where "markData (n - 8) (p + 8) b1 = Inr b2"
      "length b2 = length b1" "\<forall>q. marked b2 q \<longleftrightarrow> marked b1 q \<or> p + 8 \<le> q \<and> q < p + 8 + (n - 8)" by auto
    with b1 True show ?thesis by (auto simp: markData.simps [of n])
  next
    case False
    show ?thesis
    proof (cases "0 < n")
      case True
      then have "p div 8 < length bits" using "1.prems" by linarith
      from marked_set [OF this] obtain b1 where b1: "bitvec_set p bits = Inr b1" "length b1 = length bits"
        "\<And>q. marked b1 q \<longleftrightarrow> marked bits q \<or> q = p" by blast
      from "1.IH"(2) [OF False True, of b1] b1(2) "1.prems" True obtain b2 where "markData (n - 1) (p + 1) b1 = Inr b2"
        "length b2 = length b1" "\<forall>q. marked b2 q \<longleftrightarrow> marked b1 q \<or> p + 1 \<le> q \<and> q < p + 1 + (n - 1)" by auto
      with b1 False True show ?thesis by (auto simp: markData.simps [of n])
    qed (auto simp: markData.simps [of 0])
  qed
qed

subsection \<open>The sweep\<close>

lemma pushBytes_le: "pushBytes op \<le> 32"
proof (cases "PUSH1 \<le> op \<and> op \<le> PUSH32")
  case True
  then have "unat op \<le> 127" "96 \<le> unat op" by (simp_all add: opcodes word_le_nat_alt)
  then have "unat (op - 96 + 1) \<le> 32"
    by (simp add: unat_word_ariths take_bit_eq_mod word_le_nat_alt unat_sub)
  with True show ?thesis by (simp add: pushBytes_def opcodes)
qed (auto simp: pushBytes_def)

text \<open>Is \<open>p\<close> an instruction of the sweep that goes on from \<open>q\<close>?\<close>

function sweep :: "bytes \<Rightarrow> nat \<Rightarrow> nat \<Rightarrow> bool" where
  "sweep code q p =
     (if q < length code then p = q \<or> sweep code (q + 1 + pushBytes (code ! q)) p else False)"
  by pat_completeness auto
termination by (relation "measure (\<lambda>(code, q, p). length code - q)") auto

declare sweep.simps [simp del]

lemma sweep_bounds: "sweep code q p \<Longrightarrow> q \<le> p \<and> p < length code"
proof (induction code q p rule: sweep.induct)
  case (1 code q p)
  from "1.prems" have "q < length code" "p = q \<or> sweep code (q + 1 + pushBytes (code ! q)) p"
    by (simp_all add: sweep.simps [of code q] split: if_splits)
  with "1.IH" show ?case by auto
qed

lemma sweep_opcodeAt: "sweep code q p \<Longrightarrow> opcodeAt code q \<Longrightarrow> opcodeAt code p"
proof (induction code q p rule: sweep.induct)
  case (1 code q p)
  from "1.prems"(1) have "q < length code" "p = q \<or> sweep code (q + 1 + pushBytes (code ! q)) p"
    by (simp_all add: sweep.simps [of code q] split: if_splits)
  with "1.IH" "1.prems"(2) opcodeAt.nxt [of code q] show ?case by auto
qed

lemma sweep_next:
  "sweep code q p \<Longrightarrow> p + 1 + pushBytes (code ! p) < length code \<Longrightarrow> sweep code q (p + 1 + pushBytes (code ! p))"
proof (induction code q p rule: sweep.induct)
  case (1 code q p)
  from "1.prems"(1) have q: "q < length code" "p = q \<or> sweep code (q + 1 + pushBytes (code ! q)) p"
    by (simp_all add: sweep.simps [of code q] split: if_splits)
  have "sweep code r r" if "r < length code" for r using that by (simp add: sweep.simps [of code r])
  with q "1.IH" "1.prems"(2) show ?case by (auto simp: sweep.simps [of code q])
qed

lemma opcodeAt_sweep: "opcodeAt code p \<longleftrightarrow> sweep code 0 p" if "p < length code"
proof
  assume "opcodeAt code p"
  then show "sweep code 0 p" using that
  proof (induction rule: opcodeAt.induct)
    case first
    then show ?case by (simp add: sweep.simps [of code 0])
  next
    case (nxt p)
    then show ?case by (intro sweep_next) auto
  qed
qed (rule sweep_opcodeAt [OF _ opcodeAt.first])

lemma codeBitmapLoop_marked:
  assumes "length bits = length code div 8 + 5"
  shows "\<exists>bits'. codeBitmapLoop code q bits = Inr bits' \<and> length bits' = length bits
    \<and> (\<forall>p < length code. marked bits' p \<longleftrightarrow> marked bits p \<or> q \<le> p \<and> \<not> sweep code q p)"
  using assms
proof (induction code q bits rule: codeBitmapLoop.induct)
  case (1 code q bits)
  show ?case
  proof (cases "q < length code")
    case True
    define n where "n = pushBytes (code ! q)"
    have "q + 1 + n \<le> length code + 32" using True pushBytes_le [of "code ! q"] by (simp add: n_def)
    from markData_marked [OF this "1.prems"] obtain b1 where b1: "markData n (q + 1) bits = Inr b1"
      "length b1 = length bits" "\<forall>p. marked b1 p \<longleftrightarrow> marked bits p \<or> q + 1 \<le> p \<and> p < q + 1 + n" by auto
    from "1.IH" [OF True n_def, of b1] b1(2) "1.prems" obtain b2 where b2:
      "codeBitmapLoop code (q + 1 + n) b1 = Inr b2" "length b2 = length b1"
      "\<forall>p < length code. marked b2 p \<longleftrightarrow> marked b1 p \<or> q + 1 + n \<le> p \<and> \<not> sweep code (q + 1 + n) p" by auto
    have "q \<le> p \<and> \<not> sweep code q p \<longleftrightarrow>
        q + 1 \<le> p \<and> p < q + 1 + n \<or> q + 1 + n \<le> p \<and> \<not> sweep code (q + 1 + n) p" for p
      using True sweep_bounds [of code "q + 1 + n" p] by (auto simp: sweep.simps [of code q] n_def)
    with True b1 b2 show ?thesis by (simp add: codeBitmapLoop.simps [of code q] n_def Let_def)
  next
    case False
    then show ?thesis by (simp add: codeBitmapLoop.simps [of code q])
  qed
qed

lemma codeBitmap_correct:
  obtains bits where "codeBitmap code = Inr bits"
    "\<And>pos. unat pos < length code \<Longrightarrow> codeSegment bits pos = Inr (opcodeAt code (unat pos))"
proof -
  let ?b = "replicate (length code div 8 + 1 + 4) (0 :: byte)"
  obtain bits where b: "codeBitmapLoop code 0 ?b = Inr bits" "length bits = length ?b"
    "\<forall>p < length code. marked bits p \<longleftrightarrow> marked ?b p \<or> \<not> sweep code 0 p"
    using codeBitmapLoop_marked [of ?b code 0] by auto
  have "codeSegment bits pos = Inr (opcodeAt code (unat pos))" if "unat pos < length code" for pos
  proof -
    have "unat pos div 8 < length bits" using b(2) that div_le_mono [of "unat pos" "length code" 8] by simp
    moreover have "\<not> marked ?b (unat pos)" by (simp add: marked_def)
    ultimately show ?thesis using b(3) that opcodeAt_sweep [OF that] by (simp add: codeSegment_marked)
  qed
  with b(1) show thesis using that by (simp add: codeBitmap_def)
qed

end
