(* ===== verification/EvmStack.thy ===== *)
theory EvmStack
  imports EvmGasBound EvmAnalysis
begin

text \<open>
  The operand stack is used safely. Every instruction that a table of the machine holds finds the
  items it reads, because the loop compares the height of the stack with \<^verbatim>\<open>minStack\<close> first, and
  leaves at most 1024 items, because the loop compares it with \<^verbatim>\<open>maxStack\<close>. So no run ends in
  \<open>StackPanic\<close>; nor does the machine raise the panic of the gas pool. The rules below follow the structure of a definition: a composition is silent when
  its parts are.
\<close>

definition silent :: "(panic + 'a) option \<Rightarrow> bool" where
  "silent R \<longleftrightarrow> R \<noteq> Some (Inl StackPanic) \<and> R \<noteq> Some (Inl GasPoolPanic)"

definition runsQuiet :: "runner \<Rightarrow> bool" where
  "runsQuiet run \<longleftrightarrow> (\<forall>c input ro m. silent (run c input ro m))"

named_theorems quiet_rules \<open>rules that follow the structure of a computation\<close>

lemma quiet_structure [quiet_rules]:
  "silent (Some (Inr x))"
  "silent r \<Longrightarrow> (\<And>x. silent (k x)) \<Longrightarrow> silent (fbind r k)"
  "silent (Some s) \<Longrightarrow> (\<And>x. silent (Some (h x))) \<Longrightarrow> silent (Some (rbind s h))"
  "(b \<Longrightarrow> silent y) \<Longrightarrow> (\<not> b \<Longrightarrow> silent z) \<Longrightarrow> silent (if b then y else z)"
  "(b \<Longrightarrow> silent (Some u)) \<Longrightarrow> (\<not> b \<Longrightarrow> silent (Some v)) \<Longrightarrow> silent (Some (if b then u else v))"
  "(\<And>x. silent (l x)) \<Longrightarrow> silent (Let w l)"
  "(\<And>x. silent (Some (l' x))) \<Longrightarrow> silent (Some (Let w l'))"
  "(\<And>x y. silent (c x y)) \<Longrightarrow> silent (case p of (x, y) \<Rightarrow> c x y)"
  "(\<And>x y. silent (Some (c' x y))) \<Longrightarrow> silent (Some (case p of (x, y) \<Rightarrow> c' x y))"
  "silent n \<Longrightarrow> (\<And>x. silent (s' x)) \<Longrightarrow> silent (case q of None \<Rightarrow> n | Some x \<Rightarrow> s' x)"
  "silent (Some n') \<Longrightarrow> (\<And>x. silent (Some (s'' x))) \<Longrightarrow> silent (Some (case q of None \<Rightarrow> n' | Some x \<Rightarrow> s'' x))"
  "(\<And>x. silent (Some (e x))) \<Longrightarrow> (\<And>x. silent (Some (i x))) \<Longrightarrow> silent (Some (case_sum e i t))"
  by (auto simp: silent_def fbind_def rbind_def split: option.splits sum.splits prod.splits)

lemma quiet_memory [quiet_rules]:
  "silent (Some (getData d i n))" "silent (Some (GetPtr i n mem))" "silent (Some (GetCopy i n mem))"
  "silent (Some (Memory_Set i n d mem))" "silent (Some (Memory_Set32 i w mem))"
  by (auto simp: silent_def getData_def GetPtr_def GetCopy_def sliceMem_def Memory_Set_def Memory_Set32_def Let_def)

subsection \<open>Precompiled contracts and calls\<close>

lemma quiet_precompile_results [quiet_rules]:
  "silent (Some (returnBytes b))" "silent (Some (returnError e))"
  "(\<And>x. silent (Some (k x))) \<Longrightarrow> silent (Some (orError r k))" "silent (Some (bigData d i n))" "silent (Some bls_lengthError)"
  unfolding returnBytes_def returnError_def orError_def bigData_def bls_lengthError_def
  by (intro quiet_rules | assumption)+

lemma quiet_RequiredGas [quiet_rules]: "silent (Some (RequiredGas p input))"
  by (cases p; simp only: RequiredGas.simps bigModExp_RequiredGas_def; intro quiet_rules)

lemma quiet_PRun [quiet_rules]: "silent (Some (PRun C p input))"
  by (cases p;
      simp only: PRun.simps ecrecover_Run_def sha256hash_Run_def ripemd160hash_Run_def dataCopy_Run_def
        bigModExp_Run_def runBn256Add_def runBn256ScalarMul_def runBn256Pairing_def blake2F_Run_def
        bls12381G1Add_Run_def bls12381G1Mul_Run_def bls12381G1MultiExp_Run_def bls12381G2Add_Run_def
        bls12381G2Mul_Run_def bls12381G2MultiExp_Run_def bls12381Pairing_Run_def bls12381MapG1_Run_def
        bls12381MapG2_Run_def;
      intro quiet_rules)

lemma quiet_parts [quiet_rules]:
  "silent (Some (AsDelegate c))" "silent (Some (revertTo E i m))"
  by (auto simp: silent_def AsDelegate_def revertTo_def split: ContractRef.splits option.splits)

lemma quiet_call_parts [quiet_rules]:
  "silent (runPre E p input gas m)" "silent (endCall E i ret gas err m)" "silent (endCreate E i a code err c m)"
  unfolding runPre_def endCall_def endCreate_def RunPrecompiledContract_def by (intro quiet_rules)+

lemma quiet_run: "runsQuiet run \<Longrightarrow> silent (run c input ro m)"
  by (simp add: runsQuiet_def)

lemma quiet_calls [quiet_rules]:
  assumes "runsQuiet run"
  shows "silent (Call E run caller addr input gas v m)" "silent (CallCode E run caller addr input gas v m)"
    "silent (DelegateCall E run caller addr input gas m)" "silent (StaticCall E run caller addr input gas m)"
    "silent (Create E run caller code gas v m)" "silent (Create2 E run caller code gas v salt m)"
  unfolding Call_def callBody_def CallCode_def DelegateCall_def StaticCall_def runCode_def Create_def Create2_def
    evm_create_def deploy_def
  by (intro quiet_rules quiet_run [OF assms])+

subsection \<open>Gas and memory size functions\<close>

definition gasNeeds :: "nat \<Rightarrow> gasFunc option \<Rightarrow> bool" where
  "gasNeeds n g \<longleftrightarrow> (case g of None \<Rightarrow> True
     | Some g \<Rightarrow> \<forall>E c st mem sz m. n \<le> length st \<longrightarrow> silent (Some (g E c st mem sz m)))"

definition memNeeds :: "nat \<Rightarrow> memorySizeFunc option \<Rightarrow> bool" where
  "memNeeds n g \<longleftrightarrow> (case g of None \<Rightarrow> True | Some g \<Rightarrow> \<forall>st. n \<le> length st \<longrightarrow> silent (Some (g st)))"

named_theorems stack_needs \<open>how many items the functions of an operation read\<close>

lemma quiet_Back [quiet_rules]: "n < length st \<Longrightarrow> silent (Some (Back n st))"
  by (simp add: silent_def Back_def)

lemma quiet_gsubRefund [quiet_rules]: "silent (Some (gsubRefund g mem m))"
  by (simp add: silent_def gsubRefund_def split: option.split)

lemmas gas_steps = gbind_def gret_def gback_def gmemory_def gquery_def gaddRefund_def gskip_def gcall_def

lemma gasNeeds_memory [stack_needs]:
  "gasNeeds 3 (Some gasCallDataCopy)" "gasNeeds 3 (Some gasCodeCopy)" "gasNeeds 4 (Some gasExtCodeCopy)"
  "gasNeeds 3 (Some gasReturnDataCopy)" "gasNeeds 2 (Some gasSha3)" "gasNeeds 2 (Some gasReturn)" "gasNeeds 2 (Some gasRevert)"
  "gasNeeds 1 (Some gasMLoad)" "gasNeeds 2 (Some gasMStore8)" "gasNeeds 2 (Some gasMStore)" "gasNeeds 3 (Some gasCreate)"
  "gasNeeds 4 (Some gasCreate2)" "gasNeeds 2 (Some gasExpFrontier)" "gasNeeds 2 (Some gasExpEIP158)"
  unfolding gasNeeds_def option.case gasCallDataCopy_def gasCodeCopy_def gasExtCodeCopy_def gasReturnDataCopy_def
    gasSha3_def gasReturn_def gasRevert_def gasMLoad_def gasMStore8_def gasMStore_def gasCreate_def gasCreate2_def
    gasExpFrontier_def gasExpEIP158_def memoryCopierGas_def wordGas_def pureMemoryGascost_def expGas_def gas_steps
  by (intro allI impI quiet_rules; (linarith | simp))+

lemma gasNeeds_log [stack_needs]: "2 \<le> n \<Longrightarrow> gasNeeds n (Some (makeGasLog k))"
  unfolding gasNeeds_def option.case makeGasLog_def gas_steps by (intro allI impI quiet_rules; (linarith | simp))

lemma gasNeeds_storage [stack_needs]: "gasNeeds 2 (Some gasSStore)" "gasNeeds 2 (Some gasSStoreEIP2200)"
  unfolding gasNeeds_def option.case gasSStore_def gasSStoreEIP2200_def gas_steps
  by (intro allI impI quiet_rules; (linarith | simp))+

lemma gasNeeds_calls [stack_needs]:
  "gasNeeds 7 (Some gasCall)" "gasNeeds 7 (Some gasCallCode)" "gasNeeds 6 (Some gasDelegateCall)"
  "gasNeeds 6 (Some gasStaticCall)" "gasNeeds 1 (Some gasSelfdestruct)"
  unfolding gasNeeds_def option.case gasCall_def gasCallCode_def gasDelegateCall_def gasStaticCall_def
    gasSelfdestruct_def gas_steps
  by (intro allI impI quiet_rules; (linarith | simp))+

lemma memNeeds_table [stack_needs]:
  "memNeeds 2 (Some memorySha3)" "memNeeds 3 (Some memoryCallDataCopy)" "memNeeds 3 (Some memoryReturnDataCopy)"
  "memNeeds 3 (Some memoryCodeCopy)" "memNeeds 4 (Some memoryExtCodeCopy)" "memNeeds 1 (Some memoryMLoad)"
  "memNeeds 2 (Some memoryMStore8)" "memNeeds 2 (Some memoryMStore)" "memNeeds 3 (Some memoryCreate)"
  "memNeeds 4 (Some memoryCreate2)" "memNeeds 7 (Some memoryCall)" "memNeeds 6 (Some memoryDelegateCall)"
  "memNeeds 6 (Some memoryStaticCall)" "memNeeds 2 (Some memoryReturn)" "memNeeds 2 (Some memoryRevert)"
  unfolding memNeeds_def option.case memorySha3_def memoryCallDataCopy_def memoryReturnDataCopy_def memoryCodeCopy_def
    memoryExtCodeCopy_def memoryMLoad_def memoryMStore8_def memoryMStore_def memoryCreate_def memoryCreate2_def
    memoryCall_def memoryDelegateCall_def memoryStaticCall_def memoryReturn_def memoryRevert_def memMax2_def memRange_def
  by (intro allI impI quiet_rules; (linarith | simp))+

lemma memNeeds_log [stack_needs]: "2 \<le> n \<Longrightarrow> memNeeds n (Some memoryLog)"
  unfolding memNeeds_def option.case memoryLog_def memRange_def by (intro allI impI quiet_rules; (linarith | simp))

lemma needs_none [stack_needs]: "gasNeeds n None" "memNeeds n None"
  by (simp_all add: gasNeeds_def memNeeds_def)

lemma needs_mono: "n \<le> k \<Longrightarrow> gasNeeds n g \<Longrightarrow> gasNeeds k g" "n \<le> k \<Longrightarrow> memNeeds n s \<Longrightarrow> memNeeds k s"
  by (auto simp: gasNeeds_def memNeeds_def split: option.splits)

subsection \<open>Instructions\<close>

text \<open>An instruction that pops \<open>a\<close> items and pushes \<open>b\<close>.\<close>

definition execStack :: "nat \<Rightarrow> nat \<Rightarrow> executionFunc \<Rightarrow> bool" where
  "execStack a b x \<longleftrightarrow> (\<forall>E run f m. runsQuiet run \<longrightarrow> a \<le> length (stack f) \<longrightarrow> silent (x E run f m)
     \<and> (\<forall>f' m' ret. x E run f m = Some (Inr (f', m', ret, None)) \<longrightarrow> length (stack f') + a \<le> length (stack f) + b))"

definition plainStack :: "nat \<Rightarrow> nat \<Rightarrow> plainFunc \<Rightarrow> bool" where
  "plainStack a b op \<longleftrightarrow> (\<forall>E f m. a \<le> length (stack f) \<longrightarrow> op E f m \<noteq> Inl StackPanic \<and> op E f m \<noteq> Inl GasPoolPanic
     \<and> (\<forall>f' m' ret. op E f m = Inr (f', m', ret, None) \<longrightarrow> length (stack f') + a \<le> length (stack f) + b))"

named_theorems exec_stacks \<open>the stack effect of the instructions\<close>

lemma execStack_plain: "plainStack a b op \<Longrightarrow> execStack a b (plain op)"
  by (auto simp: execStack_def plainStack_def plain_def silent_def)

lemma plainStack_simple:
  "plainStack 1 1 (\<lambda>E. unOp (g1 E))" "plainStack 2 1 (\<lambda>E. binOp (g2 E))" "plainStack 3 1 (\<lambda>E. triOp (g3 E))"
  "plainStack 0 1 (\<lambda>E f m. pushWord (w E f m) f m)"
  by (auto simp: plainStack_def unOp_def binOp_def triOp_def pushWord_def proceed_def split: list.splits)

lemma plainStack_arith [exec_stacks]:
  "plainStack 2 1 opAdd" "plainStack 2 1 opSub" "plainStack 2 1 opMul" "plainStack 2 1 opDiv" "plainStack 2 1 opSdiv"
  "plainStack 2 1 opMod" "plainStack 2 1 opSmod" "plainStack 2 1 opExp" "plainStack 2 1 opSignExtend" "plainStack 1 1 opNot"
  "plainStack 2 1 opLt" "plainStack 2 1 opGt" "plainStack 2 1 opSlt" "plainStack 2 1 opSgt" "plainStack 2 1 opEq"
  "plainStack 1 1 opIszero" "plainStack 2 1 opAnd" "plainStack 2 1 opOr" "plainStack 2 1 opXor" "plainStack 2 1 opByte"
  "plainStack 3 1 opAddmod" "plainStack 3 1 opMulmod" "plainStack 2 1 opSHL" "plainStack 2 1 opSHR" "plainStack 2 1 opSAR"
  "plainStack 1 1 opBlockhash"
  unfolding opAdd_def opSub_def opMul_def opDiv_def opSdiv_def opMod_def opSmod_def opExp_def
    opSignExtend_def opNot_def opLt_def opGt_def opSlt_def opSgt_def opEq_def opIszero_def opAnd_def
    opOr_def opXor_def opByte_def opAddmod_def opMulmod_def opSHL_def opSHR_def opSAR_def opBlockhash_def
  by (rule plainStack_simple)+

lemma plainStack_push [exec_stacks]:
  "plainStack 0 1 opAddress" "plainStack 0 1 opOrigin" "plainStack 0 1 opCaller" "plainStack 0 1 opCallValue"
  "plainStack 0 1 opCallDataSize" "plainStack 0 1 opReturnDataSize" "plainStack 0 1 opCodeSize" "plainStack 0 1 opGasprice"
  "plainStack 0 1 opCoinbase" "plainStack 0 1 opTimestamp" "plainStack 0 1 opNumber" "plainStack 0 1 opDifficulty"
  "plainStack 0 1 opGasLimit" "plainStack 0 1 opChainID" "plainStack 0 1 opPc" "plainStack 0 1 opMsize" "plainStack 0 1 opGas"
  "plainStack 0 1 opSelfBalance" "plainStack 0 1 opPush1" "plainStack 0 1 (makePush n k)"
  by (auto simp: plainStack_def pushWord_def proceed_def opAddress_def opOrigin_def opCaller_def opCallValue_def
      opCallDataSize_def opReturnDataSize_def opCodeSize_def opGasprice_def opCoinbase_def opSelfBalance_def
      opTimestamp_def opNumber_def opDifficulty_def opGasLimit_def opChainID_def opPc_def opMsize_def opGas_def
      opPush1_def makePush_def Let_def split: prod.splits if_splits)

lemma plainStack_account [exec_stacks]:
  "plainStack 1 1 opBalance" "plainStack 1 1 opExtCodeSize" "plainStack 1 1 opExtCodeHash" "plainStack 1 1 opSload"
  "plainStack 2 0 opSstore" "plainStack 1 0 opSuicide"
  by (auto simp: plainStack_def opBalance_def opExtCodeSize_def opExtCodeHash_def opSload_def opSstore_def opSuicide_def
      onAddress_def proceed_def Let_def split: list.splits prod.splits)

lemma memory_not_stack [simp]:
  "getData d i n \<noteq> Inl StackPanic" "GetPtr i n mem \<noteq> Inl StackPanic" "GetCopy i n mem \<noteq> Inl StackPanic"
  "Memory_Set i n d mem \<noteq> Inl StackPanic" "Memory_Set32 i w mem \<noteq> Inl StackPanic"
  "getData d i n \<noteq> Inl GasPoolPanic" "GetPtr i n mem \<noteq> Inl GasPoolPanic" "GetCopy i n mem \<noteq> Inl GasPoolPanic"
  "Memory_Set i n d mem \<noteq> Inl GasPoolPanic" "Memory_Set32 i w mem \<noteq> Inl GasPoolPanic"
  using quiet_memory by (auto simp: silent_def)

lemma plainStack_memory [exec_stacks]:
  "plainStack 2 1 opSha3" "plainStack 1 1 opCallDataLoad" "plainStack 3 0 opCallDataCopy" "plainStack 3 0 opReturnDataCopy"
  "plainStack 3 0 opCodeCopy" "plainStack 4 0 opExtCodeCopy" "plainStack 1 1 opMload" "plainStack 2 0 opMstore"
  "plainStack 2 0 opMstore8" "plainStack 2 0 opReturn" "plainStack 2 0 opRevert"
  by (auto simp: plainStack_def opSha3_def opCallDataLoad_def opCallDataCopy_def opReturnDataCopy_def
      opCodeCopy_def opExtCodeCopy_def opMload_def opMstore_def opMstore8_def opReturn_def opRevert_def
      copyToMemory_def proceed_def fails_def Let_def rbind_eq_Inr rbind_eq_Inl
      split: list.splits if_splits prod.splits)

lemma quiet_isCode: "isCode d c m \<noteq> Inl StackPanic" "isCode d c m \<noteq> Inl GasPoolPanic"
proof -
  obtain bits where "codeBitmap (c_Code c) = Inr bits" by (rule codeBitmap_correct)
  then show "isCode d c m \<noteq> Inl StackPanic" "isCode d c m \<noteq> Inl GasPoolPanic"
    by (auto simp: isCode_def codeSegment_def Let_def split: option.splits)
qed

lemma jump_not_stack [simp]:
  "validJumpdest d c m \<noteq> Inl StackPanic" "validJumpSubdest u c m \<noteq> Inl StackPanic"
  "validJumpdest d c m \<noteq> Inl GasPoolPanic" "validJumpSubdest u c m \<noteq> Inl GasPoolPanic"
  by (simp_all add: validJumpdest_def validJumpSubdest_def quiet_isCode Let_def split: prod.split)

lemma plainStack_flow [exec_stacks]:
  "plainStack 1 0 opPop" "plainStack 1 0 opJump" "plainStack 2 0 opJumpi" "plainStack 0 0 opJumpdest"
  "plainStack 0 0 opBeginSub" "plainStack 1 0 opJumpSub" "plainStack 0 0 opReturnSub" "plainStack 0 0 opStop"
  by (auto simp: plainStack_def opPop_def opJump_def opJumpi_def opJumpdest_def opBeginSub_def opJumpSub_def
      opReturnSub_def opStop_def proceed_def fails_def Let_def rbind_eq_Inr rbind_eq_Inl
      split: list.splits if_splits prod.splits)

lemma plainStack_make [exec_stacks]:
  "0 < n \<Longrightarrow> plainStack n (Suc n) (makeDup n)" "plainStack (Suc n) (Suc n) (makeSwap n)"
  "plainStack (Suc (Suc n)) 0 (makeLog n)"
  by (auto simp: plainStack_def makeDup_def makeSwap_def makeLog_def stack_dup_def stack_swap_def proceed_def
      rbind_eq_Inr rbind_eq_Inl split: list.splits if_splits)

lemma quiet_slice [quiet_rules]:
  "(\<And>b. silent (Some (k b))) \<Longrightarrow> silent (Some j) \<Longrightarrow> silent (Some (case r of OwnBytes b \<Rightarrow> k b | InputSlice \<Rightarrow> j))"
  by (simp split: slice.split)

lemma quiet_afterCall: "silent (Some (afterCall io is ro rs st f args r))"
  unfolding afterCall_def by (intro quiet_rules)

lemma afterCall_stack: "afterCall io is ro rs st f args r = Inr (f', m', ret, err) \<Longrightarrow> length (stack f') = Suc (length st)"
  by (auto simp: afterCall_def addGas_def Let_def rbind_eq_Inr split: prod.splits)

lemma long_stack:
  "3 \<le> length xs \<Longrightarrow> \<exists>a b c st. xs = a # b # c # st"
  "4 \<le> length xs \<Longrightarrow> \<exists>a b c d st. xs = a # b # c # d # st"
  "6 \<le> length xs \<Longrightarrow> \<exists>a b c d e g st. xs = a # b # c # d # e # g # st"
  "7 \<le> length xs \<Longrightarrow> \<exists>a b c d e g h st. xs = a # b # c # d # e # g # h # st"
  by (simp_all add: numeral_eq_Suc Suc_le_length_iff) auto

lemma execStackI:
  assumes "\<And>E run f m. runsQuiet run \<Longrightarrow> a \<le> length (stack f) \<Longrightarrow> silent (x E run f m)"
    "\<And>E run f m f' m' ret err. a \<le> length (stack f) \<Longrightarrow> x E run f m = Some (Inr (f', m', ret, err)) \<Longrightarrow>
       length (stack f') + a \<le> length (stack f) + b"
  shows "execStack a b x"
  using assms unfolding execStack_def by blast

lemma execStack_calls [exec_stacks]:
  "execStack 7 1 opCall" "execStack 7 1 opCallCode" "execStack 6 1 opDelegateCall" "execStack 6 1 opStaticCall"
  by (rule execStackI;
      ((drule long_stack, elim exE, simp only: opCall_def opCallCode_def opDelegateCall_def opStaticCall_def list.case,
       (intro quiet_rules quiet_afterCall; assumption))
    | (drule long_stack, elim exE, auto simp: opCall_def opCallCode_def opDelegateCall_def opStaticCall_def Let_def
         fbind_eq_Inr dest!: afterCall_stack)))+

lemma execStack_creates [exec_stacks]: "execStack 3 1 opCreate" "execStack 4 1 opCreate2"
  by (rule execStackI;
      ((drule long_stack, elim exE, simp only: opCreate_def opCreate2_def list.case, (intro quiet_rules; assumption))
    | (drule long_stack, elim exE, auto simp: opCreate_def opCreate2_def Let_def addGas_def useGas_def fbind_eq_Inr)))+

subsection \<open>Operations and tables\<close>

text \<open>
  The items that are read by code outside of the operation: the loop looks at the value of a
  \<^verbatim>\<open>CALL\<close>, and some forks replace the gas function of \<^verbatim>\<open>SSTORE\<close> and \<^verbatim>\<open>EXP\<close>.
\<close>

definition minItems :: "byte \<Rightarrow> nat" where
  "minItems k = (if k = CALL then 3 else if k = SSTORE \<or> k = EXP then 2 else 0)"

definition operStack :: "byte \<Rightarrow> operation \<Rightarrow> bool" where
  "operStack k oper \<longleftrightarrow> (\<exists>a b. a \<le> o_minStack oper \<and> o_maxStack oper + b \<le> 1024 + a
     \<and> execStack a b (o_execute oper))
     \<and> gasNeeds (o_minStack oper) (o_dynamicGas oper) \<and> memNeeds (o_minStack oper) (o_memorySize oper)
     \<and> minItems k \<le> o_minStack oper"

definition tableStack :: "JumpTable \<Rightarrow> bool" where
  "tableStack jt \<longleftrightarrow> (\<forall>k oper. jt k = Some oper \<longrightarrow> operStack k oper)"

lemma operStack_rules:
  "o_execute oper = plain op \<Longrightarrow> plainStack a b op \<Longrightarrow> o_dynamicGas oper = g \<Longrightarrow> gasNeeds a g \<Longrightarrow>
     o_memorySize oper = s \<Longrightarrow> memNeeds a s \<Longrightarrow>
     a \<le> o_minStack oper \<and> o_maxStack oper + b \<le> 1024 + a \<and> minItems k \<le> o_minStack oper \<Longrightarrow> operStack k oper"
  "o_execute oper = x \<Longrightarrow> execStack a b x \<Longrightarrow> o_dynamicGas oper = g \<Longrightarrow> gasNeeds a g \<Longrightarrow>
     o_memorySize oper = s \<Longrightarrow> memNeeds a s \<Longrightarrow>
     a \<le> o_minStack oper \<and> o_maxStack oper + b \<le> 1024 + a \<and> minItems k \<le> o_minStack oper \<Longrightarrow> operStack k oper"
proof -
  show i: "operStack k oper" if "o_execute oper = x" "execStack a b x" "o_dynamicGas oper = g" "gasNeeds a g"
    "o_memorySize oper = s" "memNeeds a s"
    "a \<le> o_minStack oper \<and> o_maxStack oper + b \<le> 1024 + a \<and> minItems k \<le> o_minStack oper" for x
    unfolding operStack_def using that needs_mono [of a "o_minStack oper"] by (intro conjI exI [of _ a] exI [of _ b]) auto
  show "o_execute oper = plain op \<Longrightarrow> plainStack a b op \<Longrightarrow> o_dynamicGas oper = g \<Longrightarrow> gasNeeds a g \<Longrightarrow>
     o_memorySize oper = s \<Longrightarrow> memNeeds a s \<Longrightarrow>
     a \<le> o_minStack oper \<and> o_maxStack oper + b \<le> 1024 + a \<and> minItems k \<le> o_minStack oper \<Longrightarrow> operStack k oper"
    by (rule i [OF _ execStack_plain])
qed

lemmas stack_fields = mkOp_def minStack_def maxStack_def minSwapStack_def maxSwapStack_def minDupStack_def maxDupStack_def
  StackLimit_def minItems_def

definition listStack :: "(byte \<times> operation) list \<Rightarrow> bool" where
  "listStack xs \<longleftrightarrow> (\<forall>(k, oper) \<in> set xs. operStack k oper)"

lemma listStack_simps [simp]:
  "listStack []" "listStack ((k, oper) # xs) \<longleftrightarrow> operStack k oper \<and> listStack xs"
  "listStack (xs @ ys) \<longleftrightarrow> listStack xs \<and> listStack ys"
  by (auto simp: listStack_def)

lemma tableStack_map_of: "listStack xs \<Longrightarrow> tableStack (map_of xs)"
  by (auto simp: listStack_def tableStack_def dest!: map_of_SomeD)

lemma tableStack_upd: "tableStack jt \<Longrightarrow> operStack k oper \<Longrightarrow> tableStack (jt(k \<mapsto> oper))"
  by (auto simp: tableStack_def)

lemma tableStack_price: "tableStack jt \<Longrightarrow> tableStack (setOp k (o_constantGas_update (\<lambda>_. g)) jt)"
  by (auto simp: tableStack_def setOp_def operStack_def)

lemma listStack_frontier1: "listStack (frontierArith @ frontierEnv @ frontierBlock @ frontierFlow)"
  unfolding frontierArith_def frontierEnv_def frontierBlock_def frontierFlow_def listStack_simps append.simps
  by (intro conjI TrueI listStack_simps(1);
      rule operStack_rules(1), simp add: mkOp_def, rule exec_stacks, simp add: mkOp_def, rule stack_needs,
      simp add: mkOp_def, rule stack_needs, simp add: stack_fields opcodes)

lemma listStack_frontier2: "listStack (frontierPush1 @ frontierPush2 @ frontierDup @ frontierSwap)"
  unfolding frontierPush1_def frontierPush2_def frontierDup_def frontierSwap_def listStack_simps append.simps
  by (intro conjI TrueI listStack_simps(1);
      rule operStack_rules(1), simp add: mkOp_def, (rule exec_stacks; simp), simp add: mkOp_def, rule stack_needs,
      simp add: mkOp_def, rule stack_needs, simp add: stack_fields opcodes)

lemma listStack_frontier3: "listStack (frontierLog @ frontierSystem)"
  unfolding frontierLog_def frontierSystem_def listStack_simps append.simps
  by (intro conjI TrueI listStack_simps(1);
      ((rule operStack_rules(1), simp add: mkOp_def, rule exec_stacks, simp add: mkOp_def, (rule stack_needs; simp),
       simp add: mkOp_def, (rule stack_needs; simp), simp add: stack_fields opcodes)
    | (rule operStack_rules(2), simp add: mkOp_def, rule exec_stacks, simp add: mkOp_def, rule stack_needs,
       simp add: mkOp_def, rule stack_needs, simp add: stack_fields opcodes)))

lemma tableStack_dynamic:
  assumes "tableStack jt" "gasNeeds (minItems k) (Some g)"
  shows "tableStack (setOp k (o_dynamicGas_update (\<lambda>_. Some g)) jt)"
proof -
  have "operStack k (oper\<lparr>o_dynamicGas := Some g\<rparr>)" if "jt k = Some oper" for oper
  proof -
    have "operStack k oper" using assms(1) that by (simp add: tableStack_def)
    with needs_mono(1) [OF _ assms(2)] show ?thesis by (simp add: operStack_def)
  qed
  with assms(1) show ?thesis by (auto simp: tableStack_def setOp_def)
qed

lemma tableStack_frontier: "tableStack newFrontierInstructionSet"
  unfolding newFrontierInstructionSet_def
  by (rule tableStack_map_of) (use listStack_frontier1 listStack_frontier2 listStack_frontier3 in simp)

lemma tableStack_homestead: "tableStack newHomesteadInstructionSet"
  unfolding newHomesteadInstructionSet_def
  by (rule tableStack_upd [OF tableStack_frontier], rule operStack_rules(2), simp add: mkOp_def, rule exec_stacks,
      simp add: mkOp_def, rule stack_needs, simp add: mkOp_def, rule stack_needs, simp add: stack_fields opcodes)

lemma tableStack_tangerine: "tableStack newTangerineWhistleInstructionSet"
  unfolding newTangerineWhistleInstructionSet_def o_apply by (intro tableStack_price tableStack_homestead)

lemma tableStack_spurious: "tableStack newSpuriousDragonInstructionSet"
  unfolding newSpuriousDragonInstructionSet_def
  by (rule tableStack_dynamic [OF tableStack_tangerine]) (use gasNeeds_memory in \<open>simp add: minItems_def opcodes\<close>)

lemma tableStack_byzantium: "tableStack newByzantiumInstructionSet"
  unfolding newByzantiumInstructionSet_def
  by (intro tableStack_upd tableStack_spurious;
      ((rule operStack_rules(1), simp add: mkOp_def, rule exec_stacks, simp add: mkOp_def, rule stack_needs,
        simp add: mkOp_def, rule stack_needs, simp add: stack_fields opcodes; fail)
    | (rule operStack_rules(2), simp add: mkOp_def, rule exec_stacks, simp add: mkOp_def, rule stack_needs,
       simp add: mkOp_def, rule stack_needs, simp add: stack_fields opcodes)))

lemma tableStack_constantinople: "tableStack newConstantinopleInstructionSet"
  unfolding newConstantinopleInstructionSet_def
  by (intro tableStack_upd tableStack_byzantium;
      ((rule operStack_rules(1), simp add: mkOp_def, rule exec_stacks, simp add: mkOp_def, rule stack_needs,
        simp add: mkOp_def, rule stack_needs, simp add: stack_fields opcodes; fail)
    | (rule operStack_rules(2), simp add: mkOp_def, rule exec_stacks, simp add: mkOp_def, rule stack_needs,
       simp add: mkOp_def, rule stack_needs, simp add: stack_fields opcodes)))

lemma tableStack_enable:
  assumes "tableStack jt"
  shows "tableStack (enable1344 jt)" "tableStack (enable1884 jt)" "tableStack (enable2315 jt)" "tableStack (enable2200 jt)"
  unfolding enable1344_def enable1884_def enable2315_def enable2200_def o_apply
  by (intro tableStack_upd tableStack_price tableStack_dynamic assms;
      ((rule operStack_rules(1), simp add: mkOp_def, rule exec_stacks, simp add: mkOp_def, rule stack_needs,
        simp add: mkOp_def, rule stack_needs, simp add: stack_fields opcodes; fail)
    | (use gasNeeds_storage in \<open>simp add: minItems_def opcodes\<close>)))+

lemma tableStack_sets: "tableStack (instructionSets k)"
  using tableStack_frontier tableStack_homestead tableStack_tangerine tableStack_spurious tableStack_byzantium
    tableStack_constantinople
  by (cases k) (simp_all add: newIstanbulInstructionSet_def newYoloV1InstructionSet_def tableStack_enable)

lemma EnableEIP_stack: "EnableEIP e jt = Inr jt' \<Longrightarrow> tableStack jt \<Longrightarrow> tableStack jt'"
  by (auto simp: EnableEIP_def tableStack_enable split: if_splits)

lemma enableLoop_stack: "enableLoop n i k arr jt = Inr (eips, jt') \<Longrightarrow> tableStack jt \<Longrightarrow> tableStack jt'"
  by (induction n arbitrary: i k arr jt)
    (auto split: sum.splits enableError.splits if_splits dest: EnableEIP_stack)

lemma NewEVMInterpreter_stack: "NewEVMInterpreter instructionSets rules eips = Inr (jt, es, g) \<Longrightarrow> tableStack jt"
  by (auto simp: NewEVMInterpreter_def Let_def rbind_eq_Inr tableStack_sets dest!: enableLoop_stack)

subsection \<open>Runs\<close>

definition stepStack :: "(panic + stepResult) option \<Rightarrow> bool" where
  "stepStack R \<longleftrightarrow> silent R \<and> (\<forall>f m. R = Some (Inr (Next f m)) \<longrightarrow> length (stack f) \<le> 1024)"

lemma stepStack_stop: "stepStack (Some (Inr (Stop ret err f m)))"
  by (simp add: stepStack_def silent_def)

lemma memSizeOf_quiet:
  assumes "memNeeds n (o_memorySize oper)" "n \<le> length st"
  shows "silent (Some (memSizeOf oper st))"
proof (cases "o_memorySize oper")
  case (Some fn)
  with assms have "silent (Some (fn st))" by (simp add: memNeeds_def)
  with Some show ?thesis unfolding memSizeOf_def by simp (intro quiet_rules)
qed (simp add: memSizeOf_def silent_def)

lemma dynGasOf_quiet:
  assumes "gasNeeds n (o_dynamicGas oper)" "n \<le> length (stack f)"
  shows "silent (Some (dynGasOf oper E f sz m))"
proof (cases "o_dynamicGas oper")
  case (Some g)
  with assms have "silent (Some (g E (contract f) (stack f) (memory f) sz m))" by (simp add: gasNeeds_def)
  with Some show ?thesis unfolding dynGasOf_def by (simp add: Let_def) (intro quiet_rules)
qed (simp add: dynGasOf_def silent_def)

lemma dynGasOf_stack:
  assumes "dynGasOf oper E f sz m = Inr (ok, f', m')"
  shows "stack f' = stack f"
proof (cases "o_dynamicGas oper")
  case (Some g)
  with assms obtain mem m1 r where "g E (contract f) (stack f) (memory f) sz m = Inr (mem, m1, r)"
    by (auto simp: dynGasOf_def rbind_eq_Inr)
  with assms Some show ?thesis by (auto simp: dynGasOf_def Let_def split: sum.splits prod.splits)
qed (use assms in \<open>simp add: dynGasOf_def\<close>)

lemma quiet_fbind: "silent r \<Longrightarrow> (\<And>x. r = Some (Inr x) \<Longrightarrow> silent (k x)) \<Longrightarrow> silent (fbind r k)"
  by (auto simp: silent_def fbind_eq_Inl)

lemma execOp_quiet:
  assumes "operStack k oper" "runsQuiet run" "o_minStack oper \<le> length (stack f)"
  shows "silent (execOp oper E run f m)"
proof -
  obtain ok c where u: "UseGas (o_constantGas oper) (contract f) = (ok, c)" by fastforce
  obtain a b where a: "a \<le> o_minStack oper" "execStack a b (o_execute oper)"
    and n: "gasNeeds (o_minStack oper) (o_dynamicGas oper)" "memNeeds (o_minStack oper) (o_memorySize oper)"
    using assms(1) by (auto simp: operStack_def)
  let ?f = "f\<lparr>contract := c\<rparr>"
  have x: "silent (o_execute oper E run f2 m2)" if "stack f2 = stack f" for f2 m2
  proof -
    have "a \<le> length (stack f2)" using a(1) assms(3) that by simp
    with a(2) assms(2) show ?thesis unfolding execStack_def by blast
  qed
  have "silent (fbind (Some (dynGasOf oper E ?f sz m)) (\<lambda>(ok, f, m).
      if \<not> ok then Some (Inr (Stop [] (Some ErrOutOfGas) f m))
      else let f = (if sz > 0 then f\<lparr>memory := Resize sz (memory f)\<rparr> else f)
           in fbind (o_execute oper E run f m) (\<lambda>r. Some (Inr (afterExecute oper r)))))" for sz
    by (rule quiet_fbind [OF dynGasOf_quiet [OF n(1)]])
      (use assms(3) in \<open>auto simp: Let_def intro!: quiet_structure(1,2,4) x dest!: dynGasOf_stack\<close>)
  then show ?thesis
    unfolding execOp_def Let_def u prod.case
    by (intro quiet_rules quiet_fbind [OF memSizeOf_quiet [OF n(2)]])
      (use assms(3) in \<open>auto simp: Let_def split: sum.split intro: quiet_rules\<close>)
qed

lemma execOp_stack:
  assumes "operStack k oper" "runsQuiet run" "o_minStack oper \<le> length (stack f)" "length (stack f) \<le> o_maxStack oper"
  shows "stepStack (execOp oper E run f m)"
proof -
  obtain a b where a: "a \<le> o_minStack oper" "execStack a b (o_execute oper)" and b: "o_maxStack oper + b \<le> 1024 + a"
    using assms(1) by (auto simp: operStack_def)
  have "length (stack f') \<le> 1024" if x: "execOp oper E run f m = Some (Inr (Next f' m'))" for f' m'
    using x
  proof (cases rule: execOp_cases)
    case (exec c sz f1 m1 f2 z)
    obtain f3 m3 ret err where z: "z = (f3, m3, ret, err)" by (cases z)
    then have "err = None" "stack f' = stack f3"
      using exec(6) by (auto simp: afterExecute_def Let_def split: option.splits if_splits)
    moreover have s: "stack f2 = stack f" using dynGasOf_stack [OF exec(3)] exec(4) by simp
    moreover have "a \<le> length (stack f2)" using a(1) assms(3) s by simp
    ultimately have "length (stack f3) + a \<le> length (stack f2) + b"
      using a(2) assms(2) exec(5) z unfolding execStack_def by blast
    with b assms(4) \<open>stack f' = stack f3\<close> s show ?thesis by simp
  qed auto
  with execOp_quiet [OF assms(1-3)] show ?thesis by (simp add: stepStack_def)
qed

lemma dispatch_stack:
  assumes "tableStack jt" "runsQuiet run"
  shows "stepStack (dispatch jt E run f m)"
proof (cases "jt (GetOp (pc f) (contract f))")
  case (Some oper)
  let ?k = "GetOp (pc f) (contract f)"
  have o: "operStack ?k oper" using assms(1) Some by (simp add: tableStack_def)
  show ?thesis
  proof (cases "o_minStack oper \<le> length (stack f) \<and> length (stack f) \<le> o_maxStack oper")
    case True
    have "silent (Some (writeProtected E ?k oper f m))"
      using o True unfolding writeProtected_def
      by (intro quiet_rules) (auto simp: operStack_def minItems_def)
    moreover have "stepStack (execOp oper E run f m)" using True execOp_stack [OF o assms(2)] by simp
    ultimately show ?thesis
      using True Some by (cases "writeProtected E ?k oper f m") (auto simp: dispatch_def stepStack_stop stepStack_def silent_def)
  qed (use Some in \<open>auto simp: dispatch_def Let_def stepStack_stop\<close>)
qed (simp add: dispatch_def stepStack_stop)

lemma step_stack: "tableStack jt \<Longrightarrow> runsQuiet run \<Longrightarrow> stepStack (step jt E run f m)"
  by (simp add: step_def Let_def stepStack_stop dispatch_stack)

lemma Run_quiet: "(\<And>f m. silent (loop f m)) \<Longrightarrow> runsQuiet (Run loop)"
  unfolding runsQuiet_def Run_def by (intro allI quiet_rules)

lemma interp_quiet: "tableStack jt \<Longrightarrow> silent (interp n jt E f m)"
proof (induction n arbitrary: f m)
  case (Suc n)
  then have "silent (step jt E (Run (interp n jt E)) f m)"
    using step_stack [OF _ Run_quiet] by (simp add: stepStack_def)
  with Suc show ?case by (auto intro!: quiet_fbind intro: quiet_rules split: stepResult.split)
qed (simp add: silent_def)

lemma machine_quiet: "tableStack jt \<Longrightarrow> runsQuiet (machine n jt E)"
  unfolding machine_def by (intro Run_quiet interp_quiet)

end
