(* ===== verification/EvmProps.thy ===== *)
theory EvmProps
  imports EvmCreateFail EvmStack
begin

text \<open>
  What the Ethereum virtual machine promises to the code that uses it: calls end, do not create
  gas, and leave no trace when they fail; jumps land on opcodes only.
\<close>

subsection \<open>A concrete machine\<close>

text \<open>
  For concrete runs: 256-bit arithmetic on words, hashes and curve operations that are constant,
  Istanbul rules and the concrete state database of \<^verbatim>\<open>StateProps\<close>.
\<close>

definition demoWords :: uint256lib where
  "demoWords = \<lparr>U_Add = (+), U_Sub = (-), U_Mul = (*), U_Div = (div), U_SDiv = (div), U_Mod = (mod),
     U_SMod = (mod), U_Exp = (\<lambda>x y. x ^ unat y), U_ExtendSign = (\<lambda>x y. y), U_Not = not, U_And = and,
     U_Or = or, U_Xor = xor, U_Byte = (\<lambda>n x. 0), U_AddMod = (\<lambda>x y n. (x + y) mod n),
     U_MulMod = (\<lambda>x y n. (x * y) mod n), U_Lsh = (\<lambda>x n. push_bit n x), U_Rsh = (\<lambda>x n. drop_bit n x),
     U_SRsh = (\<lambda>x n. drop_bit n x), U_Lt = (<), U_Gt = (>), U_Slt = (<), U_Sgt = (>), U_Eq = (=)\<rparr>"

definition demoCrypto :: crypto where
  "demoCrypto = \<lparr>Sum256 = (\<lambda>b. replicate 32 0), ripemd160Sum = (\<lambda>b. replicate 20 0),
     Keccak256 = (\<lambda>b. replicate 32 0), Ecrecover = (\<lambda>h s. Inr (replicate 65 0)),
     bnG1_Unmarshal = (\<lambda>b. Inr []), bnG2_Unmarshal = (\<lambda>b. Inr []), bnG1_Add = (@),
     bnG1_ScalarMult = (\<lambda>p n. p), bnG1_Marshal = (\<lambda>p. replicate 64 0), PairingCheck = (\<lambda>p q. True),
     blake2b_F = (\<lambda>h m c f r. h), blsG1_DecodePoint = (\<lambda>b. Inr []), blsG1_Add = (@),
     blsG1_MulScalar = (\<lambda>p n. p), blsG1_MultiExp = (\<lambda>p n. []), blsG1_MapToCurve = (\<lambda>b. Inr []),
     blsG1_InCorrectSubgroup = (\<lambda>p. True), blsG1_EncodePoint = (\<lambda>p. replicate 128 0),
     blsG2_DecodePoint = (\<lambda>b. Inr []), blsG2_Add = (@), blsG2_MulScalar = (\<lambda>p n. p),
     blsG2_MultiExp = (\<lambda>p n. []), blsG2_MapToCurve = (\<lambda>b. Inr []),
     blsG2_InCorrectSubgroup = (\<lambda>p. True), blsG2_EncodePoint = (\<lambda>p. replicate 256 0), bls_Check = (\<lambda>p. True)\<rparr>"

definition demoRules :: Rules where
  "demoRules = \<lparr>IsHomestead = True, IsEIP150 = True, IsEIP155 = True, IsEIP158 = True, IsByzantium = True,
     IsConstantinople = True, IsPetersburg = True, IsIstanbul = True, IsYoloV1 = False\<rparr>"

definition demoEnv :: env where
  "demoEnv = \<lparr>rdr = demoReader, u256ops = demoWords, cryptoOps = demoCrypto, chainRules = demoRules,
     ChainID = 1, Origin = 1, GasPrice = 1, Coinbase = 7, GasLimit = 8000000, BlockNumber = 10, Time = 1000,
     Difficulty = 131072, GetHash = (\<lambda>n. 0), NoRecursion = False, EnablePreimageRecording = False,
     abort = (\<lambda>n. False)\<rparr>"

definition demoEvm :: evm where
  "demoEvm = NewEVM demoState"

lemma soundState_demo: "soundState demoEnv demoEvm"
  by (simp add: soundState_def demoEnv_def demoEvm_def NewEVM_def hashInj_demo reachable_demoState)

lemma worldOf_demo: "worldOf demoEnv demoEvm = absState demoReader demoState"
  by (simp add: worldOf_def demoEnv_def demoEvm_def NewEVM_def)

subsection \<open>The machines that NewEVMInterpreter builds\<close>

lemma NewEVMInterpreter_tableOk:
  assumes "NewEVMInterpreter instructionSets rules eips = Inr (jt, eips', globals)"
  shows "tableOk jt"
  using assms enableLoop_ok [of _ _ _ _ _ eips' jt] tableOk_sets plainSstore_sets
  by (auto simp: NewEVMInterpreter_def Let_def rbind_eq_Inr)

lemma NewEVMInterpreter_demo:
  "\<exists>jt eips globals. NewEVMInterpreter instructionSets demoRules [2315] = Inr (jt, eips, globals)"
  by (simp add: NewEVMInterpreter_def EnableEIP_def Let_def)

text \<open>
  C16: Every call and every contract creation ends. With the instruction table that
  \<^verbatim>\<open>NewEVMInterpreter\<close> builds for any chain rules and any extra EIPs, more fuel than the gas given to the
  call is always enough for the interpreter, the nested calls included: the result is a value, never
  \<open>None\<close>. Every pass of the loop pays at least one unit of gas or stops the frame, and a nested call
  runs on gas its caller has paid.
\<close>

theorem calls_terminate:
  assumes "NewEVMInterpreter instructionSets rules eips = Inr (jt, eips', globals)" "unat gas < n"
  shows "(\<exists>r. Call E (machine n jt E) caller addr input gas value m = Some r)
    \<and> (\<exists>r. CallCode E (machine n jt E) caller addr input gas value m = Some r)
    \<and> (\<exists>r. DelegateCall E (machine n jt E) caller addr input gas m = Some r)
    \<and> (\<exists>r. StaticCall E (machine n jt E) caller addr input gas m = Some r)
    \<and> (\<exists>r. Create E (machine n jt E) caller input gas value m = Some r)
    \<and> (\<exists>r. Create2 E (machine n jt E) caller input gas value salt m = Some r)"
  using calls_end [OF machine_ends [OF NewEVMInterpreter_tableOk [OF assms(1)]] assms(2)]
    creates_end [OF machine_ends [OF NewEVMInterpreter_tableOk [OF assms(1)]] assms(2)]
  by (simp add: ends_def)

theorem calls_terminate_witness:
  "\<exists>jt eips globals r. NewEVMInterpreter instructionSets demoRules [2315] = Inr (jt, eips, globals)
     \<and> Create demoEnv (machine 21001 jt demoEnv) (AccountRef 1) [0x5b, 0x60, 0, 0x56] 21000 0 demoEvm = Some r"
proof -
  obtain jt eips globals where n: "NewEVMInterpreter instructionSets demoRules [2315] = Inr (jt, eips, globals)"
    using NewEVMInterpreter_demo by blast
  from calls_terminate [OF n, of 21000 21001 demoEnv "AccountRef 1" 0 "[0x5b, 0x60, 0, 0x56]" 0 demoEvm] n
  show ?thesis by auto
qed

text \<open>
  C17: No call returns more gas than it was given. This holds for each kind of call and creation, on every
  outcome the code can return, reverts, failures and precompiled contracts included, and for calls
  nested to any depth, although the callee of a value transfer receives a stipend and
  \<^verbatim>\<open>contract.Gas += returnGas\<close> adds machine integers that could wrap.
\<close>

theorem calls_gas_bounded:
  assumes "NewEVMInterpreter instructionSets rules eips = Inr (jt, eips', globals)"
  shows "(\<forall>ret gas' err m'.
        Call E (machine n jt E) caller addr input gas value m = Some (Inr (ret, gas', err, m'))
      \<or> CallCode E (machine n jt E) caller addr input gas value m = Some (Inr (ret, gas', err, m'))
      \<or> DelegateCall E (machine n jt E) caller addr input gas m = Some (Inr (ret, gas', err, m'))
      \<or> StaticCall E (machine n jt E) caller addr input gas m = Some (Inr (ret, gas', err, m'))
      \<longrightarrow> unat gas' \<le> unat gas)
    \<and> (\<forall>code a gas' err m'.
        Create E (machine n jt E) caller input gas value m = Some (Inr (code, a, gas', err, m'))
      \<or> Create2 E (machine n jt E) caller input gas value salt m = Some (Inr (code, a, gas', err, m'))
      \<longrightarrow> unat gas' \<le> unat gas)"
proof -
  note ok = machine_runsOk [OF NewEVMInterpreter_tableOk [OF assms], of E n]
  note calls = Call_ok [OF ok] CallCode_ok [OF ok] DelegateCall_ok [OF ok] StaticCall_ok [OF ok]
  note creates = Create_ok [OF ok] Create2_ok [OF ok]
  have "unat gas' \<le> unat gas"
    if "Call E (machine n jt E) caller addr input gas value m = Some (Inr (ret, gas', err, m'))
      \<or> CallCode E (machine n jt E) caller addr input gas value m = Some (Inr (ret, gas', err, m'))
      \<or> DelegateCall E (machine n jt E) caller addr input gas m = Some (Inr (ret, gas', err, m'))
      \<or> StaticCall E (machine n jt E) caller addr input gas m = Some (Inr (ret, gas', err, m'))" for ret gas' err m'
    using that by (elim disjE) (use calls in \<open>simp add: callOk_def\<close>)+
  moreover have "unat gas' \<le> unat gas"
    if "Create E (machine n jt E) caller input gas value m = Some (Inr (code, a, gas', err, m'))
      \<or> Create2 E (machine n jt E) caller input gas value salt m = Some (Inr (code, a, gas', err, m'))" for code a gas' err m'
    using that by (elim disjE) (use creates in \<open>simp add: createOk_def\<close>)+
  ultimately show ?thesis by blast
qed

text \<open>The identity contract on one byte, which costs 18.\<close>

lemma precompile_demo: "precompile demoEnv 4 = Some dataCopy"
  by (simp add: precompile_def demoEnv_def demoRules_def PrecompiledContractsIstanbul_def)

lemma Call_identity_demo:
  assumes "depth m = 0" "wordCount input = 1"
  shows "\<exists>m'. Call demoEnv run caller 4 input 100 0 m = Some (Inr (InputSlice, 82, None, m'))"
proof -
  have pre: "runPre demoEnv dataCopy input 100 m = Some (Inr (InputSlice, 82, None, m))" for m
    using assms(2) by (simp add: runPre_def RunPrecompiledContract_def dataCopy_RequiredGas_def dataCopy_Run_def params)
  have "\<not> NoRecursion demoEnv" "\<not> tooDeep m"
    using assms(1) by (simp_all add: demoEnv_def tooDeep_def params)
  then show ?thesis
    by (simp add: Call_def precompile_demo callBody_def pre endCall_def split_def Let_def)
qed

lemma depth_demo: "depth demoEvm = 0" by (simp add: demoEvm_def NewEVM_def)

theorem calls_gas_bounded_witness:
  "\<exists>jt eips globals ret err m'. NewEVMInterpreter instructionSets demoRules [2315] = Inr (jt, eips, globals)
     \<and> Call demoEnv (machine 101 jt demoEnv) (AccountRef 5) 4 [42] 100 0 demoEvm = Some (Inr (ret, 82, err, m'))
     \<and> unat (82 :: u64) \<le> unat (100 :: u64)"
proof -
  obtain jt eips globals where n: "NewEVMInterpreter instructionSets demoRules [2315] = Inr (jt, eips, globals)"
    using NewEVMInterpreter_demo by blast
  obtain m' where c: "Call demoEnv (machine 101 jt demoEnv) (AccountRef 5) 4 [42] 100 0 demoEvm = Some (Inr (InputSlice, 82, None, m'))"
    using Call_identity_demo [OF depth_demo, of "[42]"] by (auto simp: wordCount_def)
  with calls_gas_bounded [OF n, of demoEnv 101 "AccountRef 5" 4 "[42]" 100 0 demoEvm] n show ?thesis by blast
qed

subsection \<open>The operand stack\<close>

text \<open>
  C19: The instruction tables are typed: no instruction reads an operand that is not on the stack, and
  the stack never holds more than 1024 items. For every table that \<^verbatim>\<open>NewEVMInterpreter\<close> builds, no run of
  the interpreter, no call and no creation ends in an index out of range of the stack, nested calls
  included; and from any frame at all, one pass of the loop either stops or leaves at most 1024 items.
\<close>

theorem stack_safe:
  assumes "NewEVMInterpreter instructionSets rules eips = Inr (jt, eips', globals)"
  shows "machine n jt E c input ro m \<noteq> Some (Inl StackPanic)
    \<and> Call E (machine n jt E) caller addr input gas value m \<noteq> Some (Inl StackPanic)
    \<and> Create E (machine n jt E) caller input gas value m \<noteq> Some (Inl StackPanic)
    \<and> step jt E (machine n jt E) f m \<noteq> Some (Inl StackPanic)
    \<and> (\<forall>f' m'. step jt E (machine n jt E) f m = Some (Inr (Next f' m')) \<longrightarrow> length (stack f') \<le> 1024)"
proof -
  note t = NewEVMInterpreter_stack [OF assms]
  note q = machine_quiet [OF t, of n E]
  from step_stack [OF t q] quiet_run [OF q] quiet_calls [OF q] show ?thesis by (simp add: stepStack_def silent_def)
qed

theorem stack_safe_witness:
  "\<exists>jt eips globals. NewEVMInterpreter instructionSets demoRules [2315] = Inr (jt, eips, globals)
     \<and> Create demoEnv (machine 21001 jt demoEnv) (AccountRef 1) [0x01] 21000 0 demoEvm \<noteq> Some (Inl StackPanic)"
proof -
  obtain jt eips globals where n: "NewEVMInterpreter instructionSets demoRules [2315] = Inr (jt, eips, globals)"
    using NewEVMInterpreter_demo by blast
  from stack_safe [OF n, of 21001 demoEnv _ "[0x01]" _ demoEvm "AccountRef 1" 0 21000 0] n show ?thesis by blast
qed

subsection \<open>Failed calls\<close>

text \<open>
  C18: A failed call leaves no trace. When any of the four kinds of call returns an error, whatever the
  code at the address did before it failed (transfers, storage writes, logs, nested calls and
  creations that succeeded, destructed accounts), everything that can be read from the state database is as it was
  before the call: accounts, storage, code, logs, the refund counter and the preimages.
\<close>

theorem failed_call_restores_world:
  assumes "hashInj (rdr E)" "reachable (rdr E) (statedb m)"
    "NewEVMInterpreter instructionSets rules eips = Inr (jt, eips', globals)"
    "Call E (machine n jt E) caller addr input gas value m = Some (Inr (ret, gas', Some e, m'))
     \<or> CallCode E (machine n jt E) caller addr input gas value m = Some (Inr (ret, gas', Some e, m'))
     \<or> DelegateCall E (machine n jt E) caller addr input gas m = Some (Inr (ret, gas', Some e, m'))
     \<or> StaticCall E (machine n jt E) caller addr input gas m = Some (Inr (ret, gas', Some e, m'))"
  shows "absState (rdr E) (statedb m') = absState (rdr E) (statedb m)"
proof -
  note ok = machine_runsOk [OF NewEVMInterpreter_tableOk [OF assms(3)], of E n]
  have sound: "soundState E m" using assms(1,2) by (simp add: soundState_def)
  note fails = Call_fail [OF ok sound] CallCode_fail [OF ok sound] DelegateCall_fail [OF ok sound]
    StaticCall_fail [OF ok sound]
  show ?thesis using assms(4) by (elim disjE) (use fails in \<open>simp add: failOk_def worldOf_def\<close>)+
qed

text \<open>Too little gas for the identity contract, whose account would have been created.\<close>

lemma Call_identity_fails:
  "\<exists>m'. Call demoEnv run (AccountRef 5) 4 [42] 10 0 demoEvm = Some (Inr (OwnBytes [], 0, Some ErrOutOfGas, m'))"
proof -
  have pre: "runPre demoEnv dataCopy [42] 10 m = Some (Inr (OwnBytes [], 0, Some ErrOutOfGas, m))" for m
    by (simp add: runPre_def RunPrecompiledContract_def dataCopy_RequiredGas_def wordCount_def params)
  obtain i m1 where sn: "query Snapshot demoEvm = (i, m1)" by fastforce
  obtain ex m2 where ex: "query (Exist (rdr demoEnv) 4) m1 = (ex, m2)" by fastforce
  have n: "\<not> NoRecursion demoEnv" "\<not> tooDeep demoEvm"
    by (simp_all add: demoEnv_def tooDeep_def demoEvm_def NewEVM_def params)
  show ?thesis
    using endCall_total [OF soundState_demo sn mEffect_enter(2) [OF ex], where err = "Some ErrOutOfGas"]
    by (simp add: Call_def n sn ex precompile_demo callBody_def pre)
qed

theorem failed_call_restores_world_witness:
  "\<exists>jt eips globals gas' m'. NewEVMInterpreter instructionSets demoRules [2315] = Inr (jt, eips, globals)
     \<and> Call demoEnv (machine 11 jt demoEnv) (AccountRef 5) 4 [42] 10 0 demoEvm = Some (Inr (OwnBytes [], gas', Some ErrOutOfGas, m'))
     \<and> absState demoReader (statedb m') = absState demoReader demoState"
proof -
  obtain jt eips globals where n: "NewEVMInterpreter instructionSets demoRules [2315] = Inr (jt, eips, globals)"
    using NewEVMInterpreter_demo by blast
  obtain m' where c: "Call demoEnv (machine 11 jt demoEnv) (AccountRef 5) 4 [42] 10 0 demoEvm = Some (Inr (OwnBytes [], 0, Some ErrOutOfGas, m'))"
    using Call_identity_fails by blast
  have "rdr demoEnv = demoReader" "statedb demoEvm = demoState" by (simp_all add: demoEnv_def demoEvm_def NewEVM_def)
  with failed_call_restores_world [OF _ _ n, of demoEnv demoEvm 11 "AccountRef 5" 4 "[42]" 10 0 "OwnBytes []" 0 ErrOutOfGas m'] n c
    hashInj_demo reachable_demoState
  show ?thesis by fastforce
qed


text \<open>The account 5 has no funds, so it cannot endow the contract it creates.\<close>

lemma Create_demo_poor:
  "\<exists>m'. Create demoEnv run (AccountRef 5) [0] 100 10 demoEvm = Some (Inr ([], 0, 100, Some ErrInsufficientBalance, m'))"
proof -
  have r: "rdr demoEnv = demoReader" by (simp add: demoEnv_def)
  obtain nonce m1 where q: "query (GetNonce demoReader 5) demoEvm = (nonce, m1)" by fastforce
  have "statedb m1 = snd (GetNonce demoReader 5 demoState)" "depth m1 = 0"
    using q by (auto simp: query_eq demoEvm_def NewEVM_def)
  moreover have "\<not> fst (CanTransfer demoReader 5 10 (snd (GetNonce demoReader 5 demoState)))" by code_simp
  ultimately have can: "\<not> fst (query (CanTransfer demoReader 5 10) m1)" "\<not> tooDeep m1"
    by (simp_all add: query_eq tooDeep_def params)
  obtain ok m2 where q2: "query (CanTransfer demoReader 5 10) m1 = (ok, m2)" by fastforce
  show ?thesis using can by (simp add: Create_def r q evm_create_def q2)
qed


subsection \<open>Static calls\<close>

lemma NewEVMInterpreter_tableStill:
  assumes "NewEVMInterpreter instructionSets rules eips = Inr (jt, eips', globals)"
  shows "tableStill jt"
  using assms enableLoop_still [of _ _ _ _ _ eips' jt] tableStill_sets
  by (auto simp: NewEVMInterpreter_def Let_def rbind_eq_Inr)


lemma StaticCall_identity_demo:
  "\<exists>m'. StaticCall demoEnv run (AccountRef 5) 4 [42] 100 demoEvm = Some (Inr (InputSlice, 82, None, m'))"
proof -
  have pre: "runPre demoEnv dataCopy [42] 100 m = Some (Inr (InputSlice, 82, None, m))" for m
    by (simp add: runPre_def RunPrecompiledContract_def dataCopy_RequiredGas_def dataCopy_Run_def wordCount_def params)
  have "\<not> NoRecursion demoEnv" "\<not> tooDeep demoEvm"
    by (simp_all add: demoEnv_def tooDeep_def demoEvm_def NewEVM_def params)
  then show ?thesis
    by (simp add: StaticCall_def precompile_demo pre endCall_def split_def Let_def)
qed


subsection \<open>Jumps\<close>

text \<open>The analyses a contract may find in its caches are those of its own code.\<close>

definition analysisOk :: "Contract \<Rightarrow> evm \<Rightarrow> bool" where
  "analysisOk c m \<longleftrightarrow>
     (\<forall>a. c_analysis c = Some a \<longrightarrow> codeBitmap (c_Code c) = Inr a)
     \<and> (\<forall>a. jumpdests m (c_CodeHash c) = Some a \<longrightarrow> codeBitmap (c_Code c) = Inr a)"

lemma isCode_opcodeAt:
  assumes "analysisOk c m" "unat pos < length (c_Code c)"
  shows "\<exists>c' m'. isCode pos c m = Inr (opcodeAt (c_Code c) (unat pos), c', m') \<and> analysisOk c' m'
    \<and> c_Code c' = c_Code c \<and> c_Gas c' = c_Gas c \<and> statedb m' = statedb m"
proof -
  obtain bits where b: "codeBitmap (c_Code c) = Inr bits"
    "codeSegment bits pos = Inr (opcodeAt (c_Code c) (unat pos))"
    using codeBitmap_correct [of "c_Code c"] assms(2) by blast
  show ?thesis using assms(1) b
    by (cases "c_analysis c"; cases "jumpdests m (c_CodeHash c)") (auto simp: isCode_def analysisOk_def)
qed


text \<open>The code \<^verbatim>\<open>PUSH1 0x5b; JUMPDEST\<close>: the first \<^verbatim>\<open>0x5b\<close> is push data, the second an opcode.\<close>

definition demoContract :: Contract where
  "demoContract = SetCallCode 5 0 [0x60, 0x5b, 0x5b] (fst (NewContract (AccountRef 1) 5 0 100000 demoEvm))"

lemma demoContract_code: "c_Code demoContract = [0x60, 0x5b, 0x5b]"
  by (simp add: demoContract_def SetCallCode_def)

lemma demoContract_ops:
  "\<not> opcodeAt [0x60, 0x5b, 0x5b] 1" "opcodeAt [0x60, 0x5b, 0x5b] 2"
proof -
  have "\<not> sweep [0x60, 0x5b, 0x5b] 0 1" by code_simp
  then show "\<not> opcodeAt [0x60, 0x5b, 0x5b] 1" by (simp add: opcodeAt_sweep)
  have "sweep [0x60, 0x5b, 0x5b] 0 2" by code_simp
  then show "opcodeAt [0x60, 0x5b, 0x5b] 2" by (simp add: opcodeAt_sweep)
qed


subsection \<open>Extra EIPs\<close>

text \<open>What the caller asks for: the EIPs activated one after the other.\<close>

definition activate :: "int \<Rightarrow> JumpTable \<Rightarrow> JumpTable" where
  "activate e jt = (case EnableEIP e jt of Inr jt' \<Rightarrow> jt' | Inl err \<Rightarrow> jt)"

definition pricedTable :: "JumpTable \<Rightarrow> bool" where
  "pricedTable jt \<longleftrightarrow> sharedOps \<subseteq> dom jt"

lemma dom_setOp [simp]: "dom (setOp k g jt) = dom jt"
  by (auto simp: setOp_def dom_def)

lemma dom_enable:
  "dom (enable2200 jt) = dom jt" "dom jt \<subseteq> dom (enable1884 jt)" "dom jt \<subseteq> dom (enable1344 jt)"
  "dom jt \<subseteq> dom (enable2315 jt)"
  by (auto simp: enable2200_def enable1884_def enable1344_def enable2315_def)

lemma pricedTable_steps:
  assumes "pricedTable jt"
  shows "pricedTable (enable2200 jt)" "pricedTable (enable1884 jt)" "pricedTable (enable1344 jt)"
    "pricedTable (enable2315 jt)"
  using assms dom_enable [of jt] by (auto simp: pricedTable_def)

lemma pricedTable_enable:
  assumes "pricedTable jt" "ValidEip e"
  shows "\<exists>jt'. EnableEIP e jt = Inr jt' \<and> pricedTable jt'"
proof -
  have "jt SLOAD \<noteq> None" "jt SSTORE \<noteq> None" "jt BALANCE \<noteq> None" "jt EXTCODEHASH \<noteq> None"
    using assms(1) by (auto simp: pricedTable_def sharedOps_def)
  then show ?thesis using assms(2) pricedTable_steps [OF assms(1)] by (auto simp: EnableEIP_def ValidEip_def)
qed

lemma enableLoop_valid:
  assumes "\<forall>e \<in> set (drop i arr). ValidEip e" "i + n = length arr" "pricedTable jt"
  shows "enableLoop n i (length arr) arr jt = Inr (arr, fold activate (drop i arr) jt)"
  using assms
proof (induction n arbitrary: i jt)
  case (Suc n)
  then have i: "i < length arr" by simp
  then have d: "drop i arr = arr ! i # drop (Suc i) arr" by (simp add: Cons_nth_drop_Suc)
  obtain jt' where jt': "EnableEIP (arr ! i) jt = Inr jt'" "pricedTable jt'"
    using pricedTable_enable [OF Suc.prems(3)] Suc.prems(1) d by auto
  with Suc.IH [of "Suc i" jt'] Suc.prems(1,2) d show ?case by (simp add: activate_def)
qed simp

lemma frontier_state_ops:
  "newFrontierInstructionSet SLOAD = Some (mkOp (plain opSload) SloadGasFrontier (minStack 1 1) (maxStack 1 1))"
  "newFrontierInstructionSet SSTORE \<noteq> None" "newFrontierInstructionSet BALANCE \<noteq> None"
  by (simp_all add: newFrontierInstructionSet_def frontierArith_def frontierEnv_def frontierBlock_def frontierFlow_def opcodes)

lemma pricedTable_constantinople: "pricedTable newConstantinopleInstructionSet"
proof -
  have "{SLOAD, SSTORE, BALANCE} \<subseteq> dom newFrontierInstructionSet" using frontier_state_ops by auto
  then show ?thesis
    by (auto simp: pricedTable_def sharedOps_def newConstantinopleInstructionSet_def newByzantiumInstructionSet_def
      newSpuriousDragonInstructionSet_def newTangerineWhistleInstructionSet_def newHomesteadInstructionSet_def)
qed

lemma pricedTable_sets: "k \<in> {Constantinople, Istanbul, YoloV1} \<Longrightarrow> pricedTable (instructionSets k)"
  using pricedTable_constantinople
  by (auto simp: newYoloV1InstructionSet_def newIstanbulInstructionSet_def pricedTable_steps)

text \<open>
  C23: From Constantinople on, \<^verbatim>\<open>NewEVMInterpreter\<close> activates all extra EIPs in their order when they are
  all known, without a nil dereference, and keeps the list of the configuration.
\<close>

theorem NewEVMInterpreter_valid:
  assumes "IsConstantinople rules \<or> IsIstanbul rules \<or> IsYoloV1 rules" "list_all ValidEip eips"
  shows "\<exists>globals. NewEVMInterpreter instructionSets rules eips =
     Inr (fold activate eips (instructionSets (forkOf rules)), eips, globals)"
proof -
  have "pricedTable (instructionSets (forkOf rules))"
    by (rule pricedTable_sets) (use assms(1) in \<open>auto simp: forkOf_def\<close>)
  from enableLoop_valid [OF _ _ this, where i = 0 and arr = eips and n = "length eips"] assms(2)
  show ?thesis by (simp add: NewEVMInterpreter_def Let_def list_all_iff)
qed

theorem NewEVMInterpreter_valid_witness:
  "\<exists>globals. NewEVMInterpreter instructionSets demoRules [2315, 1344] =
     Inr (fold activate [2315, 1344] (instructionSets (forkOf demoRules)), [2315, 1344], globals)"
  by (rule NewEVMInterpreter_valid) (simp_all add: demoRules_def ValidEip_def)

lemma frontier_BEGINSUB: "newFrontierInstructionSet BEGINSUB = None"
proof -
  have "BEGINSUB \<notin> fst ` set (frontierArith @ frontierEnv @ frontierBlock @ frontierFlow @ frontierPush1
     @ frontierPush2 @ frontierDup @ frontierSwap @ frontierLog @ frontierSystem)"
    by (simp add: frontierArith_def frontierEnv_def frontierBlock_def frontierFlow_def frontierPush1_def
      frontierPush2_def frontierDup_def frontierSwap_def frontierLog_def frontierSystem_def image_Un opcodes)
  then show ?thesis unfolding newFrontierInstructionSet_def by (simp only: map_of_eq_None_iff not_False_eq_True)
qed


definition byzantiumRules :: Rules where
  "byzantiumRules = demoRules\<lparr>IsConstantinople := False, IsPetersburg := False, IsIstanbul := False\<rparr>"


subsection \<open>The identity contract\<close>

text \<open>A frame about to call the identity contract on its memory bytes 0 and 1, the first byte of the
  result to be written over byte 1.\<close>

definition overlapFrame :: frame where
  "overlapFrame = (initFrame demoContract [])\<lparr>stack := [100, 4, 0, 0, 2, 1, 1],
     memory := \<lparr>store = [1, 2] @ replicate 30 0, lastGasCost = 3\<rparr>\<rparr>"


end
