(* ===== verification/OpcodeNames.thy ===== *)
theory OpcodeNames
  imports Opcodes
begin

text \<open>
  The names of the opcodes (\<^verbatim>\<open>core/vm/opcodes.go\<close>): the two Go maps as association lists, and
  the conversions that the assembler, the tracers and error messages use.
\<close>

text \<open>The unofficial opcodes, used by tools only.\<close>

definition PUSH_op :: byte where
  [opcodes]: "PUSH_op = 0xb0"

definition DUP_op :: byte where
  [opcodes]: "DUP_op = 0xb1"

definition SWAP_op :: byte where
  [opcodes]: "SWAP_op = 0xb2"

definition opCodeToString :: "(byte \<times> string) list" where
  "opCodeToString =
     [(STOP, ''STOP''), (ADD, ''ADD''), (MUL, ''MUL''), (SUB, ''SUB''), (DIV, ''DIV''),
      (SDIV, ''SDIV''), (MOD, ''MOD''), (SMOD, ''SMOD''), (EXP, ''EXP''), (NOT_op, ''NOT''),
      (LT, ''LT''), (GT, ''GT''), (SLT, ''SLT''), (SGT, ''SGT''), (EQ, ''EQ''),
      (ISZERO, ''ISZERO''), (SIGNEXTEND, ''SIGNEXTEND''), (AND_op, ''AND''), (OR_op, ''OR''),
      (XOR_op, ''XOR''), (BYTE, ''BYTE''), (SHL, ''SHL''), (SHR, ''SHR''), (SAR, ''SAR''),
      (ADDMOD, ''ADDMOD''), (MULMOD, ''MULMOD''), (SHA3, ''SHA3''), (ADDRESS, ''ADDRESS''),
      (BALANCE, ''BALANCE''), (ORIGIN, ''ORIGIN''), (CALLER, ''CALLER''),
      (CALLVALUE, ''CALLVALUE''), (CALLDATALOAD, ''CALLDATALOAD''),
      (CALLDATASIZE, ''CALLDATASIZE''), (CALLDATACOPY, ''CALLDATACOPY''), (CODESIZE, ''CODESIZE''),
      (CODECOPY, ''CODECOPY''), (GASPRICE, ''GASPRICE''), (EXTCODESIZE, ''EXTCODESIZE''),
      (EXTCODECOPY, ''EXTCODECOPY''), (RETURNDATASIZE, ''RETURNDATASIZE''),
      (RETURNDATACOPY, ''RETURNDATACOPY''), (EXTCODEHASH, ''EXTCODEHASH''),
      (BLOCKHASH, ''BLOCKHASH''), (COINBASE, ''COINBASE''), (TIMESTAMP, ''TIMESTAMP''),
      (NUMBER, ''NUMBER''), (DIFFICULTY, ''DIFFICULTY''), (GASLIMIT, ''GASLIMIT''),
      (CHAINID, ''CHAINID''), (SELFBALANCE, ''SELFBALANCE''), (POP, ''POP''), (MLOAD, ''MLOAD''),
      (MSTORE, ''MSTORE''), (MSTORE8, ''MSTORE8''), (SLOAD, ''SLOAD''), (SSTORE, ''SSTORE''),
      (JUMP, ''JUMP''), (JUMPI, ''JUMPI''), (PC, ''PC''), (MSIZE, ''MSIZE''), (GAS, ''GAS''),
      (JUMPDEST, ''JUMPDEST''), (BEGINSUB, ''BEGINSUB''), (JUMPSUB, ''JUMPSUB''),
      (RETURNSUB, ''RETURNSUB''), (PUSH1, ''PUSH1''), (PUSH2, ''PUSH2''), (PUSH3, ''PUSH3''),
      (PUSH4, ''PUSH4''), (PUSH5, ''PUSH5''), (PUSH6, ''PUSH6''), (PUSH7, ''PUSH7''),
      (PUSH8, ''PUSH8''), (PUSH9, ''PUSH9''), (PUSH10, ''PUSH10''), (PUSH11, ''PUSH11''),
      (PUSH12, ''PUSH12''), (PUSH13, ''PUSH13''), (PUSH14, ''PUSH14''), (PUSH15, ''PUSH15''),
      (PUSH16, ''PUSH16''), (PUSH17, ''PUSH17''), (PUSH18, ''PUSH18''), (PUSH19, ''PUSH19''),
      (PUSH20, ''PUSH20''), (PUSH21, ''PUSH21''), (PUSH22, ''PUSH22''), (PUSH23, ''PUSH23''),
      (PUSH24, ''PUSH24''), (PUSH25, ''PUSH25''), (PUSH26, ''PUSH26''), (PUSH27, ''PUSH27''),
      (PUSH28, ''PUSH28''), (PUSH29, ''PUSH29''), (PUSH30, ''PUSH30''), (PUSH31, ''PUSH31''),
      (PUSH32, ''PUSH32''), (DUP1, ''DUP1''), (DUP2, ''DUP2''), (DUP3, ''DUP3''), (DUP4, ''DUP4''),
      (DUP5, ''DUP5''), (DUP6, ''DUP6''), (DUP7, ''DUP7''), (DUP8, ''DUP8''), (DUP9, ''DUP9''),
      (DUP10, ''DUP10''), (DUP11, ''DUP11''), (DUP12, ''DUP12''), (DUP13, ''DUP13''),
      (DUP14, ''DUP14''), (DUP15, ''DUP15''), (DUP16, ''DUP16''), (SWAP1, ''SWAP1''),
      (SWAP2, ''SWAP2''), (SWAP3, ''SWAP3''), (SWAP4, ''SWAP4''), (SWAP5, ''SWAP5''),
      (SWAP6, ''SWAP6''), (SWAP7, ''SWAP7''), (SWAP8, ''SWAP8''), (SWAP9, ''SWAP9''),
      (SWAP10, ''SWAP10''), (SWAP11, ''SWAP11''), (SWAP12, ''SWAP12''), (SWAP13, ''SWAP13''),
      (SWAP14, ''SWAP14''), (SWAP15, ''SWAP15''), (SWAP16, ''SWAP16''), (LOG0, ''LOG0''),
      (LOG1, ''LOG1''), (LOG2, ''LOG2''), (LOG3, ''LOG3''), (LOG4, ''LOG4''), (CREATE, ''CREATE''),
      (CALL, ''CALL''), (RETURN, ''RETURN''), (CALLCODE, ''CALLCODE''),
      (DELEGATECALL, ''DELEGATECALL''), (CREATE2, ''CREATE2''), (STATICCALL, ''STATICCALL''),
      (REVERT, ''REVERT''), (SELFDESTRUCT, ''SELFDESTRUCT''), (PUSH_op, ''PUSH''),
      (DUP_op, ''DUP''), (SWAP_op, ''SWAP'')]"

definition stringToOp :: "(string \<times> byte) list" where
  "stringToOp =
     [(''STOP'', STOP), (''ADD'', ADD), (''MUL'', MUL), (''SUB'', SUB), (''DIV'', DIV),
      (''SDIV'', SDIV), (''MOD'', MOD), (''SMOD'', SMOD), (''EXP'', EXP), (''NOT'', NOT_op),
      (''LT'', LT), (''GT'', GT), (''SLT'', SLT), (''SGT'', SGT), (''EQ'', EQ),
      (''ISZERO'', ISZERO), (''SIGNEXTEND'', SIGNEXTEND), (''AND'', AND_op), (''OR'', OR_op),
      (''XOR'', XOR_op), (''BYTE'', BYTE), (''SHL'', SHL), (''SHR'', SHR), (''SAR'', SAR),
      (''ADDMOD'', ADDMOD), (''MULMOD'', MULMOD), (''SHA3'', SHA3), (''ADDRESS'', ADDRESS),
      (''BALANCE'', BALANCE), (''ORIGIN'', ORIGIN), (''CALLER'', CALLER),
      (''CALLVALUE'', CALLVALUE), (''CALLDATALOAD'', CALLDATALOAD),
      (''CALLDATASIZE'', CALLDATASIZE), (''CALLDATACOPY'', CALLDATACOPY), (''CHAINID'', CHAINID),
      (''DELEGATECALL'', DELEGATECALL), (''STATICCALL'', STATICCALL), (''CODESIZE'', CODESIZE),
      (''CODECOPY'', CODECOPY), (''GASPRICE'', GASPRICE), (''EXTCODESIZE'', EXTCODESIZE),
      (''EXTCODECOPY'', EXTCODECOPY), (''RETURNDATASIZE'', RETURNDATASIZE),
      (''RETURNDATACOPY'', RETURNDATACOPY), (''EXTCODEHASH'', EXTCODEHASH),
      (''BLOCKHASH'', BLOCKHASH), (''COINBASE'', COINBASE), (''TIMESTAMP'', TIMESTAMP),
      (''NUMBER'', NUMBER), (''DIFFICULTY'', DIFFICULTY), (''GASLIMIT'', GASLIMIT),
      (''SELFBALANCE'', SELFBALANCE), (''POP'', POP), (''MLOAD'', MLOAD), (''MSTORE'', MSTORE),
      (''MSTORE8'', MSTORE8), (''SLOAD'', SLOAD), (''SSTORE'', SSTORE), (''JUMP'', JUMP),
      (''JUMPI'', JUMPI), (''PC'', PC), (''MSIZE'', MSIZE), (''GAS'', GAS),
      (''JUMPDEST'', JUMPDEST), (''BEGINSUB'', BEGINSUB), (''RETURNSUB'', RETURNSUB),
      (''JUMPSUB'', JUMPSUB), (''PUSH1'', PUSH1), (''PUSH2'', PUSH2), (''PUSH3'', PUSH3),
      (''PUSH4'', PUSH4), (''PUSH5'', PUSH5), (''PUSH6'', PUSH6), (''PUSH7'', PUSH7),
      (''PUSH8'', PUSH8), (''PUSH9'', PUSH9), (''PUSH10'', PUSH10), (''PUSH11'', PUSH11),
      (''PUSH12'', PUSH12), (''PUSH13'', PUSH13), (''PUSH14'', PUSH14), (''PUSH15'', PUSH15),
      (''PUSH16'', PUSH16), (''PUSH17'', PUSH17), (''PUSH18'', PUSH18), (''PUSH19'', PUSH19),
      (''PUSH20'', PUSH20), (''PUSH21'', PUSH21), (''PUSH22'', PUSH22), (''PUSH23'', PUSH23),
      (''PUSH24'', PUSH24), (''PUSH25'', PUSH25), (''PUSH26'', PUSH26), (''PUSH27'', PUSH27),
      (''PUSH28'', PUSH28), (''PUSH29'', PUSH29), (''PUSH30'', PUSH30), (''PUSH31'', PUSH31),
      (''PUSH32'', PUSH32), (''DUP1'', DUP1), (''DUP2'', DUP2), (''DUP3'', DUP3), (''DUP4'', DUP4),
      (''DUP5'', DUP5), (''DUP6'', DUP6), (''DUP7'', DUP7), (''DUP8'', DUP8), (''DUP9'', DUP9),
      (''DUP10'', DUP10), (''DUP11'', DUP11), (''DUP12'', DUP12), (''DUP13'', DUP13),
      (''DUP14'', DUP14), (''DUP15'', DUP15), (''DUP16'', DUP16), (''SWAP1'', SWAP1),
      (''SWAP2'', SWAP2), (''SWAP3'', SWAP3), (''SWAP4'', SWAP4), (''SWAP5'', SWAP5),
      (''SWAP6'', SWAP6), (''SWAP7'', SWAP7), (''SWAP8'', SWAP8), (''SWAP9'', SWAP9),
      (''SWAP10'', SWAP10), (''SWAP11'', SWAP11), (''SWAP12'', SWAP12), (''SWAP13'', SWAP13),
      (''SWAP14'', SWAP14), (''SWAP15'', SWAP15), (''SWAP16'', SWAP16), (''LOG0'', LOG0),
      (''LOG1'', LOG1), (''LOG2'', LOG2), (''LOG3'', LOG3), (''LOG4'', LOG4), (''CREATE'', CREATE),
      (''CREATE2'', CREATE2), (''CALL'', CALL), (''RETURN'', RETURN), (''CALLCODE'', CALLCODE),
      (''REVERT'', REVERT), (''SELFDESTRUCT'', SELFDESTRUCT)]"

text \<open>\<^verbatim>\<open>fmt.Sprintf\<close> with \<^verbatim>\<open>%x\<close> on a byte.\<close>

definition hexDigit :: "nat \<Rightarrow> char" where
  "hexDigit n = ''0123456789abcdef'' ! n"

definition hexByte :: "byte \<Rightarrow> string" where
  "hexByte b = (let n = unat b in if n < 16 then [hexDigit n] else [hexDigit (n div 16), hexDigit (n mod 16)])"

definition OpString :: "byte \<Rightarrow> string" where
  "OpString op =
     (case map_of opCodeToString op of
        None \<Rightarrow> ''opcode 0x'' @ hexByte op @ '' not defined''
      | Some str \<Rightarrow> str)"

definition StringToOp :: "string \<Rightarrow> byte" where
  "StringToOp str = (case map_of stringToOp str of None \<Rightarrow> 0 | Some op \<Rightarrow> op)"

definition IsStaticJump :: "byte \<Rightarrow> bool" where
  "IsStaticJump op \<longleftrightarrow> op = JUMP"

subsection \<open>Names and opcodes correspond\<close>

lemma opcodes_distinct: "distinct (map fst opCodeToString)"
  by (simp add: opCodeToString_def opcodes)

lemma names_distinct: "distinct (map fst stringToOp)"
  by (simp add: stringToOp_def)

lemma same_pairs: "list_all (\<lambda>(s, op). (op, s) \<in> set opCodeToString) stringToOp"
  by (simp only: stringToOp_def opCodeToString_def list.pred_inject prod.case list.set insert_iff simp_thms)

lemma official_pairs:
  "list_all (\<lambda>(op, s). op \<in> {PUSH_op, DUP_op, SWAP_op} \<or> (s, op) \<in> set stringToOp) opCodeToString"
  by (simp only: stringToOp_def opCodeToString_def list.pred_inject prod.case list.set insert_iff simp_thms)

text \<open>
  C24: The two tables of opcode names are inverse to each other: \<^verbatim>\<open>StringToOp\<close> finds every opcode the machine has
  from the name that \<^verbatim>\<open>String\<close> prints, and \<^verbatim>\<open>String\<close> prints the name an opcode was found by. The
  three unofficial opcodes have a name that is not found.
\<close>

theorem opcode_names_roundtrip:
  "(op \<in> fst ` set opCodeToString \<longrightarrow> op \<in> {PUSH_op, DUP_op, SWAP_op} \<or> StringToOp (OpString op) = op)
   \<and> (str \<in> fst ` set stringToOp \<longrightarrow> OpString (StringToOp str) = str)"
proof (intro conjI impI)
  assume "op \<in> fst ` set opCodeToString"
  then obtain s where s: "(op, s) \<in> set opCodeToString" by auto
  with opcodes_distinct have "OpString op = s" by (simp add: OpString_def)
  moreover from s official_pairs have "op \<in> {PUSH_op, DUP_op, SWAP_op} \<or> (s, op) \<in> set stringToOp"
    by (auto simp: list_all_iff)
  ultimately show "op \<in> {PUSH_op, DUP_op, SWAP_op} \<or> StringToOp (OpString op) = op"
    using names_distinct by (auto simp: StringToOp_def)
next
  assume "str \<in> fst ` set stringToOp"
  then obtain op where op: "(str, op) \<in> set stringToOp" by auto
  with names_distinct have "StringToOp str = op" by (simp add: StringToOp_def)
  moreover from op same_pairs have "(op, str) \<in> set opCodeToString" by (auto simp: list_all_iff)
  ultimately show "OpString (StringToOp str) = str" using opcodes_distinct by (simp add: OpString_def)
qed

theorem opcode_names_roundtrip_witness:
  "StringToOp (OpString JUMPDEST) = JUMPDEST \<and> OpString (StringToOp ''PUSH7'') = ''PUSH7''"
proof -
  have "JUMPDEST \<in> fst ` set opCodeToString" "''PUSH7'' \<in> fst ` set stringToOp"
    by (simp_all add: opCodeToString_def stringToOp_def)
  with opcode_names_roundtrip [of JUMPDEST "''PUSH7''"] show ?thesis by (simp add: opcodes)
qed

end
