(* ===== verification/StateSupply.thy ===== *)
theory StateSupply
  imports StateStill
begin

text \<open>
  Money. The total supply is the sum of all balances; a world is solvent when no balance is negative. Of
  the operations of the state database, most leave every balance alone (\<open>sameFunds\<close>), a covered
  transfer moves money, and a self-destruct moves or burns it: none creates any (\<open>thrifty\<close>).
\<close>

definition totalSupply :: "world \<Rightarrow> int" where
  "totalSupply w = (\<Sum>a\<in>UNIV. balOf w a)"

definition solvent :: "world \<Rightarrow> bool" where
  "solvent w \<longleftrightarrow> (\<forall>a. 0 \<le> balOf w a)"

definition sameFunds :: "reader \<Rightarrow> StateDB \<Rightarrow> StateDB \<Rightarrow> bool" where
  "sameFunds rd s s' \<longleftrightarrow> calm rd s s'
     \<and> (hashInj rd \<and> reachable rd s \<longrightarrow> (\<forall>a. balOf (absState rd s') a = balOf (absState rd s) a))"

definition thrifty :: "reader \<Rightarrow> StateDB \<Rightarrow> StateDB \<Rightarrow> bool" where
  "thrifty rd s s' \<longleftrightarrow> calm rd s s'
     \<and> (hashInj rd \<and> reachable rd s \<and> solvent (absState rd s) \<longrightarrow>
        solvent (absState rd s') \<and> totalSupply (absState rd s') \<le> totalSupply (absState rd s))"

lemma sameFunds_refl [simp]: "sameFunds rd s s"
  by (simp add: sameFunds_def)

lemma sameFunds_trans: "sameFunds rd s t \<Longrightarrow> sameFunds rd t u \<Longrightarrow> sameFunds rd s u"
  unfolding sameFunds_def by (metis calm_trans calm_reachable)

lemma thrifty_trans: "thrifty rd s t \<Longrightarrow> thrifty rd t u \<Longrightarrow> thrifty rd s u"
  unfolding thrifty_def using calm_trans [of rd s t u] calm_reachable [of rd s t] by auto

lemma sameFunds_thrifty: "sameFunds rd s t \<Longrightarrow> thrifty rd s t"
  by (simp add: sameFunds_def thrifty_def solvent_def totalSupply_def)

lemma still_sameFunds: "still rd s t \<Longrightarrow> sameFunds rd s t"
  by (simp add: still_def sameFunds_def keepsWorld_reads(1))

lemma still_thrifty: "still rd s t \<Longrightarrow> thrifty rd s t"
  by (rule sameFunds_thrifty [OF still_sameFunds])

lemma thrifty_refl [simp]: "thrifty rd s s"
  by (rule still_thrifty) simp

lemma sameFunds_sameWorld:
  "calm rd s t \<Longrightarrow> (hashInj rd \<Longrightarrow> reachable rd s \<Longrightarrow> absState rd t = absState rd s) \<Longrightarrow> sameFunds rd s t"
  by (rule still_sameFunds [OF still_sameWorld])

subsection \<open>Operations that leave balances alone\<close>

lemma balOf_object:
  assumes "GetOrNewStateObject rd a s = (o1, s')" "objectsOk rd s" "hashInj rd"
    "so_address o2 = a" "\<not> deleted o2" "Balance (so_data o2) = Balance (so_data o1)" "absState rd t = absState rd s'"
  shows "balOf (absState rd (setStateObject o2 t)) b = balOf (absState rd s) b"
proof (cases "b = a")
  case True
  then show ?thesis using GetOrNew_balance(1) [OF assms(1-3)] assms(4-6)
    by (simp add: balOf_def [of "absState rd (setStateObject o2 t)"] liveView_setStateObject)
next
  case False
  then show ?thesis using GetOrNew_balance(3) [OF assms(1-3), of b] assms(4,5,7)
    by (simp add: balOf_def liveView_setStateObject)
qed

lemma sameFunds_object:
  assumes "calm rd s u"
    "\<And>o1 s'. GetOrNewStateObject rd a s = (o1, s') \<Longrightarrow> objOk rd o1 \<Longrightarrow>
       \<exists>o2 t. u = setStateObject o2 t \<and> so_address o2 = so_address o1 \<and> deleted o2 = deleted o1
         \<and> Balance (so_data o2) = Balance (so_data o1) \<and> absState rd t = absState rd s'"
  shows "sameFunds rd s u"
proof -
  have "balOf (absState rd u) b = balOf (absState rd s) b" if h: "hashInj rd" "reachable rd s" for b
  proof -
    obtain o1 s' where g: "GetOrNewStateObject rd a s = (o1, s')" by (cases "GetOrNewStateObject rd a s")
    note ok = reachable_objectsOk [OF h(2,1)]
    note sp = GetOrNewStateObject_changes [OF g ok h(1)]
    from assms(2) [OF g sp(6)] obtain o2 t where "u = setStateObject o2 t" "so_address o2 = so_address o1"
      "deleted o2 = deleted o1" "Balance (so_data o2) = Balance (so_data o1)" "absState rd t = absState rd s'" by blast
    with balOf_object [OF g ok h(1)] sp(3,5) show ?thesis by simp
  qed
  with assms(1) show ?thesis by (simp add: sameFunds_def)
qed

lemma sameFunds_setters [simp, intro]:
  "sameFunds rd s (SetNonce rd a n s)" "sameFunds rd s (SetCode rd a c s)" "sameFunds rd s (SetState rd a k v s)"
proof -
  show "sameFunds rd s (SetNonce rd a n s)"
    by (rule sameFunds_object [of _ _ _ a], simp)
      (auto simp: SetNonce_def setNonceObj_def intro!: exI)
  show "sameFunds rd s (SetCode rd a c s)"
  proof (rule sameFunds_object [of _ _ _ a], simp)
    fix o1 s' assume g: "GetOrNewStateObject rd a s = (o1, s')"
    obtain p o2 where c: "CodeObj rd o1 = (p, o2)" by fastforce
    have "so_address o2 = so_address o1" "deleted o2 = deleted o1" "so_data o2 = so_data o1"
      using CodeObj_keeps [of rd o1] c by auto
    with g c show "\<exists>o2 t. SetCode rd a c s = setStateObject o2 t \<and> so_address o2 = so_address o1 \<and> deleted o2 = deleted o1
         \<and> Balance (so_data o2) = Balance (so_data o1) \<and> absState rd t = absState rd s'"
      by (auto simp: SetCode_def setCodeObj_def intro!: exI)
  qed
  show "sameFunds rd s (SetState rd a k v s)"
  proof (rule sameFunds_object [of _ _ _ a], simp)
    fix o1 s' assume g: "GetOrNewStateObject rd a s = (o1, s')" and ok: "objOk rd o1"
    obtain p o2 where c: "GetStateObj rd s' k o1 = (p, o2)" by fastforce
    have "so_address o2 = so_address o1" "deleted o2 = deleted o1" "so_data o2 = so_data o1"
      using GetStateObj_keeps [of rd s' k o1] c by auto
    with g c objOkD [OF ok] show "\<exists>o2 t. SetState rd a k v s = setStateObject o2 t \<and> so_address o2 = so_address o1
         \<and> deleted o2 = deleted o1 \<and> Balance (so_data o2) = Balance (so_data o1) \<and> absState rd t = absState rd s'"
      by (auto simp: SetState_def setStateObj_def intro!: exI split: option.splits)
  qed
qed

lemma balOf_globals [simp]:
  "balOf (w\<lparr>w_refund := r\<rparr>) a = balOf w a" "balOf (w\<lparr>w_logs := l, w_logSize := n\<rparr>) a = balOf w a"
  by (simp_all add: balOf_def liveView_def)

lemma sameFunds_globals [simp, intro]: "sameFunds rd s (AddLog l s)" "sameFunds rd s (AddRefund g s)"
  unfolding sameFunds_def by (intro conjI calm_updates; simp add: AddLog_def AddRefund_def Let_def)+

lemma sameFunds_SubRefund: "SubRefund g s = Some s' \<Longrightarrow> sameFunds rd s s'"
  using calm_SubRefund [of g s s' rd] by (auto simp: sameFunds_def SubRefund_def Let_def split: if_splits)

lemma sameFunds_CreateAccount [simp, intro]: "sameFunds rd s (CreateAccount rd a s)"
proof -
  have "balOf (absState rd (CreateAccount rd a s)) b = balOf (absState rd s) b" if h: "hashInj rd" "reachable rd s" for b
  proof -
    obtain n p u where c: "createObject rd a s = (n, p, u)" by (cases "createObject rd a s") auto
    note ok = reachable_objectsOk [OF h(2,1)]
    note sp = createObject_changes [OF c ok h(1)]
    have o: "liveView (absState rd u) b = liveView (absState rd s) b" if "b \<noteq> a"
      by (rule createObject_world [OF c ok h(1) that])
    have lu: "liveView (absState rd u) a = Some (viewObj rd u (freshObj rd a))"
      using sp(2,3) by (simp add: liveView_def absState_def)
    show ?thesis
    proof (cases p)
      case None
      then have "balOf (absState rd s) a = 0" using sp(4) by (simp add: balOf_def liveView_absState)
      with None c o lu show ?thesis by (cases "b = a") (simp_all add: CreateAccount_def balOf_def viewObj_fresh)
    next
      case (Some q)
      then have "balOf (absState rd s) a = Balance (so_data q)" using sp(4) by (simp add: balOf_def liveView_absState)
      moreover have "so_address (setBalanceObj x n) = a" "\<not> deleted (setBalanceObj x n)" for x
        using sp(3) by (simp_all add: setBalanceObj_def)
      ultimately show ?thesis using Some c o
        by (cases "b = a") (simp_all add: CreateAccount_def balOf_def [of "absState rd (setStateObject x t)" for x t]
          liveView_setStateObject, simp_all add: setBalanceObj_def balOf_def)
    qed
  qed
  then show ?thesis by (simp add: sameFunds_def)
qed

subsection \<open>Operations that move money\<close>

lemma totalSupply_add: "(\<And>b. balOf w' b = balOf w b + (if b = a then x else 0)) \<Longrightarrow> totalSupply w' = totalSupply w + x"
  by (simp add: totalSupply_def sum.distrib)

lemma Transfer_totalSupply:
  assumes "hashInj rd" "reachable rd s"
  shows "totalSupply (absState rd (Transfer rd a b x s)) = totalSupply (absState rd s)"
  using Transfer_balOf [OF reachable_objectsOk [OF assms(2,1)] assms(1)]
  by (simp add: totalSupply_def sum.distrib sum_subtractf)

text \<open>A transfer between accounts, covered by the balance of the sender before the steps that lead to it.\<close>

lemma thrifty_Transfer:
  assumes "sameFunds rd s t" "0 \<le> x" "hashInj rd \<Longrightarrow> reachable rd s \<Longrightarrow> x \<le> balOf (absState rd s) a"
  shows "thrifty rd s (Transfer rd a b x t)"
proof -
  have "solvent (absState rd (Transfer rd a b x t)) \<and>
      totalSupply (absState rd (Transfer rd a b x t)) \<le> totalSupply (absState rd s)"
    if h: "hashInj rd" "reachable rd s" "solvent (absState rd s)"
  proof -
    have c: "calm rd s t" and f: "\<And>c. balOf (absState rd t) c = balOf (absState rd s) c"
      using assms(1) h by (simp_all add: sameFunds_def)
    note r = calm_reachable [OF c h(2)]
    have "0 \<le> balOf (absState rd (Transfer rd a b x t)) c" for c
      using Transfer_balOf [OF reachable_objectsOk [OF r h(1)] h(1), of a b x c] assms(2,3) h f by (auto simp: solvent_def)
    then show ?thesis using Transfer_totalSupply [OF h(1) r] f by (simp add: solvent_def totalSupply_def)
  qed
  moreover have "calm rd s (Transfer rd a b x t)" using assms(1) by (auto simp: sameFunds_def intro: calm_trans)
  ultimately show ?thesis by (simp add: thrifty_def)
qed

lemma Suicide_balOf:
  assumes "objectsOk rd s" "hashInj rd"
  shows "balOf (absState rd (snd (Suicide rd a s))) b = (if b = a then 0 else balOf (absState rd s) b)"
proof -
  obtain r s' where g: "getStateObject rd a s = (r, s')" by (cases "getStateObject rd a s")
  note sp = getStateObject_spec [OF g]
  have w: "absState rd s' = absState rd s" using sp(2) by (simp add: quiet_def)
  show ?thesis
  proof (cases r)
    case None
    then show ?thesis using g w sp(1) by (simp add: Suicide_def balOf_def liveView_absState)
  next
    case (Some o1)
    with sp(1) have l: "peekObj rd s a = Some o1" "\<not> deleted o1" by (auto simp: liveObj_def split: option.splits if_splits)
    then have "so_address o1 = a" using peekObj_ok [OF assms(1) l(1)] by simp
    with l(2) have "so_address (setBalanceObj 0 (o1\<lparr>suicided := True\<rparr>)) = a" "\<not> deleted (setBalanceObj 0 (o1\<lparr>suicided := True\<rparr>))"
      by (simp_all add: setBalanceObj_def)
    then show ?thesis using g Some w
      by (simp add: Suicide_def balOf_def liveView_setStateObject) (simp add: setBalanceObj_def)
  qed
qed

text \<open>Emptying one account into another, which may be the same: the money is then burnt.\<close>

lemma moved_supply:
  fixes f g :: "address \<Rightarrow> int"
  assumes "\<And>c. g c = (if c = a then 0 else f c + (if c = b then f a else 0))" "\<And>c. 0 \<le> f c"
  shows "sum g UNIV \<le> sum f UNIV" "0 \<le> g c"
proof -
  have "sum g UNIV \<le> (\<Sum>c\<in>UNIV. f c + (if c = b then f a else 0) - (if c = a then f a else 0))"
    by (rule sum_mono) (use assms in auto)
  also have "\<dots> = sum f UNIV" by (simp add: sum.distrib sum_subtractf)
  finally show "sum g UNIV \<le> sum f UNIV" .
  show "0 \<le> g c" using assms by simp
qed

text \<open>The three steps of \<^verbatim>\<open>opSuicide\<close>. Money sent to the dying account itself is burnt.\<close>

lemma thrifty_selfdestruct:
  assumes "GetBalance rd a s = (x, s1)"
  shows "thrifty rd s (snd (Suicide rd a (AddBalance rd b x s1)))"
proof -
  let ?t = "AddBalance rd b x s1" and ?u = "snd (Suicide rd a (AddBalance rd b x s1))"
  have c: "calm rd s s1" using calm_queries(3) [of rd s a] assms by simp
  have w: "absState rd s1 = absState rd s" and x: "x = balOf (absState rd s) a"
    using queries_quiet(3) [of rd s a] GetBalance_world [of rd a s] assms by (auto simp: quiet_def)
  have "solvent (absState rd ?u) \<and> totalSupply (absState rd ?u) \<le> totalSupply (absState rd s)"
    if h: "hashInj rd" "reachable rd s" "solvent (absState rd s)"
  proof -
    have r: "reachable rd s1" by (rule calm_reachable [OF c h(2)])
    have r2: "reachable rd ?t" by (rule calm_reachable [OF calm_updates(2) r])
    note t = AddBalance_balOf [OF reachable_objectsOk [OF r h(1)] h(1), of b x]
      and u = Suicide_balOf [OF reachable_objectsOk [OF r2 h(1)] h(1), of a]
    have p: "0 \<le> balOf (absState rd s) c" for c using h(3) by (simp add: solvent_def)
    have "balOf (absState rd ?u) c
        = (if c = a then 0 else balOf (absState rd s) c + (if c = b then balOf (absState rd s) a else 0))" for c
      unfolding u t w by (simp add: x)
    from moved_supply [OF this p] show ?thesis by (simp add: totalSupply_def solvent_def)
  qed
  moreover have "calm rd s ?u" by (rule calm_trans [OF calm_trans [OF c calm_updates(2)] calm_updates(11)])
  ultimately show ?thesis by (simp add: thrifty_def)
qed

end
