(* ===== verification/EvmSupply.thy ===== *)
theory EvmSupply
  imports EvmCreateFail StateSupply
begin

text \<open>
  No execution creates money: the total supply after a call, a creation or a run of the interpreter
  is at most what it was before, and no balance turns negative. Value moves only by transfers that
  \<^verbatim>\<open>CanTransfer\<close> has checked, and by self-destructs.
\<close>

definition thrifts :: "env \<Rightarrow> evm \<Rightarrow> evm \<Rightarrow> bool" where
  "thrifts E m m' \<longleftrightarrow> thrifty (rdr E) (statedb m) (statedb m')"

definition sames :: "env \<Rightarrow> evm \<Rightarrow> evm \<Rightarrow> bool" where
  "sames E m m' \<longleftrightarrow> sameFunds (rdr E) (statedb m) (statedb m')"

lemma thrifts_refl [simp]: "thrifts E m m" and sames_refl [simp]: "sames E m m"
  by (simp_all add: thrifts_def sames_def)

lemma thrifts_trans: "thrifts E m m1 \<Longrightarrow> thrifts E m1 m2 \<Longrightarrow> thrifts E m m2"
  unfolding thrifts_def by (rule thrifty_trans)

lemma sames_trans: "sames E m m1 \<Longrightarrow> sames E m1 m2 \<Longrightarrow> sames E m m2"
  unfolding sames_def by (rule sameFunds_trans)

lemma sames_thrifts: "sames E m m' \<Longrightarrow> thrifts E m m'"
  unfolding thrifts_def sames_def by (rule sameFunds_thrifty)

lemma thrifts_calm: "thrifts E m m' \<Longrightarrow> calm (rdr E) (statedb m) (statedb m')"
  and sames_calm: "sames E m m' \<Longrightarrow> calm (rdr E) (statedb m) (statedb m')"
  by (simp_all add: thrifts_def thrifty_def sames_def sameFunds_def)

lemma stills_sames: "stills E m m' \<Longrightarrow> sames E m m'"
  by (simp add: stills_def sames_def still_sameFunds)

lemma stills_thrifts: "stills E m m' \<Longrightarrow> thrifts E m m'"
  by (rule sames_thrifts [OF stills_sames])

lemma sames_query: "still (rdr E) (statedb m) (snd (q (statedb m))) \<Longrightarrow> query q m = (x, m') \<Longrightarrow> sames E m m'"
  by (rule stills_sames [OF stills_query])

lemma sames_update: "sameFunds (rdr E) (statedb m) (g (statedb m)) \<Longrightarrow> sames E m (update g m)"
  by (simp add: sames_def update_def)

subsection \<open>Calls\<close>

text \<open>The machine in the result of a computation, and rules that follow the structure of one.\<close>

definition yields :: "env \<Rightarrow> ('a \<Rightarrow> evm) \<Rightarrow> evm \<Rightarrow> (panic + 'a) option \<Rightarrow> bool" where
  "yields E sel m R \<longleftrightarrow> (\<forall>x. R = Some (Inr x) \<longrightarrow> thrifts E m (sel x))"

fun callM :: "slice \<times> u64 \<times> vmError option \<times> evm \<Rightarrow> evm" where
  "callM (ret, gas, err, m) = m"

fun createM :: "bytes \<times> address \<times> u64 \<times> vmError option \<times> evm \<Rightarrow> evm" where
  "createM (ret, a, gas, err, m) = m"

fun runM :: "bytes \<times> vmError option \<times> Contract \<times> evm \<Rightarrow> evm" where
  "runM (ret, err, c, m) = m"

definition runsThrifty :: "env \<Rightarrow> runner \<Rightarrow> bool" where
  "runsThrifty E run \<longleftrightarrow> (\<forall>c input ro m. yields E runM m (run c input ro m))"

named_theorems thrift_rules \<open>rules that follow the structure of a call\<close>

lemma yields_mono: "yields E sel m1 R \<Longrightarrow> thrifts E m m1 \<Longrightarrow> yields E sel m R"
  unfolding yields_def by (blast intro: thrifts_trans)

lemma yields_stop [thrift_rules]:
  "yields E callM m (Some (Inr (r, g, e, m)))" "yields E createM m (Some (Inr (code, a, g, e, m)))"
  by (simp_all add: yields_def)

lemma yields_if [thrift_rules]:
  "(b \<Longrightarrow> yields E sel m x) \<Longrightarrow> (\<not> b \<Longrightarrow> yields E sel m y) \<Longrightarrow> yields E sel m (if b then x else y)"
  by simp

lemma yields_query [thrift_rules]:
  assumes "\<And>s. still (rdr E) s (snd (q s))" "\<And>x m1. query q m = (x, m1) \<Longrightarrow> yields E sel m1 (k x m1)"
  shows "yields E sel m (Let (query q m) (\<lambda>(x, m1). k x m1))"
proof -
  obtain x m1 where q: "query q m = (x, m1)" by fastforce
  then show ?thesis using yields_mono [OF assms(2) [OF q] sames_thrifts [OF sames_query [OF assms(1) q]]] by simp
qed

lemma yields_update [thrift_rules]:
  assumes "\<And>s. still (rdr E) s (g s)" "yields E sel (update g m) (k (update g m))"
  shows "yields E sel m (Let (update g m) k)"
  using yields_mono [OF assms(2) stills_thrifts [OF stills_update [of E m g, OF assms(1)]]] by simp

lemma yields_NewContract [thrift_rules]:
  assumes "\<And>c m1. yields E sel m1 (k c m1)"
  shows "yields E sel m (Let (NewContract cl a v g m) (\<lambda>(c, m1). k c m1))"
proof -
  obtain c m1 where c: "NewContract cl a v g m = (c, m1)" by fastforce
  with stills_thrifts [OF stills_NewContract [OF c, of E]] show ?thesis by (auto intro: yields_mono assms)
qed

lemma yields_precompile [thrift_rules]:
  "yields E callM m R \<Longrightarrow> yields E callM m (case p of Some p \<Rightarrow> runPre E p input gas m | None \<Rightarrow> R)"
  by (auto simp: yields_def runPre_def fbind_eq_Inr split: option.split)

lemma yields_AsDelegate [thrift_rules]:
  "(\<And>c'. yields E sel m (k c')) \<Longrightarrow> yields E sel m (fbind (Some (AsDelegate c)) k)"
  by (cases "AsDelegate c") (auto simp: yields_def)

lemma yields_runCode: "runsThrifty E run \<Longrightarrow> yields E callM m (runCode run c input ro m)"
  by (fastforce simp: yields_def runCode_def fbind_eq_Inr runsThrifty_def)

text \<open>Reverting restores the balances.\<close>

lemma thrifts_revert:
  assumes "query Snapshot m = (i, m1)" "thrifts E m1 m2" "revertTo E i m2 = Inr m3"
  shows "sames E m m3"
proof -
  have sn: "Snapshot (statedb m) = (i, statedb m1)" using assms(1) by (auto simp: query_eq)
  from assms(3) have rv: "RevertToSnapshot (rdr E) i (statedb m2) = Some (statedb m3)"
    by (auto simp: revertTo_def split: option.splits)
  have c: "calm (rdr E) (statedb m1) (statedb m2)" using assms(2) by (simp add: thrifts_def thrifty_def)
  show ?thesis
    unfolding sames_def
    by (rule sameFunds_sameWorld [OF calm_undone [OF sn c rv]])
      (use sdb.attempt_calmly(3) [of "rdr E" "statedb m" "statedb m2" True "statedb m3"] c rv sn in simp)
qed

lemma sames_snapshot: "query Snapshot m = (i, m1) \<Longrightarrow> sames E m m1"
  by (rule sames_query [of E m Snapshot i m1]) simp

lemma yields_endCall:
  assumes "query Snapshot m = (i, m1)" "yields E callM m1 R"
  shows "yields E callM m (fbind R (\<lambda>(ret, g, err, m2). endCall E i ret g err m2))"
  unfolding yields_def
proof (intro allI impI)
  fix x assume "fbind R (\<lambda>(ret, g, err, m2). endCall E i ret g err m2) = Some (Inr x)"
  then obtain ret g err m2 where R: "R = Some (Inr (ret, g, err, m2))" and en: "endCall E i ret g err m2 = Some (Inr x)"
    by (auto simp: fbind_eq_Inr)
  have t: "thrifts E m1 m2" using assms(2) R by (auto simp: yields_def)
  show "thrifts E m (callM x)"
  proof (cases "err = None")
    case True
    with en thrifts_trans [OF sames_thrifts [OF sames_snapshot [OF assms(1)]] t] show ?thesis
      by (auto simp: endCall_def)
  next
    case False
    with en obtain m3 where "revertTo E i m2 = Inr m3" "callM x = m3" by (auto simp: endCall_def fbind_eq_Inr)
    with sames_thrifts [OF thrifts_revert [OF assms(1) t]] show ?thesis by simp
  qed
qed

lemma yields_bracket [thrift_rules]:
  assumes "\<And>i m1. query Snapshot m = (i, m1) \<Longrightarrow> yields E callM m1 (R m1)"
  shows "yields E callM m (Let (query Snapshot m)
     (\<lambda>(i, m1). fbind (R m1) (\<lambda>(ret, g, err, m2). endCall E i ret g err m2)))"
proof -
  obtain i m1 where sn: "query Snapshot m = (i, m1)" by fastforce
  with yields_endCall [OF sn assms [OF sn]] show ?thesis by simp
qed

lemma simple_calls_thrifty:
  assumes "runsThrifty E run"
  shows "yields E callM m (DelegateCall E run caller addr input gas m)"
    "yields E callM m (CallCode E run caller addr input gas v m)"
    "yields E callM m (callBody E run caller addr input gas v m)"
  unfolding DelegateCall_def CallCode_def callBody_def
  by (intro thrift_rules yields_runCode [OF assms] still_queries still_GetCodeBytes)+

lemma StaticCall_thrifty:
  assumes "runsThrifty E run"
  shows "yields E callM m (StaticCall E run caller addr input gas m)"
proof -
  have "yields E callM m (Let (query Snapshot m) (\<lambda>(snapshot, m1).
     fbind (let m2 = update (AddBalance (rdr E) addr 0) m1 in case precompile E addr of
             Some p \<Rightarrow> runPre E p input gas m2
           | None \<Rightarrow>
               let (c, m3) = NewContract caller addr 0 gas m2;
                   (h, m4) = query (GetCodeHash (rdr E) addr) m3;
                   (code, m5) = query (GetCodeBytes (rdr E) addr) m4
               in runCode run (SetCallCode addr h code c) input True m5)
           (\<lambda>(ret, gas, err, m). endCall E snapshot ret gas err m)))"
    by (intro thrift_rules yields_runCode [OF assms] still_queries still_touches still_GetCodeBytes)
  then show ?thesis unfolding StaticCall_def by (simp add: Let_def yields_stop)
qed

subsection \<open>Transfers\<close>

text \<open>A payment that the account can make in the state of the machine.\<close>

definition covered :: "env \<Rightarrow> address \<Rightarrow> int \<Rightarrow> evm \<Rightarrow> bool" where
  "covered E a x m \<longleftrightarrow> 0 \<le> x \<and> x \<le> balOf (worldOf E m) a"

lemma covered_CanTransfer:
  assumes "query (CanTransfer (rdr E) a x) m = (True, m1)" "0 \<le> x"
  shows "covered E a x m1"
proof -
  have "absState (rdr E) (statedb m1) = absState (rdr E) (statedb m)"
    using assms(1) CanTransfer_quiet [of "rdr E" "statedb m" a x] by (auto simp: query_eq quiet_def)
  moreover have "x \<le> fst (GetBalance (rdr E) a (statedb m))"
    using assms(1) by (auto simp: query_eq CanTransfer_def split: prod.splits)
  ultimately show ?thesis using assms(2) by (simp add: covered_def worldOf_def GetBalance_world)
qed

lemma covered_snapshot: "query Snapshot m = (i, m1) \<Longrightarrow> covered E a x m1 = covered E a x m"
  by (auto simp: covered_def query_eq Snapshot_def Let_def worldOf_def)

lemma thrifts_Transfer:
  assumes "covered E a x m" "sames E m m'"
  shows "thrifts E m (update (Transfer (rdr E) a b x) m')"
  using thrifty_Transfer [of "rdr E" "statedb m" "statedb m'" x a b] assms
  by (simp add: thrifts_def update_def sames_def covered_def worldOf_def)

lemma Call_thrifty:
  assumes "runsThrifty E run" "0 \<le> value"
  shows "yields E callM m (Call E run caller addr input gas value m)"
proof -
  let ?a = "refAddress caller"
  obtain can m1 where q1: "(if value \<noteq> 0 then query (CanTransfer (rdr E) ?a value) m else (True, m)) = (can, m1)" by fastforce
  obtain i m2 where sn: "query Snapshot m1 = (i, m2)" by fastforce
  obtain ex m3 where ex: "query (Exist (rdr E) addr) m2 = (ex, m3)" by fastforce
  let ?m4 = "if \<not> ex then update (CreateAccount (rdr E) addr) m3 else m3"
  let ?m5 = "update (Transfer (rdr E) ?a addr value) ?m4"
  have s1: "sames E m m1" using q1 by (auto split: if_splits intro: sames_query)
  have s2: "sames E m1 m2" by (rule sames_snapshot [OF sn])
  have s3: "sames E m2 m3" by (rule sames_query [OF _ ex]) simp
  have s4: "sames E m2 ?m4" using sames_trans [OF s3] s3 by (auto intro: sames_update)
  have "thrifts E m2 ?m5" if can
  proof (cases "value = 0")
    case True
    then have "thrifts E ?m4 ?m5" by (intro stills_thrifts stills_update) simp
    with sames_thrifts [OF s4] show ?thesis by (rule thrifts_trans)
  next
    case False
    with that q1 have "covered E ?a value m2" using covered_CanTransfer assms(2) covered_snapshot [OF sn] by simp
    then show ?thesis by (rule thrifts_Transfer [OF _ s4])
  qed
  from yields_endCall [OF sn yields_mono [OF simple_calls_thrifty(3) [OF assms(1)] this]]
  have b: "yields E callM m (fbind (callBody E run caller addr input gas value ?m5)
      (\<lambda>(ret, g, err, m2). endCall E i ret g err m2))" if can
    using that yields_mono [OF _ sames_thrifts [OF s1]] by blast
  have "thrifts E m m1" "thrifts E m m3"
    using sames_thrifts s1 sames_trans [OF s1 sames_trans [OF s2 s3]] by blast+
  then have "yields E callM m (Some (Inr (OwnBytes [], gas, e, m1)))" "yields E callM m (Some (Inr (OwnBytes [], gas, None, m3)))" for e
    by (simp_all add: yields_def)
  with b show ?thesis by (simp add: Call_def q1 sn ex Let_def yields_stop)
qed

subsection \<open>Creations\<close>

lemma endCreate_thrifty:
  assumes "sames E m m5" "query Snapshot m5 = (i, m6)" "calm (rdr E) (statedb m6) (statedb m0)" "thrifts E m m0"
  shows "yields E createM m (endCreate E i a ret err0 c0 m0)"
proof -
  define big where "big \<longleftrightarrow> IsEIP158 (chainRules E) \<and> length ret > MaxCodeSize"
  obtain err c1 m2 where r: "(if err0 = None \<and> \<not> big
             then let (ok, c) = UseGas (of_nat (length ret) * CreateDataGas) c0
                  in if ok then (None, c, update (SetCode (rdr E) a ret) m0)
                     else (Some ErrCodeStoreOutOfGas, c, m0)
             else (err0, c0, m0)) = (err, c1, m2)" by (rule prod_cases3)
  have s: "sames E m0 m2" using r by (auto split: if_splits prod.splits intro: sames_update)
  have t: "thrifts E m m2" by (rule thrifts_trans [OF assms(4) sames_thrifts [OF s]])
  have c: "calm (rdr E) (statedb m6) (statedb m2)" by (rule calm_trans [OF assms(3) sames_calm [OF s]])
  have sn: "Snapshot (statedb m5) = (i, statedb m6)" using assms(2) by (auto simp: query_eq)
  have "thrifts E m m3" if "revertTo E i m2 = Inr m3" for m3
  proof -
    from that have rv: "RevertToSnapshot (rdr E) i (statedb m2) = Some (statedb m3)"
      by (auto simp: revertTo_def split: option.splits)
    have "sames E m5 m3" unfolding sames_def
      by (rule sameFunds_sameWorld [OF calm_undone [OF sn c rv]])
        (use sdb.attempt_calmly(3) [of "rdr E" "statedb m5" "statedb m2" True "statedb m3"] c rv sn in simp)
    with assms(1) show ?thesis by (blast intro: sames_thrifts sames_trans)
  qed
  with t r show ?thesis unfolding endCreate_def big_def [symmetric] yields_def
    by (auto simp: Let_def fbind_eq_Inr split: if_splits prod.splits)
qed

lemma deploy_thrifty:
  assumes "runsThrifty E run" "covered E (refAddress caller) value m" "sames E m m5"
  shows "yields E createM m (deploy E run caller code h gas value addr m5)"
proof -
  obtain i m6 where sn: "query Snapshot m5 = (i, m6)" by fastforce
  let ?m7 = "update (CreateAccount (rdr E) addr) m6"
  let ?m8 = "if IsEIP158 (chainRules E) then update (SetNonce (rdr E) addr 1) ?m7 else ?m7"
  let ?m9 = "update (Transfer (rdr E) (refAddress caller) addr value) ?m8"
  obtain c m10 where c: "NewContract caller addr value gas ?m9 = (c, m10)" by fastforce
  have s7: "sames E m6 ?m7" by (rule sames_update) simp
  have s8: "sames E m6 ?m8" using s7 sames_trans [OF s7] by (auto intro: sames_update)
  have t9: "thrifts E m ?m9"
    by (rule thrifts_Transfer [OF assms(2)]) (use assms(3) sames_snapshot [OF sn] s8 in \<open>blast intro: sames_trans\<close>)
  have n: "stills E ?m9 m10" by (rule stills_NewContract [OF c])
  have t10: "thrifts E m m10" by (rule thrifts_trans [OF t9 stills_thrifts [OF n]])
  have "calm (rdr E) (statedb m6) (statedb ?m9)"
    using s8 by (auto simp: sames_def sameFunds_def update_def intro: calm_trans)
  then have c10: "calm (rdr E) (statedb m6) (statedb m10)" using n by (auto simp: stills_def intro: calm_trans still_calm)
  have "yields E createM m (endCreate E i addr ret err c' m')"
    if "run (SetCodeOptionalHash addr code h c) [] False m10 = Some (Inr (ret, err, c', m'))" for ret err c' m'
  proof -
    have t: "thrifts E m10 m'" using assms(1) that by (fastforce simp: runsThrifty_def yields_def)
    show ?thesis
      by (rule endCreate_thrifty [OF assms(3) sn calm_trans [OF c10 thrifts_calm [OF t]] thrifts_trans [OF t10 t]])
  qed
  then have "yields E createM m (fbind (run (SetCodeOptionalHash addr code h c) [] False m10)
      (\<lambda>(ret, err, c', m'). endCreate E i addr ret err c' m'))"
    unfolding yields_def by (auto simp: fbind_eq_Inr)
  then show ?thesis using t10 by (simp add: deploy_def sn c Let_def) (simp add: yields_def)
qed

lemma evm_create_thrifty:
  assumes "runsThrifty E run" "0 \<le> value"
  shows "yields E createM m (evm_create E run caller code h gas value addr m)"
proof -
  let ?a = "refAddress caller"
  obtain can m1 where q1: "query (CanTransfer (rdr E) ?a value) m = (can, m1)" by fastforce
  obtain nonce m2 where q2: "query (GetNonce (rdr E) ?a) m1 = (nonce, m2)" by fastforce
  let ?m3 = "update (SetNonce (rdr E) ?a (nonce + 1)) m2"
  obtain ch m4 where q4: "query (GetCodeHash (rdr E) addr) ?m3 = (ch, m4)" by fastforce
  obtain an m5 where q5: "query (GetNonce (rdr E) addr) m4 = (an, m5)" by fastforce
  have s1: "sames E m m1" by (rule sames_query [OF _ q1]) simp
  have "sames E m1 m2" by (rule sames_query [OF _ q2]) simp
  moreover have "sames E m2 ?m3" by (rule sames_update) simp
  moreover have "sames E ?m3 m4" by (rule sames_query [OF _ q4]) simp
  moreover have "sames E m4 m5" by (rule sames_query [OF _ q5]) simp
  ultimately have s5: "sames E m1 m5" by (blast intro: sames_trans)
  have "yields E createM m1 (deploy E run caller code h gas value addr m5)" if can
    by (rule deploy_thrifty [OF assms(1) _ s5]) (use covered_CanTransfer q1 that assms(2) in simp)
  then have "yields E createM m (deploy E run caller code h gas value addr m5)" if can
    using that yields_mono [OF _ sames_thrifts [OF s1]] by blast
  moreover have "thrifts E m m1" "thrifts E m m5" using s1 s5 by (blast intro: sames_thrifts sames_trans)+
  ultimately show ?thesis
    by (simp add: evm_create_def q1 q2 q4 q5 Let_def yields_stop) (simp add: yields_def)
qed

lemma creates_thrifty:
  assumes "runsThrifty E run" "0 \<le> value"
  shows "yields E createM m (Create E run caller code gas value m)"
    "yields E createM m (Create2 E run caller code gas value salt m)"
proof -
  show "yields E createM m (Create E run caller code gas value m)"
    unfolding Create_def by (intro thrift_rules still_queries evm_create_thrifty [OF assms])
  show "yields E createM m (Create2 E run caller code gas value salt m)"
    using evm_create_thrifty [OF assms] by (simp add: Create2_def Let_def)
qed

subsection \<open>Instructions\<close>

definition plainThrifty :: "plainFunc \<Rightarrow> bool" where
  "plainThrifty op \<longleftrightarrow> (\<forall>E f m f' m' ret err. op E f m = Inr (f', m', ret, err) \<longrightarrow> thrifts E m m')"

definition execThrifty :: "executionFunc \<Rightarrow> bool" where
  "execThrifty x \<longleftrightarrow> (\<forall>E run f m f' m' ret err. runsThrifty E run \<longrightarrow>
     x E run f m = Some (Inr (f', m', ret, err)) \<longrightarrow> thrifts E m m')"

named_theorems exec_thrifts \<open>instructions that create no money\<close>

lemma execThrifty_plain: "plainThrifty op \<Longrightarrow> execThrifty (plain op)"
  by (simp add: execThrifty_def plainThrifty_def plain_def)

lemma execThrifty_still [exec_thrifts]: "plainStill op \<Longrightarrow> execThrifty (plain op)"
  using stills_thrifts unfolding plainStill_def by (intro execThrifty_plain) (unfold plainThrifty_def, blast)

lemma execThrifty_writes [exec_thrifts]:
  "execThrifty (plain opSstore)" "execThrifty (plain (makeLog n))" "execThrifty (plain opSuicide)"
proof -
  show "execThrifty (plain opSstore)" "execThrifty (plain (makeLog n))"
    by (rule execThrifty_plain, auto simp: plainThrifty_def opSstore_def makeLog_def proceed_def rbind_eq_Inr
        split: list.splits if_splits intro!: sames_thrifts sames_update)+
  have "thrifts E m m'" if "opSuicide E f m = Inr (f', m', ret, err)" for E f m f' m' ret err
  proof -
    obtain x s1 where g: "GetBalance (rdr E) (c_self (contract f)) (statedb m) = (x, s1)" by fastforce
    from that g show ?thesis
      using thrifty_selfdestruct [OF g]
      by (auto simp: opSuicide_def proceed_def query_eq update_def thrifts_def Let_def split: list.splits prod.splits)
  qed
  then show "execThrifty (plain opSuicide)" by (intro execThrifty_plain) (auto simp: plainThrifty_def)
qed

lemma thrifts_afterCall:
  assumes "yields E callM m R" "R = Some (Inr z)" "afterCall io is ro rs st f args z = Inr (f', m', ret, err)"
  shows "thrifts E m m'"
proof -
  obtain r g' e m1 where z: "z = (r, g', e, m1)" by (cases z)
  with assms(1,2) have "thrifts E m m1" by (auto simp: yields_def)
  with afterCall_ok(1) [OF assms(3) [unfolded z]] show ?thesis by simp
qed

lemma execThrifty_calls [exec_thrifts]:
  "execThrifty opCall" "execThrifty opCallCode" "execThrifty opDelegateCall" "execThrifty opStaticCall"
  unfolding execThrifty_def
  by (intro allI impI, elim opCall_stack opCallCode_stack opDelegateCall_stack opStaticCall_stack,
      rule thrifts_afterCall [OF Call_thrifty [OF _ uint_ge_0]] thrifts_afterCall [OF simple_calls_thrifty(1)]
        thrifts_afterCall [OF simple_calls_thrifty(2)] thrifts_afterCall [OF StaticCall_thrifty], assumption+)+

lemma execThrifty_creates [exec_thrifts]: "execThrifty opCreate" "execThrifty opCreate2"
proof -
  have t: "thrifts E m m'" if "yields E createM m R" "R = Some (Inr (a, b, c, d, m'))" for E m R a b c d m'
    using that by (simp add: yields_def)
  show "execThrifty opCreate" unfolding execThrifty_def
  proof (intro allI impI)
    fix E run f m f' m' ret err
    assume r: "runsThrifty E run" and x: "opCreate E run f m = Some (Inr (f', m', ret, err))"
    from x obtain c code g v a b d e where "Create E run c code g (uint (v :: u256)) m = Some (Inr (a, b, d, e, m'))"
      by (auto simp: opCreate_def fbind_eq_Inr Let_def split: list.splits)
    with t [OF creates_thrifty(1) [OF r uint_ge_0]] show "thrifts E m m'" by blast
  qed
  show "execThrifty opCreate2" unfolding execThrifty_def
  proof (intro allI impI)
    fix E run f m f' m' ret err
    assume r: "runsThrifty E run" and x: "opCreate2 E run f m = Some (Inr (f', m', ret, err))"
    from x obtain c code g v s a b d e where "Create2 E run c code g (uint (v :: u256)) s m = Some (Inr (a, b, d, e, m'))"
      by (auto simp: opCreate2_def fbind_eq_Inr Let_def split: list.splits)
    with t [OF creates_thrifty(2) [OF r uint_ge_0]] show "thrifts E m m'" by blast
  qed
qed

subsection \<open>Gas functions\<close>

definition gThrifty :: "env \<Rightarrow> evm \<Rightarrow> 'a gasResult \<Rightarrow> bool" where
  "gThrifty E m R \<longleftrightarrow> (\<forall>mem' m' r. R = Inr (mem', m', r) \<longrightarrow> sames E m m')"

definition gasThrifty :: "gasFunc \<Rightarrow> bool" where
  "gasThrifty g \<longleftrightarrow> (\<forall>E c st mem sz m. gThrifty E m (g E c st mem sz m))"

named_theorems gas_thrifts \<open>gas functions that move no money\<close>

lemma gThrifty_bind:
  assumes "gThrifty E m r" "\<And>x mem1 m1. gThrifty E m1 (k x mem1 m1)"
  shows "gThrifty E m (gbind r k)"
proof (cases r)
  case (Inr x)
  obtain mem1 m1 y where x: "x = (mem1, m1, y)" by (cases x)
  with assms(1) Inr have s: "sames E m m1" by (simp add: gThrifty_def)
  have "sames E m m2" if "sames E m1 m2" for m2 using s that by (rule sames_trans)
  with assms(2) [of m1] Inr x s show ?thesis by (cases y) (auto simp: gThrifty_def)
qed (simp add: gThrifty_def)

lemma gThrifty_basic [gas_thrifts]:
  "gThrifty E m (gret x mem m)" "gThrifty E m (gback n st mem m)" "gThrifty E m (gmemory sz mem m)"
  "gThrifty E m (gskip mem m)" "gThrifty E m (gaddRefund g mem m)" "gThrifty E m (gsubRefund g mem m)"
  by (auto simp: gThrifty_def gret_def gback_def gmemory_def gskip_def gaddRefund_def gsubRefund_def rbind_eq_Inr
      sames_def split: prod.splits option.splits intro: sameFunds_SubRefund)

lemma gThrifty_query: "(\<And>s. still (rdr E) s (snd (q s))) \<Longrightarrow> gThrifty E m (gquery q mem m)"
  unfolding gThrifty_def gquery_def by (auto simp: sames_def split: prod.splits) (metis still_sameFunds snd_conv)

lemma gThrifty_queries [gas_thrifts]:
  "gThrifty E m (gquery (Empty (rdr E) a) mem m)" "gThrifty E m (gquery (Exist (rdr E) a) mem m)"
  "gThrifty E m (gquery (GetBalance (rdr E) a) mem m)" "gThrifty E m (gquery (HasSuicided (rdr E) a) mem m)"
  "gThrifty E m (gquery (GetState (rdr E) a k) mem m)" "gThrifty E m (gquery (GetCommittedState (rdr E) a k) mem m)"
  by (rule gThrifty_query, rule still_queries)+

lemma gThrifty_if [gas_thrifts]: "gThrifty E m x \<Longrightarrow> gThrifty E m y \<Longrightarrow> gThrifty E m (if b then x else y)"
  by simp

lemma gasThrifty_still [gas_thrifts]: "gasStill g \<Longrightarrow> gasThrifty g"
  using stills_sames unfolding gasThrifty_def gThrifty_def gasStill_def gStill_def by blast

lemma gasThrifty_writes [gas_thrifts]:
  "gasThrifty gasSStore" "gasThrifty gasSStoreEIP2200" "gasThrifty gasSelfdestruct" "gasThrifty (makeGasLog n)"
  "gasThrifty gasCreate" "gasThrifty gasCreate2"
  unfolding gasThrifty_def gasSStore_def gasSStoreEIP2200_def gasSelfdestruct_def makeGasLog_def gasCreate_def
    gasCreate2_def pureMemoryGascost_def wordGas_def Let_def
  by (intro allI gThrifty_bind gas_thrifts)+

subsection \<open>Tables\<close>

definition operThrifty :: "operation \<Rightarrow> bool" where
  "operThrifty oper \<longleftrightarrow> execThrifty (o_execute oper) \<and> (case o_dynamicGas oper of None \<Rightarrow> True | Some g \<Rightarrow> gasThrifty g)"

definition tableThrifty :: "JumpTable \<Rightarrow> bool" where
  "tableThrifty jt \<longleftrightarrow> (\<forall>k oper. jt k = Some oper \<longrightarrow> operThrifty oper)"

lemma operThrifty_rules:
  "o_execute oper = x \<Longrightarrow> execThrifty x \<Longrightarrow> o_dynamicGas oper = None \<Longrightarrow> operThrifty oper"
  "o_execute oper = x \<Longrightarrow> execThrifty x \<Longrightarrow> o_dynamicGas oper = Some g \<Longrightarrow> gasThrifty g \<Longrightarrow> operThrifty oper"
  by (auto simp: operThrifty_def)

definition listThrifty :: "(byte \<times> operation) list \<Rightarrow> bool" where
  "listThrifty xs \<longleftrightarrow> (\<forall>(k, oper) \<in> set xs. operThrifty oper)"

lemma listThrifty_simps [simp]:
  "listThrifty []" "listThrifty ((k, oper) # xs) \<longleftrightarrow> operThrifty oper \<and> listThrifty xs"
  "listThrifty (xs @ ys) \<longleftrightarrow> listThrifty xs \<and> listThrifty ys"
  by (auto simp: listThrifty_def)

lemma tableThrifty_steps:
  "listThrifty xs \<Longrightarrow> tableThrifty (map_of xs)"
  "tableThrifty jt \<Longrightarrow> operThrifty oper \<Longrightarrow> tableThrifty (jt(k \<mapsto> oper))"
  "tableThrifty jt \<Longrightarrow> tableThrifty (setOp k (o_constantGas_update (\<lambda>_. p)) jt)"
  "tableThrifty jt \<Longrightarrow> gasThrifty g \<Longrightarrow> tableThrifty (setOp k (o_dynamicGas_update (\<lambda>_. Some g)) jt)"
  by (auto simp: listThrifty_def tableThrifty_def setOp_def operThrifty_def dest!: map_of_SomeD)

lemma tableThrifty_frontier: "tableThrifty newFrontierInstructionSet"
proof -
  have "listThrifty (frontierArith @ frontierEnv @ frontierBlock @ frontierFlow @ frontierPush1 @ frontierPush2
     @ frontierDup @ frontierSwap @ frontierLog @ frontierSystem)"
    unfolding frontierArith_def frontierEnv_def frontierBlock_def frontierFlow_def frontierPush1_def
      frontierPush2_def frontierDup_def frontierSwap_def frontierLog_def frontierSystem_def
      listThrifty_simps append.simps
    by (intro conjI TrueI listThrifty_simps(1);
        ((rule operThrifty_rules(1), simp add: mkOp_def, (rule exec_thrifts; rule plain_stills), simp add: mkOp_def; fail)
         | (rule operThrifty_rules(2), simp add: mkOp_def, (rule exec_thrifts; rule plain_stills), simp add: mkOp_def,
            (rule gas_thrifts; rule gas_stills))))
  then show ?thesis unfolding newFrontierInstructionSet_def by (rule tableThrifty_steps(1))
qed

lemma tableThrifty_homestead: "tableThrifty newHomesteadInstructionSet"
  unfolding newHomesteadInstructionSet_def
  by (rule tableThrifty_steps(2) [OF tableThrifty_frontier], rule operThrifty_rules(2), simp add: mkOp_def,
      rule exec_thrifts, simp add: mkOp_def, (rule gas_thrifts; rule gas_stills))

lemma tableThrifty_tangerine: "tableThrifty newTangerineWhistleInstructionSet"
  unfolding newTangerineWhistleInstructionSet_def o_apply by (intro tableThrifty_steps(3) tableThrifty_homestead)

lemma tableThrifty_spurious: "tableThrifty newSpuriousDragonInstructionSet"
  unfolding newSpuriousDragonInstructionSet_def
  by (rule tableThrifty_steps(4) [OF tableThrifty_tangerine gasThrifty_still], rule gas_stills)

lemma tableThrifty_byzantium: "tableThrifty newByzantiumInstructionSet"
  unfolding newByzantiumInstructionSet_def
  by (intro tableThrifty_steps(2) tableThrifty_spurious;
      ((rule operThrifty_rules(1), simp add: mkOp_def, (rule exec_thrifts; rule plain_stills), simp add: mkOp_def; fail)
       | (rule operThrifty_rules(2), simp add: mkOp_def, (rule exec_thrifts; rule plain_stills), simp add: mkOp_def,
          (rule gas_thrifts; rule gas_stills))))

lemma tableThrifty_constantinople: "tableThrifty newConstantinopleInstructionSet"
  unfolding newConstantinopleInstructionSet_def
  by (intro tableThrifty_steps(2) tableThrifty_byzantium;
      ((rule operThrifty_rules(1), simp add: mkOp_def, (rule exec_thrifts; rule plain_stills), simp add: mkOp_def; fail)
       | (rule operThrifty_rules(2), simp add: mkOp_def, rule exec_thrifts, simp add: mkOp_def, rule gas_thrifts)))

lemma tableThrifty_enable:
  assumes "tableThrifty jt"
  shows "tableThrifty (enable1344 jt)" "tableThrifty (enable1884 jt)" "tableThrifty (enable2315 jt)"
    "tableThrifty (enable2200 jt)"
  unfolding enable1344_def enable1884_def enable2315_def enable2200_def o_apply
  by (intro tableThrifty_steps(2-4) assms gasThrifty_writes;
      (rule operThrifty_rules(1), simp add: mkOp_def, (rule exec_thrifts; rule plain_stills), simp add: mkOp_def))+

lemma tableThrifty_sets: "tableThrifty (instructionSets k)"
  using tableThrifty_frontier tableThrifty_homestead tableThrifty_tangerine tableThrifty_spurious
    tableThrifty_byzantium tableThrifty_constantinople
  by (cases k) (simp_all add: newIstanbulInstructionSet_def newYoloV1InstructionSet_def tableThrifty_enable)

lemma EnableEIP_thrifty: "EnableEIP e jt = Inr jt' \<Longrightarrow> tableThrifty jt \<Longrightarrow> tableThrifty jt'"
  by (auto simp: EnableEIP_def tableThrifty_enable split: if_splits)

lemma enableLoop_thrifty: "enableLoop n i k arr jt = Inr (eips, jt') \<Longrightarrow> tableThrifty jt \<Longrightarrow> tableThrifty jt'"
  by (induction n arbitrary: i k arr jt)
    (auto split: sum.splits enableError.splits if_splits dest: EnableEIP_thrifty)

lemma NewEVMInterpreter_thrifty: "NewEVMInterpreter instructionSets rules eips = Inr (jt, es, g) \<Longrightarrow> tableThrifty jt"
  by (auto simp: NewEVMInterpreter_def Let_def rbind_eq_Inr tableThrifty_sets dest!: enableLoop_thrifty)

subsection \<open>Runs\<close>

fun stepM :: "stepResult \<Rightarrow> evm" where
  "stepM (Next f m) = m"
| "stepM (Stop ret err f m) = m"

lemma dynGasOf_thrifty:
  assumes "dynGasOf oper E f sz m = Inr (ok, f', m')" "operThrifty oper"
  shows "thrifts E m m'"
proof (cases "o_dynamicGas oper")
  case (Some g)
  with assms(1) obtain mem m1 r where g: "g E (contract f) (stack f) (memory f) sz m = Inr (mem, m1, r)"
    by (auto simp: dynGasOf_def rbind_eq_Inr)
  then have "m1 = m'" using assms(1) Some by (auto simp: dynGasOf_def Let_def split: sum.splits prod.splits)
  moreover have "gasThrifty g" using assms(2) Some by (simp add: operThrifty_def)
  ultimately have "sames E m m'" using g unfolding gasThrifty_def gThrifty_def by blast
  then show ?thesis by (rule sames_thrifts)
qed (use assms in \<open>simp add: dynGasOf_def\<close>)

lemma stepM_afterExecute: "statedb (stepM (afterExecute oper (f, m, ret, err))) = statedb m"
  by (auto simp: afterExecute_def Let_def split: option.split)

lemma execOp_thrifty:
  assumes "operThrifty oper" "runsThrifty E run"
  shows "yields E stepM m (execOp oper E run f m)"
  unfolding yields_def
proof (intro allI impI)
  fix r assume "execOp oper E run f m = Some (Inr r)"
  then show "thrifts E m (stepM r)"
  proof (cases rule: execOp_cases)
    case (nodyn c sz f1 m1)
    then show ?thesis using dynGasOf_thrifty [OF nodyn(2) assms(1)] by simp
  next
    case (exec c sz f1 m1 f2 z)
    obtain f3 m3 ret err where z: "z = (f3, m3, ret, err)" by (cases z)
    have "execThrifty (o_execute oper)" using assms(1) by (simp add: operThrifty_def)
    then have "thrifts E m1 m3" using assms(2) exec(5) z unfolding execThrifty_def by blast
    with dynGasOf_thrifty [OF exec(3) assms(1)] have "thrifts E m m3" by (rule thrifts_trans)
    then show ?thesis using exec(6) z stepM_afterExecute [of oper f3 m3 ret err] by (simp add: thrifts_def)
  qed simp_all
qed

lemma step_thrifty:
  assumes "tableThrifty jt" "runsThrifty E run"
  shows "yields E stepM m (step jt E run f m)"
proof -
  have d: "yields E stepM m' (dispatch jt E run f' m')" for f' m'
  proof (cases "jt (GetOp (pc f') (contract f'))")
    case (Some oper)
    then have "operThrifty oper" using assms(1) by (simp add: tableThrifty_def)
    from execOp_thrifty [OF this assms(2)] Some show ?thesis
      by (auto simp: dispatch_def Let_def yields_def fbind_eq_Inr split: if_splits)
  qed (simp add: dispatch_def yields_def)
  have "thrifts E m m'' = thrifts E (m\<lparr>abortLoads := k\<rparr>) m''" for k m'' by (simp add: thrifts_def)
  then show ?thesis using d [of m] d [of "m\<lparr>abortLoads := abortLoads m + 1\<rparr>"]
    by (auto simp: step_def Let_def yields_def thrifts_def)
qed

lemma Run_thrifty:
  assumes "\<And>f m r. loop f m = Some (Inr r) \<Longrightarrow> thrifts E m (snd (snd (snd r)))"
  shows "runsThrifty E (Run loop)"
  unfolding runsThrifty_def yields_def
proof (intro allI impI)
  fix c input ro m x
  assume "Run loop c input ro m = Some (Inr x)"
  then show "thrifts E m (runM x)"
    using assms by (fastforce simp: Run_def Let_def fbind_eq_Inr thrifts_def split: if_splits)
qed

lemma interp_thrifty: "tableThrifty jt \<Longrightarrow> interp n jt E f m = Some (Inr r) \<Longrightarrow> thrifts E m (snd (snd (snd r)))"
proof (induction n arbitrary: f m r)
  case (Suc n)
  then have s: "yields E stepM m (step jt E (Run (interp n jt E)) f m)"
    by (intro step_thrifty Run_thrifty) auto
  from Suc(3) obtain x where x: "step jt E (Run (interp n jt E)) f m = Some (Inr x)" by (auto simp: fbind_eq_Inr)
  with s have t: "thrifts E m (stepM x)" by (simp add: yields_def)
  show ?case
  proof (cases x)
    case (Next f' m')
    with Suc(3) x have "interp n jt E f' m' = Some (Inr r)" by simp
    from Suc(1) [OF Suc(2) this] t Next show ?thesis by (auto intro: thrifts_trans)
  next
    case (Stop ret err f' m')
    with Suc(3) x t show ?thesis by auto
  qed
qed simp

lemma machine_thrifty: "tableThrifty jt \<Longrightarrow> runsThrifty E (machine n jt E)"
  unfolding machine_def by (rule Run_thrifty) (rule interp_thrifty)

end
