(* ===== verification/Transition.thy ===== *)
theory Transition
  imports EvmRun
begin

text \<open>
  Applying a message to the state (\<^verbatim>\<open>core/state_transition.go\<close>, \<^verbatim>\<open>core/gaspool.go\<close>): buying the gas,
  the intrinsic gas, the call or creation, the refund and the fee of the miner.

  \<^verbatim>\<open>st.state\<close> is the database of the machine \<^verbatim>\<open>st.evm\<close>, so the model keeps the machine only. An error
  of the consensus rules is \<open>Inl\<close> in the value that \<^verbatim>\<open>TransitionDb\<close> returns.
\<close>

subsection \<open>The gas pool\<close>

datatype coreError =
    ErrNonceTooLow
  | ErrNonceTooHigh
  | ErrGasLimitReached
  | ErrInsufficientFundsForTransfer
  | ErrInsufficientFunds
  | CoreErrGasUintOverflow
  | ErrIntrinsicGas

type_synonym GasPool = u64

definition AddGas :: "u64 \<Rightarrow> GasPool \<Rightarrow> panic + GasPool" where
  "AddGas amount gp = (if gp > - 1 - amount then Inl GasPoolPanic else Inr (gp + amount))"

definition SubGas :: "u64 \<Rightarrow> GasPool \<Rightarrow> coreError + GasPool" where
  "SubGas amount gp = (if gp < amount then Inl ErrGasLimitReached else Inr (gp - amount))"

subsection \<open>Messages and transitions\<close>

record Message =
  msg_From :: address
  msg_To :: "address option"
  msg_GasPrice :: int
  msg_Gas :: u64
  msg_Value :: int
  msg_Nonce :: u64
  msg_CheckNonce :: bool
  msg_Data :: bytes

record StateTransition =
  st_gp :: GasPool
  st_msg :: Message
  st_gas :: u64
  st_gasPrice :: int
  st_initialGas :: u64
  st_value :: int
  st_data :: bytes
  st_evm :: evm

record ExecutionResult =
  UsedGas :: u64
  ExecErr :: "vmError option"
  ReturnData :: bytes

definition Failed :: "ExecutionResult \<Rightarrow> bool" where
  "Failed result \<longleftrightarrow> ExecErr result \<noteq> None"

definition ReturnOf :: "ExecutionResult \<Rightarrow> bytes" where
  "ReturnOf result = (if ExecErr result \<noteq> None then [] else ReturnData result)"

definition RevertOf :: "ExecutionResult \<Rightarrow> bytes" where
  "RevertOf result = (if ExecErr result \<noteq> Some ErrExecutionReverted then [] else ReturnData result)"

definition IntrinsicGas :: "bytes \<Rightarrow> bool \<Rightarrow> bool \<Rightarrow> bool \<Rightarrow> coreError + u64" where
  "IntrinsicGas data contractCreation isHomestead isEIP2028 =
     (let gas = (if contractCreation \<and> isHomestead then TxGasContractCreation else TxGas)
      in if length data > 0
         then let nz = of_nat (length (filter (\<lambda>byt. byt \<noteq> 0) data));
                  nonZeroGas = (if isEIP2028 then TxDataNonZeroGasEIP2028 else TxDataNonZeroGasFrontier)
              in if (- 1 - gas) div nonZeroGas < nz then Inl CoreErrGasUintOverflow
                 else let gas = gas + nz * nonZeroGas;
                          z = of_nat (length data) - nz
                      in if (- 1 - gas) div TxDataZeroGas < z then Inl CoreErrGasUintOverflow
                         else Inr (gas + z * TxDataZeroGas)
         else Inr gas)"

definition NewStateTransition :: "evm \<Rightarrow> Message \<Rightarrow> GasPool \<Rightarrow> StateTransition" where
  "NewStateTransition evm msg gp =
     \<lparr>st_gp = gp, st_msg = msg, st_gas = 0, st_gasPrice = msg_GasPrice msg, st_initialGas = 0,
      st_value = msg_Value msg, st_data = msg_Data msg, st_evm = evm\<rparr>"

text \<open>\<^verbatim>\<open>buyGas\<close> and \<^verbatim>\<open>preCheck\<close> return the error, if any, and the transition.\<close>

definition buyGas :: "env \<Rightarrow> StateTransition \<Rightarrow> coreError option \<times> StateTransition" where
  "buyGas E st =
     (let from = msg_From (st_msg st);
          mgval = int (unat (msg_Gas (st_msg st))) * st_gasPrice st;
          (balance, m) = query (GetBalance (rdr E) from) (st_evm st)
      in if balance < mgval then (Some ErrInsufficientFunds, st\<lparr>st_evm := m\<rparr>)
         else case SubGas (msg_Gas (st_msg st)) (st_gp st) of
                Inl e \<Rightarrow> (Some e, st\<lparr>st_evm := m\<rparr>)
              | Inr gp \<Rightarrow> (None, st\<lparr>st_gp := gp, st_gas := st_gas st + msg_Gas (st_msg st),
                    st_initialGas := msg_Gas (st_msg st), st_evm := update (SubBalance (rdr E) from mgval) m\<rparr>))"

definition preCheck :: "env \<Rightarrow> StateTransition \<Rightarrow> coreError option \<times> StateTransition" where
  "preCheck E st =
     (if msg_CheckNonce (st_msg st)
      then let (nonce, m) = query (GetNonce (rdr E) (msg_From (st_msg st))) (st_evm st);
               st = st\<lparr>st_evm := m\<rparr>
           in if nonce < msg_Nonce (st_msg st) then (Some ErrNonceTooHigh, st)
              else if nonce > msg_Nonce (st_msg st) then (Some ErrNonceTooLow, st)
              else buyGas E st
      else buyGas E st)"

definition gasUsed :: "StateTransition \<Rightarrow> u64" where
  "gasUsed st = st_initialGas st - st_gas st"

definition refundGas :: "env \<Rightarrow> StateTransition \<Rightarrow> panic + StateTransition" where
  "refundGas E st0 =
     (let refund = gasUsed st0 div 2;
          counter = GetRefund (statedb (st_evm st0));
          refund = (if refund > counter then counter else refund);
          st = st0\<lparr>st_gas := st_gas st0 + refund\<rparr>;
          remaining = int (unat (st_gas st)) * st_gasPrice st;
          m = update (AddBalance (rdr E) (msg_From (st_msg st)) remaining) (st_evm st)
      in rbind (AddGas (st_gas st) (st_gp st)) (\<lambda>gp. Inr (st\<lparr>st_evm := m, st_gp := gp\<rparr>)))"

text \<open>The end of \<^verbatim>\<open>TransitionDb\<close>: the refund and the fee.\<close>

definition settle :: "env \<Rightarrow> bytes \<Rightarrow> vmError option \<Rightarrow> StateTransition \<Rightarrow> panic + ExecutionResult \<times> StateTransition" where
  "settle E ret vmerr st0 =
     rbind (refundGas E st0) (\<lambda>st.
       let fee = int (unat (gasUsed st)) * st_gasPrice st
       in Inr (\<lparr>UsedGas = gasUsed st, ExecErr = vmerr, ReturnData = ret\<rparr>,
               st\<lparr>st_evm := update (AddBalance (rdr E) (Coinbase E) fee) (st_evm st)\<rparr>))"

text \<open>The middle of \<^verbatim>\<open>TransitionDb\<close>: the creation or the call.\<close>

definition execute :: "env \<Rightarrow> runner \<Rightarrow> StateTransition \<Rightarrow> (panic + bytes \<times> vmError option \<times> StateTransition) option" where
  "execute E run st =
     (let msg = st_msg st; sender = AccountRef (msg_From msg)
      in case msg_To msg of
           None \<Rightarrow>
             fbind (Create E run sender (st_data st) (st_gas st) (st_value st) (st_evm st)) (\<lambda>(ret, addr, gas, err, m).
               Some (Inr (ret, err, st\<lparr>st_gas := gas, st_evm := m\<rparr>)))
         | Some to \<Rightarrow>
             let (nonce, m1) = query (GetNonce (rdr E) (refAddress sender)) (st_evm st);
                 m2 = update (SetNonce (rdr E) (msg_From msg) (nonce + 1)) m1
             in fbind (Call E run sender to (st_data st) (st_gas st) (st_value st) m2) (\<lambda>(ret, gas, err, m).
                  Some (Inr (sliceBytes (st_data st) ret, err, st\<lparr>st_gas := gas, st_evm := m\<rparr>))))"

definition TransitionDb ::
    "env \<Rightarrow> runner \<Rightarrow> StateTransition \<Rightarrow> (panic + (coreError + ExecutionResult) \<times> StateTransition) option" where
  "TransitionDb E run st0 =
     (case preCheck E st0 of
        (Some e, st) \<Rightarrow> Some (Inr (Inl e, st))
      | (None, st) \<Rightarrow>
          let msg = st_msg st
          in case IntrinsicGas (st_data st) (msg_To msg = None) (IsHomestead (chainRules E)) (IsIstanbul (chainRules E)) of
               Inl e \<Rightarrow> Some (Inr (Inl e, st))
             | Inr gas \<Rightarrow>
                 if st_gas st < gas then Some (Inr (Inl ErrIntrinsicGas, st))
                 else
                   let st = st\<lparr>st_gas := st_gas st - gas\<rparr>;
                       (can, m) = (if msg_Value msg > 0
                                   then query (CanTransfer (rdr E) (msg_From msg) (msg_Value msg)) (st_evm st)
                                   else (True, st_evm st));
                       st = st\<lparr>st_evm := m\<rparr>
                   in if \<not> can then Some (Inr (Inl ErrInsufficientFundsForTransfer, st))
                      else fbind (execute E run st) (\<lambda>(ret, vmerr, st).
                           fbind (Some (settle E ret vmerr st)) (\<lambda>(result, st). Some (Inr (Inr result, st)))))"

definition ApplyMessage ::
    "env \<Rightarrow> runner \<Rightarrow> evm \<Rightarrow> Message \<Rightarrow> GasPool \<Rightarrow> (panic + (coreError + ExecutionResult) \<times> StateTransition) option" where
  "ApplyMessage E run evm msg gp = TransitionDb E run (NewStateTransition evm msg gp)"

end
