(* ===== verification/Bloom.thy ===== *)
theory Bloom
  imports StateDB
begin

text \<open>
  The log bloom filters (\<^verbatim>\<open>core/types/bloom9.go\<close>): 256 bytes, in which three bits are set for every
  address and topic of a log. The Keccak hash is the argument \<open>sha\<close>.
\<close>

unbundle bit_operations_syntax

type_synonym Bloom = bytes

definition BloomByteLength :: nat where
  "BloomByteLength = 256"

definition emptyBloom :: Bloom where
  "emptyBloom = replicate BloomByteLength 0"

text \<open>\<open>None\<close> is the panic on too many bytes.\<close>

definition Bloom_SetBytes :: "bytes \<Rightarrow> Bloom \<Rightarrow> Bloom option" where
  "Bloom_SetBytes d b =
     (if length b < length d then None else Some (take (BloomByteLength - length d) b @ d))"

definition BytesToBloom :: "bytes \<Rightarrow> Bloom option" where
  "BytesToBloom b = Bloom_SetBytes b emptyBloom"

text \<open>The byte index and the bit for the two bytes of the hash at \<open>k\<close>.\<close>

definition bloomIndex :: "bytes \<Rightarrow> nat \<Rightarrow> nat" where
  "bloomIndex hashbuf k =
     BloomByteLength - unat (drop_bit 3 ((push_bit 8 (ucast (hashbuf ! k)) OR ucast (hashbuf ! (k + 1)) :: 16 word) AND 0x7ff)) - 1"

definition bloomBit :: "bytes \<Rightarrow> nat \<Rightarrow> byte" where
  "bloomBit hashbuf k = push_bit (unat (hashbuf ! (k + 1) AND 0x7)) 1"

definition bloomValues :: "(bytes \<Rightarrow> hash) \<Rightarrow> bytes \<Rightarrow> (nat \<times> byte) \<times> (nat \<times> byte) \<times> (nat \<times> byte)" where
  "bloomValues sha data =
     (let hashbuf = take 6 (hashBytes (sha data))
      in ((bloomIndex hashbuf 0, bloomBit hashbuf 0), (bloomIndex hashbuf 2, bloomBit hashbuf 2),
          (bloomIndex hashbuf 4, bloomBit hashbuf 4)))"

definition orAt :: "nat \<times> byte \<Rightarrow> Bloom \<Rightarrow> Bloom" where
  "orAt iv b = (case iv of (i, v) \<Rightarrow> b[i := b ! i OR v])"

definition Bloom_Add :: "(bytes \<Rightarrow> hash) \<Rightarrow> bytes \<Rightarrow> Bloom \<Rightarrow> Bloom" where
  "Bloom_Add sha d b = (case bloomValues sha d of (x1, x2, x3) \<Rightarrow> orAt x3 (orAt x2 (orAt x1 b)))"

definition hasBit :: "Bloom \<Rightarrow> nat \<times> byte \<Rightarrow> bool" where
  "hasBit b iv = (case iv of (i, v) \<Rightarrow> v = v AND b ! i)"

definition Bloom_Test :: "(bytes \<Rightarrow> hash) \<Rightarrow> Bloom \<Rightarrow> bytes \<Rightarrow> bool" where
  "Bloom_Test sha b topic = (case bloomValues sha topic of (x1, x2, x3) \<Rightarrow> hasBit b x1 \<and> hasBit b x2 \<and> hasBit b x3)"

definition addLog :: "(bytes \<Rightarrow> hash) \<Rightarrow> Log \<Rightarrow> Bloom \<Rightarrow> Bloom" where
  "addLog sha log bin = fold (\<lambda>t. Bloom_Add sha (hashBytes t)) (log_Topics log) (Bloom_Add sha (addrBytes (log_Address log)) bin)"

definition LogsBloom :: "(bytes \<Rightarrow> hash) \<Rightarrow> Log list \<Rightarrow> Bloom" where
  "LogsBloom sha ls = fold (addLog sha) ls emptyBloom"

text \<open>\<^verbatim>\<open>CreateBloom\<close> on the logs of the receipts.\<close>

definition CreateBloom :: "(bytes \<Rightarrow> hash) \<Rightarrow> Log list list \<Rightarrow> Bloom" where
  "CreateBloom sha receipts = fold (\<lambda>ls. fold (addLog sha) ls) receipts emptyBloom"

definition Bloom9 :: "bytes \<Rightarrow> bytes option" where
  "Bloom9 data = Bloom_SetBytes data emptyBloom"

definition BloomLookup :: "(bytes \<Rightarrow> hash) \<Rightarrow> Bloom \<Rightarrow> bytes \<Rightarrow> bool" where
  "BloomLookup sha bin topic = Bloom_Test sha bin topic"

subsection \<open>Filters as sets of bits\<close>

definition setBits :: "Bloom \<Rightarrow> (nat \<times> nat) set" where
  "setBits b = {(i, n). i < length b \<and> bit (b ! i) n}"

definition bitsOf :: "nat \<times> byte \<Rightarrow> (nat \<times> nat) set" where
  "bitsOf iv = {fst iv} \<times> {n. bit (snd iv) n}"

definition valueBits :: "(bytes \<Rightarrow> hash) \<Rightarrow> bytes \<Rightarrow> (nat \<times> nat) set" where
  "valueBits sha d = (case bloomValues sha d of (x1, x2, x3) \<Rightarrow> bitsOf x1 \<union> bitsOf x2 \<union> bitsOf x3)"

lemma bloomIndex_less: "bloomIndex h k < 256"
  by (simp add: bloomIndex_def BloomByteLength_def)

lemma length_orAt [simp]: "length (orAt iv b) = length b"
  by (simp add: orAt_def split: prod.split)

lemma setBits_orAt: "fst iv < length b \<Longrightarrow> setBits (orAt iv b) = setBits b \<union> bitsOf iv"
  by (auto simp: setBits_def orAt_def bitsOf_def bit_or_iff nth_list_update split: prod.splits if_splits)

lemma and_absorb_iff: "v = v AND w \<longleftrightarrow> (\<forall>n. bit v n \<longrightarrow> bit w n)" for v w :: byte
proof
  show "v = v AND w \<Longrightarrow> \<forall>n. bit v n \<longrightarrow> bit w n" by (metis bit_and_iff)
  show "\<forall>n. bit v n \<longrightarrow> bit w n \<Longrightarrow> v = v AND w" by (rule bit_word_eqI) (auto simp: bit_and_iff)
qed

lemma hasBit_iff: "fst iv < length b \<Longrightarrow> hasBit b iv \<longleftrightarrow> bitsOf iv \<subseteq> setBits b"
  by (cases iv) (auto simp: hasBit_def setBits_def bitsOf_def and_absorb_iff)

lemma length_Bloom_Add [simp]: "length (Bloom_Add sha d b) = length b"
  by (simp add: Bloom_Add_def split: prod.split)

lemma bloomValues_index:
  "bloomValues sha d = (x1, x2, x3) \<Longrightarrow> fst x1 < 256 \<and> fst x2 < 256 \<and> fst x3 < 256"
  by (auto simp: bloomValues_def Let_def bloomIndex_less)

lemma setBits_Add: "length b = 256 \<Longrightarrow> setBits (Bloom_Add sha d b) = setBits b \<union> valueBits sha d"
  using bloomValues_index [of sha d]
  by (auto simp: Bloom_Add_def valueBits_def setBits_orAt split: prod.splits)

lemma Test_iff: "length b = 256 \<Longrightarrow> Bloom_Test sha b d \<longleftrightarrow> valueBits sha d \<subseteq> setBits b"
  using bloomValues_index [of sha d]
  by (auto simp: Bloom_Test_def valueBits_def hasBit_iff split: prod.splits)

definition logItems :: "Log \<Rightarrow> bytes set" where
  "logItems log = insert (addrBytes (log_Address log)) (hashBytes ` set (log_Topics log))"

lemma fold_Add:
  "length b = 256 \<Longrightarrow> length (fold (\<lambda>t. Bloom_Add sha (f t)) ts b) = 256
     \<and> setBits (fold (\<lambda>t. Bloom_Add sha (f t)) ts b) = setBits b \<union> (\<Union>t\<in>set ts. valueBits sha (f t))"
  by (induction ts arbitrary: b) (auto simp: setBits_Add)

lemma addLog_bits:
  "length b = 256 \<Longrightarrow> length (addLog sha l b) = 256
     \<and> setBits (addLog sha l b) = setBits b \<union> (\<Union>d\<in>logItems l. valueBits sha d)"
  using fold_Add [where b = "Bloom_Add sha (addrBytes (log_Address l)) b" and f = hashBytes]
  by (auto simp: addLog_def logItems_def setBits_Add)

lemma addLogs_bits:
  "length b = 256 \<Longrightarrow> length (fold (addLog sha) ls b) = 256
     \<and> setBits (fold (addLog sha) ls b) = setBits b \<union> (\<Union>l\<in>set ls. \<Union>d\<in>logItems l. valueBits sha d)"
  by (induction ls arbitrary: b) (auto simp: addLog_bits)

lemma empty_bits [simp]: "setBits emptyBloom = {}" "length emptyBloom = 256"
  by (auto simp: setBits_def emptyBloom_def BloomByteLength_def)

lemma CreateBloom_concat: "CreateBloom sha rs = LogsBloom sha (concat rs)"
proof -
  have "fold (\<lambda>ls. fold (addLog sha) ls) rs b = fold (addLog sha) (concat rs) b" for b
    by (induction rs arbitrary: b) auto
  then show ?thesis by (simp add: CreateBloom_def LogsBloom_def)
qed

text \<open>
  C33: A filter has no false negatives and says exactly what its bits say: \<^verbatim>\<open>CreateBloom\<close> over the receipts
  of a block sets the bits of the addresses and topics of all their logs and no others, so \<^verbatim>\<open>BloomLookup\<close>
  finds every address and topic of every log, and it accepts an item only if each bit of the item comes
  from some logged item. The filter of the block also contains the filter of each receipt.
\<close>

theorem bloom_no_false_negatives:
  "setBits (CreateBloom sha receipts) = (\<Union>ls\<in>set receipts. \<Union>l\<in>set ls. \<Union>d\<in>logItems l. valueBits sha d)
   \<and> (\<forall>ls l d. ls \<in> set receipts \<longrightarrow> l \<in> set ls \<longrightarrow> d \<in> logItems l \<longrightarrow> BloomLookup sha (CreateBloom sha receipts) d)
   \<and> (\<forall>ls d. ls \<in> set receipts \<longrightarrow> BloomLookup sha (LogsBloom sha ls) d \<longrightarrow> BloomLookup sha (CreateBloom sha receipts) d)"
proof -
  note b = addLogs_bits [OF empty_bits(2), of sha]
  have l: "length (CreateBloom sha receipts) = 256" "length (LogsBloom sha ls) = 256" for ls
    using b by (simp_all add: CreateBloom_concat LogsBloom_def)
  have s: "setBits (CreateBloom sha receipts) = (\<Union>ls\<in>set receipts. \<Union>l\<in>set ls. \<Union>d\<in>logItems l. valueBits sha d)"
    "setBits (LogsBloom sha ls) = (\<Union>l\<in>set ls. \<Union>d\<in>logItems l. valueBits sha d)" for ls
    using b by (auto simp: CreateBloom_concat LogsBloom_def)
  have "BloomLookup sha (CreateBloom sha receipts) d" if "ls \<in> set receipts" "l \<in> set ls" "d \<in> logItems l" for ls l d
    unfolding BloomLookup_def Test_iff [OF l(1)] s using that by blast
  moreover have "setBits (LogsBloom sha ls) \<subseteq> setBits (CreateBloom sha receipts)" if "ls \<in> set receipts" for ls
    unfolding s using that by blast
  then have "BloomLookup sha (CreateBloom sha receipts) d" if "ls \<in> set receipts" "BloomLookup sha (LogsBloom sha ls) d" for ls d
    using that l by (simp add: BloomLookup_def Test_iff order_trans)
  ultimately show ?thesis using s(1) by (intro conjI allI impI)
qed

definition demoSha :: "bytes \<Rightarrow> hash" where
  "demoSha d = of_nat (from_be d) * 2 ^ 240"

definition demoLog :: Log where
  "demoLog = \<lparr>log_Address = 7, log_Topics = [258], log_Data = [], log_BlockNumber = 1, log_TxHash = 0, log_TxIndex = 0,
     log_BlockHash = 0, log_Index = 0\<rparr>"

theorem bloom_no_false_negatives_witness:
  "BloomLookup demoSha (CreateBloom demoSha [[demoLog]]) (addrBytes 7)
   \<and> BloomLookup demoSha (CreateBloom demoSha [[demoLog]]) (hashBytes 258)"
  using bloom_no_false_negatives [of demoSha "[[demoLog]]"] by (simp add: logItems_def demoLog_def)


end
