(* ===== verification/BlockProcess.thy ===== *)
theory BlockProcess
  imports Transition Bloom
begin

text \<open>
  Processing a block (\<^verbatim>\<open>core/state_processor.go\<close>, \<^verbatim>\<open>core/evm.go\<close>, \<^verbatim>\<open>consensus/misc/dao.go\<close>): every transaction
  becomes a message, runs on a new machine over the same database and leaves a receipt.

  Arguments: the sender recovery of the signer (\<open>Sender\<close>), the state root (\<open>IntermediateRoot\<close>), the block
  rewards (\<open>engineFinalize\<close>), the order in which Go visits the dirty accounts, the hash of a transaction, and the
  table of addresses of \<^verbatim>\<open>params/dao.go\<close>.
\<close>

record Transaction =
  AccountNonce :: u64
  Price :: int
  tx_GasLimit :: u64
  Recipient :: "address option"
  Amount :: int
  Payload :: bytes
  tx_Hash :: hash

record Receipt =
  PostState :: bytes
  Status :: u64
  CumulativeGasUsed :: u64
  rc_Bloom :: Bloom
  rc_Logs :: "Log list"
  rc_TxHash :: hash
  ContractAddress :: address
  GasUsed :: u64
  rc_BlockHash :: hash
  rc_BlockNumber :: int
  TransactionIndex :: u64

record processor =
  Sender :: "Transaction \<Rightarrow> string + address"
  IntermediateRoot :: "bool \<Rightarrow> StateDB \<Rightarrow> bytes \<times> StateDB"
  dirtyOrder :: "StateDB \<Rightarrow> address list"
  engineFinalize :: "StateDB \<Rightarrow> StateDB"
  runnerOf :: "env \<Rightarrow> runner"
  daoFork :: bool
  DAORefundContract :: address
  DAODrainList :: "address list"

datatype applyError = SenderError string | MessageError coreError

definition AsMessage :: "processor \<Rightarrow> Transaction \<Rightarrow> string + Message" where
  "AsMessage P tx =
     rbind (Sender P tx) (\<lambda>from.
       Inr \<lparr>msg_From = from, msg_To = Recipient tx, msg_GasPrice = Price tx, msg_Gas = tx_GasLimit tx,
            msg_Value = Amount tx, msg_Nonce = AccountNonce tx, msg_CheckNonce = True, msg_Data = Payload tx\<rparr>)"

text \<open>The context of a message: all but the origin and the gas price comes from the header.\<close>

definition NewEVMContext :: "env \<Rightarrow> Message \<Rightarrow> env" where
  "NewEVMContext E msg = E\<lparr>Origin := msg_From msg, GasPrice := msg_GasPrice msg\<rparr>"

definition NewReceipt :: "bytes \<Rightarrow> bool \<Rightarrow> u64 \<Rightarrow> Receipt" where
  "NewReceipt root failed cumulativeGasUsed =
     \<lparr>PostState = root, Status = (if failed then 0 else 1), CumulativeGasUsed = cumulativeGasUsed,
      rc_Bloom = emptyBloom, rc_Logs = [], rc_TxHash = 0, ContractAddress = 0, GasUsed = 0, rc_BlockHash = 0,
      rc_BlockNumber = 0, TransactionIndex = 0\<rparr>"

definition GetLogs :: "hash \<Rightarrow> StateDB \<Rightarrow> Log list" where
  "GetLogs h s = (case logs s h of None \<Rightarrow> [] | Some l \<Rightarrow> l)"

definition receiptOf :: "env \<Rightarrow> bytes \<Rightarrow> ExecutionResult \<Rightarrow> u64 \<Rightarrow> Message \<Rightarrow> Transaction \<Rightarrow> StateDB \<Rightarrow> Receipt" where
  "receiptOf E root result usedGas msg tx s =
     (let r = (NewReceipt root (Failed result) usedGas)
            \<lparr>rc_TxHash := tx_Hash tx, GasUsed := UsedGas result,
             ContractAddress := (if msg_To msg = None then CreateAddress (rdr E) (Origin E) (AccountNonce tx) else 0),
             rc_Logs := GetLogs (tx_Hash tx) s\<rparr>
      in r\<lparr>rc_Bloom := CreateBloom (keccak (rdr E)) [rc_Logs r], rc_BlockHash := bhash s,
           rc_BlockNumber := BlockNumber E, TransactionIndex := of_int (txIndex s)\<rparr>)"

type_synonym applyResult = "(panic + (applyError + Receipt) \<times> GasPool \<times> StateDB \<times> u64) option"

definition ApplyTransaction ::
    "processor \<Rightarrow> env \<Rightarrow> GasPool \<Rightarrow> StateDB \<Rightarrow> Transaction \<Rightarrow> u64 \<Rightarrow> applyResult" where
  "ApplyTransaction P E0 gp s0 tx usedGas =
     (case AsMessage P tx of
        Inl e \<Rightarrow> Some (Inr (Inl (SenderError e), gp, s0, usedGas))
      | Inr msg \<Rightarrow>
          let E = NewEVMContext E0 msg
          in fbind (ApplyMessage E (runnerOf P E) (NewEVM s0) msg gp) (\<lambda>(r, st).
               case r of
                 Inl e \<Rightarrow> Some (Inr (Inl (MessageError e), st_gp st, statedb (st_evm st), usedGas))
               | Inr result \<Rightarrow>
                   let s1 = statedb (st_evm st);
                       (root, s2) = (if IsByzantium (chainRules E)
                                     then ([], Finalise (rdr E) (dirtyOrder P s1) True s1)
                                     else IntermediateRoot P (IsEIP158 (chainRules E)) s1);
                       usedGas = usedGas + UsedGas result
                   in Some (Inr (Inr (receiptOf E root result usedGas msg tx s2), st_gp st, s2, usedGas))))"

definition ApplyDAOHardFork :: "processor \<Rightarrow> reader \<Rightarrow> StateDB \<Rightarrow> StateDB" where
  "ApplyDAOHardFork P rd s0 =
     (let (ex, s1) = Exist rd (DAORefundContract P) s0;
          s2 = (if \<not> ex then CreateAccount rd (DAORefundContract P) s1 else s1)
      in fold (\<lambda>addr s. let (b, s) = GetBalance rd addr s
                         in SetBalance rd addr 0 (AddBalance rd (DAORefundContract P) b s)) (DAODrainList P) s2)"

text \<open>The loop over the transactions of the block, from the one with index \<open>i\<close> on.\<close>

fun processTxs ::
    "processor \<Rightarrow> env \<Rightarrow> hash \<Rightarrow> nat \<Rightarrow> GasPool \<Rightarrow> StateDB \<Rightarrow> u64 \<Rightarrow> Transaction list \<Rightarrow>
     (panic + (applyError + Receipt list) \<times> GasPool \<times> StateDB \<times> u64) option" where
  "processTxs P E bh i gp s usedGas [] = Some (Inr (Inr [], gp, s, usedGas))"
| "processTxs P E bh i gp s usedGas (tx # txs) =
     fbind (ApplyTransaction P E gp (Prepare (tx_Hash tx) bh (int i) s) tx usedGas) (\<lambda>(r, gp, s, usedGas).
       case r of
         Inl e \<Rightarrow> Some (Inr (Inl e, gp, s, usedGas))
       | Inr receipt \<Rightarrow>
           fbind (processTxs P E bh (Suc i) gp s usedGas txs) (\<lambda>(r, gp, s, usedGas).
             Some (Inr (case r of Inl e \<Rightarrow> Inl e | Inr receipts \<Rightarrow> Inr (receipt # receipts), gp, s, usedGas))))"

definition Process ::
    "processor \<Rightarrow> env \<Rightarrow> hash \<Rightarrow> Transaction list \<Rightarrow> StateDB \<Rightarrow>
     (panic + (applyError + Receipt list \<times> Log list \<times> u64) \<times> StateDB) option" where
  "Process P E bh txs s0 =
     fbind (Some (AddGas (GasLimit E) 0)) (\<lambda>gp.
       let s = (if daoFork P then ApplyDAOHardFork P (rdr E) s0 else s0)
       in fbind (processTxs P E bh 0 gp s 0 txs) (\<lambda>(r, gp, s, usedGas).
            Some (Inr (case r of
                         Inl e \<Rightarrow> (Inl e, s)
                       | Inr receipts \<Rightarrow> (Inr (receipts, concat (map rc_Logs receipts), usedGas), engineFinalize P s)))))"

end
