(* ===== verification/TransitionProps.thy ===== *)
theory TransitionProps
  imports EvmProps EvmSupply BlockProcess
begin

text \<open>
  What a transaction does to gas and money, and what a block of them does: the accounting of
  \<^verbatim>\<open>state_transition.go\<close> around the calls of the machine.
\<close>

subsection \<open>Gas\<close>

lemma SubGas_Inr: "SubGas g gp = Inr gp' \<Longrightarrow> unat gp' + unat g = unat gp"
  by (auto simp: SubGas_def not_less word_le_nat_alt unat_sub split: if_splits)

lemma above_max: "gp > - 1 - g \<longleftrightarrow> 2 ^ 64 \<le> unat gp + unat g" for g gp :: u64
proof -
  have "unat (- 1 - g) = 2 ^ 64 - 1 - unat g"
    by (subst unat_sub) (simp_all add: unsigned_minus_1_eq_mask mask_eq_exp_minus_1)
  then show ?thesis using unsigned_less [of g, where ?'a = nat] by (simp add: word_less_nat_alt) linarith
qed

lemma AddGas_Inr: "AddGas g gp = Inr gp' \<Longrightarrow> unat gp' = unat gp + unat g"
  by (auto simp: AddGas_def above_max unat_word_ariths split: if_splits)

lemma AddGas_ok: "unat gp + unat g < 2 ^ 64 \<Longrightarrow> AddGas g gp = Inr (gp + g)"
  by (simp add: AddGas_def above_max)

text \<open>The gas that a message buys before it runs.\<close>

lemma preCheck_ok:
  assumes "preCheck E (NewStateTransition m msg gp) = (None, st)"
  shows "st_gas st = msg_Gas msg" "st_initialGas st = msg_Gas msg" "unat (st_gp st) + unat (msg_Gas msg) = unat gp"
    "st_msg st = msg" "st_gasPrice st = msg_GasPrice msg" "st_value st = msg_Value msg" "st_data st = msg_Data msg"
  using assms SubGas_Inr [of "msg_Gas msg" gp]
  by (auto simp: preCheck_def buyGas_def NewStateTransition_def Let_def split: if_splits prod.splits sum.splits)

lemma execute_fields:
  assumes "execute E run st = Some (Inr (ret, err, st'))"
  shows "st_initialGas st' = st_initialGas st" "st_gp st' = st_gp st" "st_msg st' = st_msg st"
    "st_gasPrice st' = st_gasPrice st"
  using assms by (auto simp: execute_def fbind_eq_Inr Let_def split: option.splits prod.splits)

lemma execute_gas:
  assumes "runsOk E run" "execute E run st = Some (Inr (ret, err, st'))"
  shows "unat (st_gas st') \<le> unat (st_gas st)"
  using assms(2) Call_ok [OF assms(1)] Create_ok [OF assms(1)]
  by (fastforce simp: execute_def fbind_eq_Inr Let_def callOk_def createOk_def split: option.splits prod.splits)

lemma refund_bounds:
  fixes gas g r :: u64
  assumes "unat g \<le> unat gas" "r \<le> (gas - g) div 2"
  shows "unat (g + r) = unat g + unat r" "unat g + unat r \<le> unat gas" "2 * unat r \<le> unat gas - unat g"
proof -
  have u: "unat (gas - g) = unat gas - unat g" using assms(1) by (simp add: unat_sub word_le_nat_alt)
  show r: "2 * unat r \<le> unat gas - unat g" using assms(2) u by (simp add: word_le_nat_alt unat_div)
  then show "unat g + unat r \<le> unat gas" using assms(1) by linarith
  then have "unat g + unat r < 2 ^ 64" using unsigned_less [of gas, where ?'a = nat] by simp
  then show "unat (g + r) = unat g + unat r" by (simp add: unat_word_ariths)
qed

lemma settle_ok:
  assumes "settle E ret err st0 = Inr (res, st')" "unat (st_gas st0) \<le> unat (st_initialGas st0)"
  shows "unat (UsedGas res) \<le> unat (st_initialGas st0) - unat (st_gas st0)"
    "unat (st_initialGas st0) - unat (st_gas st0) \<le> 2 * unat (UsedGas res)"
    "unat (st_gp st') = unat (st_gp st0) + unat (st_initialGas st0) - unat (UsedGas res)"
    "st_evm st' = update (AddBalance (rdr E) (Coinbase E) (int (unat (UsedGas res)) * st_gasPrice st0))
       (update (AddBalance (rdr E) (msg_From (st_msg st0))
          (int (unat (st_initialGas st0) - unat (UsedGas res)) * st_gasPrice st0)) (st_evm st0))"
proof -
  define r where "r = (if gasUsed st0 div 2 > GetRefund (statedb (st_evm st0)) then GetRefund (statedb (st_evm st0))
    else gasUsed st0 div 2)"
  have "r \<le> (st_initialGas st0 - st_gas st0) div 2" by (auto simp: r_def gasUsed_def)
  note b = refund_bounds [OF assms(2) this]
  from assms(1) obtain gp where gp: "AddGas (st_gas st0 + r) (st_gp st0) = Inr gp"
    and st': "st' = st0\<lparr>st_gas := st_gas st0 + r, st_gp := gp,
        st_evm := update (AddBalance (rdr E) (Coinbase E) (int (unat (st_initialGas st0 - (st_gas st0 + r))) * st_gasPrice st0))
          (update (AddBalance (rdr E) (msg_From (st_msg st0)) (int (unat (st_gas st0 + r)) * st_gasPrice st0)) (st_evm st0))\<rparr>"
    and u: "UsedGas res = st_initialGas st0 - (st_gas st0 + r)"
    unfolding settle_def refundGas_def Let_def r_def [symmetric] by (auto simp: rbind_eq_Inr gasUsed_def)
  have u': "unat (UsedGas res) = unat (st_initialGas st0) - (unat (st_gas st0) + unat r)"
    using u b by (simp add: unat_sub word_le_nat_alt)
  show "unat (UsedGas res) \<le> unat (st_initialGas st0) - unat (st_gas st0)" using u' by linarith
  show "unat (st_initialGas st0) - unat (st_gas st0) \<le> 2 * unat (UsedGas res)" using u' b(2,3) by linarith
  show "unat (st_gp st') = unat (st_gp st0) + unat (st_initialGas st0) - unat (UsedGas res)"
    using AddGas_Inr [OF gp] st' u' b(1,2) by simp
  have "unat (st_gas st0 + r) = unat (st_initialGas st0) - unat (UsedGas res)" using u' b(1,2) by linarith
  then show "st_evm st' = update (AddBalance (rdr E) (Coinbase E) (int (unat (UsedGas res)) * st_gasPrice st0))
       (update (AddBalance (rdr E) (msg_From (st_msg st0))
          (int (unat (st_initialGas st0) - unat (UsedGas res)) * st_gasPrice st0)) (st_evm st0))"
    using st' u by simp
qed

lemma settle_total:
  assumes "unat (st_gas st0) \<le> unat (st_initialGas st0)" "unat (st_gp st0) + unat (st_initialGas st0) < 2 ^ 64"
  shows "\<exists>x. settle E ret err st0 = Inr x"
proof -
  have "(if gasUsed st0 div 2 > c then c else gasUsed st0 div 2) \<le> (st_initialGas st0 - st_gas st0) div 2" for c
    by (auto simp: gasUsed_def)
  note b = refund_bounds [OF assms(1) this]
  have "unat (st_gp st0) + unat (st_gas st0 + (if gasUsed st0 div 2 > c then c else gasUsed st0 div 2)) < 2 ^ 64" for c
    using assms(2) b(1,2) [of c] by linarith
  from AddGas_ok [OF this] show ?thesis
    by (simp add: settle_def refundGas_def Let_def)
qed

lemma ApplyMessage_cases:
  assumes "ApplyMessage E run m msg gp = Some (Inr (r, st'))"
  obtains (unpaid) e where "preCheck E (NewStateTransition m msg gp) = (Some e, st')" "r = Inl e"
  | (paid) st e where "preCheck E (NewStateTransition m msg gp) = (None, st)" "r = Inl e"
      "e \<in> {CoreErrGasUintOverflow, ErrIntrinsicGas, ErrInsufficientFundsForTransfer}"
      "st_gp st' = st_gp st" "stills E (st_evm st) (st_evm st')"
  | (run) st ig m1 ret err st2 res where "preCheck E (NewStateTransition m msg gp) = (None, st)"
      "IntrinsicGas (msg_Data msg) (msg_To msg = None) (IsHomestead (chainRules E)) (IsIstanbul (chainRules E)) = Inr ig"
      "ig \<le> st_gas st" "stills E (st_evm st) m1"
      "execute E run (st\<lparr>st_gas := st_gas st - ig, st_evm := m1\<rparr>) = Some (Inr (ret, err, st2))"
      "settle E ret err st2 = Inr (res, st')" "r = Inr res"
proof -
  obtain pe st where pc: "preCheck E (NewStateTransition m msg gp) = (pe, st)" by fastforce
  show thesis
  proof (cases pe)
    case (Some e)
    with assms pc show thesis by (intro unpaid) (auto simp: ApplyMessage_def TransitionDb_def)
  next
    case None
    note f = preCheck_ok [OF pc [unfolded None]]
    let ?I = "IntrinsicGas (msg_Data msg) (msg_To msg = None) (IsHomestead (chainRules E)) (IsIstanbul (chainRules E))"
    obtain can m1 where q: "(if msg_Value msg > 0 then query (CanTransfer (rdr E) (msg_From msg) (msg_Value msg)) (st_evm st)
        else (True, st_evm st)) = (can, m1)" by fastforce
    have s: "stills E (st_evm st) m1" using q by (auto split: if_splits intro: stills_query)
    show thesis
    proof (cases ?I)
      case (Inl e)
      then have "e = CoreErrGasUintOverflow" by (auto simp: IntrinsicGas_def Let_def split: if_splits)
      with Inl assms pc None f show thesis by (intro paid [of st e]) (auto simp: ApplyMessage_def TransitionDb_def)
    next
      case (Inr ig)
      show thesis
      proof (cases "st_gas st < ig \<or> \<not> can")
        case True
        with Inr assms pc None f q s show thesis
          by (intro paid [of st "if st_gas st < ig then ErrIntrinsicGas else ErrInsufficientFundsForTransfer"])
            (auto simp: ApplyMessage_def TransitionDb_def Let_def split: if_splits)
      next
        case False
        with Inr assms pc None f q obtain ret err st2 res where
          "execute E run (st\<lparr>st_gas := st_gas st - ig, st_evm := m1\<rparr>) = Some (Inr (ret, err, st2))"
          "settle E ret err st2 = Inr (res, st')" "r = Inr res"
          by (cases "0 < msg_Value msg") (auto simp: ApplyMessage_def TransitionDb_def Let_def fbind_eq_Inr)
        with run [OF pc [unfolded None] Inr _ s] False show thesis by (auto simp: not_less)
      qed
    qed
  qed
qed

lemma ApplyMessage_gas:
  assumes "runsOk E run" "ApplyMessage E run m msg gp = Some (Inr (Inr res, st'))"
  shows "(\<exists>ig. IntrinsicGas (msg_Data msg) (msg_To msg = None) (IsHomestead (chainRules E)) (IsIstanbul (chainRules E)) = Inr ig
          \<and> unat ig \<le> 2 * unat (UsedGas res) \<and> unat (UsedGas res) \<le> unat (msg_Gas msg) \<and> unat ig \<le> unat (msg_Gas msg))
       \<and> unat (st_gp st') + unat (UsedGas res) = unat gp"
  using assms(2)
proof (cases rule: ApplyMessage_cases)
  case (run st ig m1 ret err st2 res')
  note f = preCheck_ok [OF run(1)]
  have ig: "unat ig \<le> unat (msg_Gas msg)" using run(3) f by (simp add: word_le_nat_alt)
  have "unat (st_gas st2) \<le> unat (st_gas st - ig)" using execute_gas [OF assms(1) run(5)] by simp
  also have "\<dots> = unat (msg_Gas msg) - unat ig" using run(3) f by (simp add: unat_sub)
  finally have g2: "unat (st_gas st2) \<le> unat (msg_Gas msg) - unat ig" .
  have st2: "st_initialGas st2 = msg_Gas msg" "st_gp st2 = st_gp st" using execute_fields [OF run(5)] f(2) by simp_all
  have g: "unat (st_gas st2) \<le> unat (st_initialGas st2)" using g2 st2 by simp
  note s = settle_ok(1-3) [OF run(6) g, unfolded st2]
  have "res' = res" using run(7) by simp
  moreover have "unat ig \<le> 2 * unat (UsedGas res')" using s(2) g2 ig by linarith
  moreover have "unat (UsedGas res') \<le> unat (msg_Gas msg)" using s(1) by linarith
  moreover have "unat (st_gp st') + unat (UsedGas res') = unat gp" using s(1,3) f(3) by linarith
  ultimately show ?thesis using run(2) ig by blast
qed simp_all

lemma quiet_execute: "runsQuiet run \<Longrightarrow> silent (execute E run st)"
  unfolding execute_def by (intro quiet_rules)

lemma execute_ends:
  assumes "endsBelow run n" "unat (st_gas st) < n"
  shows "execute E run st \<noteq> None"
  using calls_end(4) [OF assms] creates_end(1) [OF assms]
  by (auto simp: execute_def ends_def fbind_eq_None Let_def simp del: not_None_eq split: option.splits prod.splits)

lemma ApplyMessage_total:
  assumes "runsOk E run" "runsQuiet run" "endsBelow run n" "unat (msg_Gas msg) < n"
  shows "\<exists>r. ApplyMessage E run m msg gp = Some r \<and> r \<noteq> Inl GasPoolPanic"
proof -
  obtain pe st where pc: "preCheck E (NewStateTransition m msg gp) = (pe, st)" by fastforce
  show ?thesis
  proof (cases pe)
    case (Some e)
    with pc show ?thesis by (simp add: ApplyMessage_def TransitionDb_def)
  next
    case None
    note f = preCheck_ok [OF pc [unfolded None]]
    have x: "\<exists>r. fbind (execute E run st1) (\<lambda>(ret, vmerr, st). fbind (Some (settle E ret vmerr st))
        (\<lambda>(result, st). Some (Inr (Inr result, st)))) = Some r \<and> r \<noteq> Inl GasPoolPanic"
      if st1: "st_gas st1 = st_gas st - ig" "\<not> st_gas st < ig" "st_initialGas st1 = st_initialGas st" "st_gp st1 = st_gp st" for st1 ig
    proof -
      have g1: "unat (st_gas st1) \<le> unat (msg_Gas msg)" using st1(1,2) f(1) by (simp add: unat_sub not_less)
      obtain r where r: "execute E run st1 = Some r" using execute_ends [OF assms(3)] assms(4) g1 by fastforce
      show ?thesis
      proof (cases r)
        case (Inl p)
        with quiet_execute [OF assms(2), of E st1] r show ?thesis by (auto simp: silent_def)
      next
        case (Inr y)
        obtain ret err st2 where y: "y = (ret, err, st2)" by (cases y)
        from execute_fields [of E run st1 ret err st2] r Inr y
        have "st_initialGas st2 = st_initialGas st1" "st_gp st2 = st_gp st1" by simp_all
        moreover have "unat (st_gas st2) \<le> unat (st_gas st1)" using execute_gas [OF assms(1)] r Inr y by simp
        ultimately have "unat (st_gas st2) \<le> unat (st_initialGas st2)" "unat (st_gp st2) + unat (st_initialGas st2) < 2 ^ 64"
          using g1 f(2,3) st1(3,4) unsigned_less [of gp, where ?'a = nat] by simp_all
        from settle_total [OF this, of E ret err] r Inr y show ?thesis by auto
      qed
    qed
    show ?thesis using pc None
      by (auto simp: ApplyMessage_def TransitionDb_def Let_def split: sum.split prod.split intro!: x)
  qed
qed

text \<open>
  C29: The gas of a transaction adds up. When \<^verbatim>\<open>ApplyMessage\<close> accepts a message, the intrinsic gas was
  computed without overflow and paid for, the gas used is at most the gas limit of the message and, in
  spite of refunds, at least half of the intrinsic gas, and exactly the gas used is missing from the
  block's gas pool afterwards. With more fuel than the gas limit it always returns, and the gas pool never
  panics.
\<close>

theorem transaction_gas:
  assumes "NewEVMInterpreter instructionSets rules eips = Inr (jt, eips', globals)"
  shows "(\<forall>res st'. ApplyMessage E (machine n jt E) m msg gp = Some (Inr (Inr res, st')) \<longrightarrow>
       (\<exists>ig. IntrinsicGas (msg_Data msg) (msg_To msg = None) (IsHomestead (chainRules E)) (IsIstanbul (chainRules E)) = Inr ig
          \<and> unat ig \<le> 2 * unat (UsedGas res) \<and> unat (UsedGas res) \<le> unat (msg_Gas msg) \<and> unat ig \<le> unat (msg_Gas msg))
       \<and> unat (st_gp st') + unat (UsedGas res) = unat gp)
    \<and> (unat (msg_Gas msg) < n \<longrightarrow> (\<exists>r. ApplyMessage E (machine n jt E) m msg gp = Some r \<and> r \<noteq> Inl GasPoolPanic))"
  using ApplyMessage_gas [OF machine_runsOk [OF NewEVMInterpreter_tableOk [OF assms]]]
    ApplyMessage_total [OF machine_runsOk [OF NewEVMInterpreter_tableOk [OF assms]]
      machine_quiet [OF NewEVMInterpreter_stack [OF assms]] machine_ends [OF NewEVMInterpreter_tableOk [OF assms]]]
  by blast

subsection \<open>Money\<close>

lemma soundState_thrifts: "soundState E m \<Longrightarrow> thrifts E m m' \<Longrightarrow> soundState E m'"
  by (auto simp: soundState_def intro: calm_reachable thrifts_calm)

lemma soundState_stills: "soundState E m \<Longrightarrow> stills E m m' \<Longrightarrow> soundState E m'"
  by (rule soundState_thrifts [OF _ stills_thrifts])

lemma thrifts_supply:
  assumes "thrifts E m m'" "soundState E m" "solvent (worldOf E m)"
  shows "solvent (worldOf E m')" "totalSupply (worldOf E m') \<le> totalSupply (worldOf E m)"
  using assms by (simp_all add: thrifts_def thrifty_def soundState_def worldOf_def)

lemma AddBalance_funds:
  assumes "soundState E m"
  shows "balOf (worldOf E (update (AddBalance (rdr E) a x) m)) b = balOf (worldOf E m) b + (if b = a then x else 0)"
    "totalSupply (worldOf E (update (AddBalance (rdr E) a x) m)) = totalSupply (worldOf E m) + x"
    "soundState E (update (AddBalance (rdr E) a x) m)"
proof -
  have h: "hashInj (rdr E)" "reachable (rdr E) (statedb m)" using assms by (simp_all add: soundState_def)
  show b: "balOf (worldOf E (update (AddBalance (rdr E) a x) m)) b = balOf (worldOf E m) b + (if b = a then x else 0)" for b
    using AddBalance_balOf [OF reachable_objectsOk [OF h(2,1)] h(1), of a x b] by (simp add: worldOf_def update_def)
  show "totalSupply (worldOf E (update (AddBalance (rdr E) a x) m)) = totalSupply (worldOf E m) + x"
    by (rule totalSupply_add) (rule b)
  show "soundState E (update (AddBalance (rdr E) a x) m)"
    using assms calm_reachable [OF calm_updates(2)] by (simp add: soundState_def update_def)
qed

lemma SubBalance_funds:
  assumes "soundState E m"
  shows "balOf (worldOf E (update (SubBalance (rdr E) a x) m)) b = balOf (worldOf E m) b - (if b = a then x else 0)"
    "totalSupply (worldOf E (update (SubBalance (rdr E) a x) m)) = totalSupply (worldOf E m) - x"
    "soundState E (update (SubBalance (rdr E) a x) m)"
proof -
  have h: "hashInj (rdr E)" "reachable (rdr E) (statedb m)" using assms by (simp_all add: soundState_def)
  show b: "balOf (worldOf E (update (SubBalance (rdr E) a x) m)) b = balOf (worldOf E m) b - (if b = a then x else 0)" for b
    using SubBalance_balOf [OF reachable_objectsOk [OF h(2,1)] h(1), of a x b] by (simp add: worldOf_def update_def)
  have "balOf (worldOf E (update (SubBalance (rdr E) a x) m)) b = balOf (worldOf E m) b + (if b = a then - x else 0)" for b
    using b by simp
  from totalSupply_add [OF this] show "totalSupply (worldOf E (update (SubBalance (rdr E) a x) m)) = totalSupply (worldOf E m) - x"
    by simp
  show "soundState E (update (SubBalance (rdr E) a x) m)"
    using assms calm_reachable [OF calm_updates(3)] by (simp add: soundState_def update_def)
qed

lemma execute_thrifty:
  assumes "runsThrifty E run" "0 \<le> st_value st" "execute E run st = Some (Inr (ret, err, st'))"
  shows "thrifts E (st_evm st) (st_evm st')"
proof (cases "msg_To (st_msg st)")
  case None
  with assms(3) obtain a g where
    "Create E run (AccountRef (msg_From (st_msg st))) (st_data st) (st_gas st) (st_value st) (st_evm st) = Some (Inr (ret, a, g, err, st_evm st'))"
    by (auto simp: execute_def fbind_eq_Inr Let_def)
  with creates_thrifty(1) [OF assms(1,2)] show ?thesis unfolding yields_def by (metis createM.simps)
next
  case (Some to)
  let ?from = "msg_From (st_msg st)"
  obtain nonce m1 where q: "query (GetNonce (rdr E) ?from) (st_evm st) = (nonce, m1)" by fastforce
  let ?m2 = "update (SetNonce (rdr E) ?from (nonce + 1)) m1"
  from assms(3) Some q obtain s g where
    "Call E run (AccountRef ?from) to (st_data st) (st_gas st) (st_value st) ?m2 = Some (Inr (s, g, err, st_evm st'))"
    by (auto simp: execute_def fbind_eq_Inr Let_def)
  with Call_thrifty [OF assms(1,2)] have "thrifts E ?m2 (st_evm st')" unfolding yields_def by (metis callM.simps)
  moreover have "sames E (st_evm st) m1" by (rule sames_query [OF _ q]) simp
  moreover have "sames E m1 ?m2" by (rule sames_update) simp
  ultimately show ?thesis by (blast intro: thrifts_trans sames_thrifts)
qed

text \<open>What the checks before the execution do to the state.\<close>

lemma query_same:
  assumes "query q m = (x, m1)" "quiet (rdr E) (statedb m) (snd (q (statedb m)))" "still (rdr E) (statedb m) (snd (q (statedb m)))"
  shows "stills E m m1 \<and> worldOf E m1 = worldOf E m"
  using assms stills_query [OF assms(3,1)] by (auto simp: query_eq worldOf_def quiet_def)

lemma buyGas_state:
  assumes "buyGas E st = (r, st')"
  shows "case r of
      Some e \<Rightarrow> e \<in> {ErrInsufficientFunds, ErrGasLimitReached} \<and> st_gp st' = st_gp st
        \<and> stills E (st_evm st) (st_evm st') \<and> worldOf E (st_evm st') = worldOf E (st_evm st)
    | None \<Rightarrow> int (unat (msg_Gas (st_msg st))) * st_gasPrice st \<le> balOf (worldOf E (st_evm st)) (msg_From (st_msg st))
        \<and> (\<exists>m1. stills E (st_evm st) m1 \<and> worldOf E m1 = worldOf E (st_evm st)
        \<and> st_evm st' = update (SubBalance (rdr E) (msg_From (st_msg st)) (int (unat (msg_Gas (st_msg st))) * st_gasPrice st)) m1)"
proof -
  obtain b m1 where q: "query (GetBalance (rdr E) (msg_From (st_msg st))) (st_evm st) = (b, m1)" by fastforce
  have s: "stills E (st_evm st) m1 \<and> worldOf E m1 = worldOf E (st_evm st)"
    by (rule query_same [OF q]) (simp_all add: queries_quiet)
  have b: "b = balOf (worldOf E (st_evm st)) (msg_From (st_msg st))"
    using q GetBalance_world [of "rdr E"] by (auto simp: query_eq worldOf_def)
  from assms q s b show ?thesis
    by (auto simp: buyGas_def SubGas_def Let_def not_less split: if_splits)
qed

lemma preCheck_state:
  assumes "preCheck E (NewStateTransition m msg gp) = (r, st')"
  shows "case r of
      Some e \<Rightarrow> e \<in> {ErrNonceTooLow, ErrNonceTooHigh, ErrInsufficientFunds, ErrGasLimitReached} \<and> st_gp st' = gp
        \<and> stills E m (st_evm st') \<and> worldOf E (st_evm st') = worldOf E m
    | None \<Rightarrow> int (unat (msg_Gas msg)) * msg_GasPrice msg \<le> balOf (worldOf E m) (msg_From msg)
        \<and> (\<exists>m1. stills E m m1 \<and> worldOf E m1 = worldOf E m
        \<and> st_evm st' = update (SubBalance (rdr E) (msg_From msg) (int (unat (msg_Gas msg)) * msg_GasPrice msg)) m1)"
proof -
  obtain n m1 where q: "query (GetNonce (rdr E) (msg_From msg)) m = (n, m1)" by fastforce
  have s: "stills E m m1 \<and> worldOf E m1 = worldOf E m"
    by (rule query_same [OF q]) (simp_all add: queries_quiet)
  let ?st = "NewStateTransition m msg gp"
  show ?thesis
  proof (cases "msg_CheckNonce msg \<and> n \<noteq> msg_Nonce msg")
    case True
    with assms q s show ?thesis by (auto simp: preCheck_def NewStateTransition_def Let_def split: if_splits)
  next
    case False
    with assms q have "buyGas E (?st\<lparr>st_evm := if msg_CheckNonce msg then m1 else m\<rparr>) = (r, st')"
      by (auto simp: preCheck_def NewStateTransition_def Let_def split: if_splits)
    from buyGas_state [OF this] s show ?thesis
      by (auto simp: NewStateTransition_def split: option.splits if_splits intro: stills_trans)
  qed
qed

lemma ApplyMessage_supply:
  assumes ok: "runsOk E run" "runsThrifty E run" and m: "soundState E m" "solvent (worldOf E m)"
    and msg: "0 \<le> msg_Value msg" "0 \<le> msg_GasPrice msg" and r: "ApplyMessage E run m msg gp = Some (Inr (r, st'))"
  shows "soundState E (st_evm st') \<and> solvent (worldOf E (st_evm st'))
    \<and> totalSupply (worldOf E (st_evm st')) \<le> totalSupply (worldOf E m)"
proof -
  let ?p = "msg_GasPrice msg" and ?g = "int (unat (msg_Gas msg))" and ?a = "msg_From msg"
  have bought: "soundState E (st_evm st)" "solvent (worldOf E (st_evm st))"
      "totalSupply (worldOf E (st_evm st)) = totalSupply (worldOf E m) - ?g * ?p"
    if pc: "preCheck E (NewStateTransition m msg gp) = (None, st)" for st
  proof -
    from preCheck_state [OF pc] obtain m1 where m1: "stills E m m1" "worldOf E m1 = worldOf E m"
      "st_evm st = update (SubBalance (rdr E) ?a (?g * ?p)) m1" and b: "?g * ?p \<le> balOf (worldOf E m) ?a" by auto
    note s = SubBalance_funds [OF soundState_stills [OF m(1) m1(1)], of ?a "?g * ?p"]
    show "soundState E (st_evm st)" "totalSupply (worldOf E (st_evm st)) = totalSupply (worldOf E m) - ?g * ?p"
      using s(2,3) m1 by simp_all
    show "solvent (worldOf E (st_evm st))" using s(1) m1 b m(2) by (simp add: solvent_def)
  qed
  from r show ?thesis
  proof (cases rule: ApplyMessage_cases)
    case (unpaid e)
    with preCheck_state [OF unpaid(1)] m(2) show ?thesis by (auto intro: soundState_stills [OF m(1)])
  next
    case (paid st e)
    note p = bought [OF paid(1)] and t = thrifts_supply [OF stills_thrifts [OF paid(5)]]
    have "0 \<le> ?g * ?p" using msg(2) by simp
    then show ?thesis using t p soundState_stills [OF p(1) paid(5)] by simp
  next
    case (run st ig m1 ret err st2 res)
    note p = bought [OF run(1)] and f = preCheck_ok [OF run(1)] and x = execute_fields [OF run(5)]
    let ?st1 = "st\<lparr>st_gas := st_gas st - ig, st_evm := m1\<rparr>"
    have "thrifts E m1 (st_evm st2)" using execute_thrifty [OF ok(2) _ run(5)] f(6) msg(1) by simp
    then have th: "thrifts E (st_evm st) (st_evm st2)" by (rule thrifts_trans [OF stills_thrifts [OF run(4)]])
    note t = thrifts_supply [OF th p(1,2)] and s2 = soundState_thrifts [OF p(1) th]
    have "unat (st_gas st2) \<le> unat (st_gas st - ig)" using execute_gas [OF ok(1) run(5)] by simp
    also have "\<dots> \<le> unat (st_gas st)" using run(3) by (simp add: unat_sub)
    finally have g: "unat (st_gas st2) \<le> unat (st_initialGas st2)" using f(1,2) x(1) by simp
    have i: "st_initialGas st2 = msg_Gas msg" "st_gasPrice st2 = ?p" "msg_From (st_msg st2) = ?a" using x f by simp_all
    define u where "u = unat (UsedGas res)"
    have u: "u \<le> unat (msg_Gas msg)" using settle_ok(1) [OF run(6) g] i(1) by (simp add: u_def)
    let ?m3 = "update (AddBalance (rdr E) ?a (int (unat (msg_Gas msg) - u) * ?p)) (st_evm st2)"
    have st': "st_evm st' = update (AddBalance (rdr E) (Coinbase E) (int u * ?p)) ?m3"
      using settle_ok(4) [OF run(6) g] i by (simp add: u_def)
    note a1 = AddBalance_funds [OF s2] and a2 = AddBalance_funds [OF AddBalance_funds(3) [OF s2]]
    have "0 \<le> int u * ?p" "0 \<le> int (unat (msg_Gas msg) - u) * ?p" using msg(2) by simp_all
    then have "solvent (worldOf E (st_evm st'))" using t(1) by (simp add: solvent_def st' a1(1) a2(1))
    moreover have "int (unat (msg_Gas msg) - u) * ?p + int u * ?p = ?g * ?p"
      using u by (simp add: of_nat_diff left_diff_distrib)
    then have "totalSupply (worldOf E (st_evm st')) = totalSupply (worldOf E (st_evm st2)) + ?g * ?p"
      by (simp add: st' a1(2) a2(2))
    ultimately show ?thesis using t(2) p(3) a2(3) by (simp add: st')
  qed
qed

text \<open>
  C28: No transaction creates money. For every message with a value and a gas price that are not negative, whatever
  code it runs and calls, and also when the message is refused, the sum of all balances after \<^verbatim>\<open>ApplyMessage\<close> is
  at most the sum before, and no balance becomes negative. What is bought as gas is paid back as refund
  and fee to the last wei.
\<close>

theorem transaction_creates_no_money:
  assumes "NewEVMInterpreter instructionSets rules eips = Inr (jt, eips', globals)"
    "hashInj (rdr E)" "reachable (rdr E) (statedb m)" "solvent (worldOf E m)"
    "0 \<le> msg_Value msg" "0 \<le> msg_GasPrice msg"
    "ApplyMessage E (machine n jt E) m msg gp = Some (Inr (r, st'))"
  shows "totalSupply (worldOf E (st_evm st')) \<le> totalSupply (worldOf E m) \<and> solvent (worldOf E (st_evm st'))"
  using ApplyMessage_supply [OF machine_runsOk [OF NewEVMInterpreter_tableOk [OF assms(1)]]
    machine_thrifty [OF NewEVMInterpreter_thrifty [OF assms(1)]] _ assms(4-7)] assms(2,3)
  by (simp add: soundState_def)

subsection \<open>Refused messages\<close>

text \<open>
  C32: What a refused message leaves behind. When the nonce is wrong, the sender cannot pay for the gas, or the block has
  no room, the database reads as before and the gas pool is untouched. When the message is refused later, because
  of its intrinsic gas or its value, the gas has already been bought: the balance of the sender
  and the pool are lower by the gas limit of the message, and no other balance has changed. The callers
  have to undo that.
\<close>

theorem refused_message:
  assumes "hashInj (rdr E)" "reachable (rdr E) (statedb m)" "ApplyMessage E run m msg gp = Some (Inr (Inl e, st'))"
  shows "if e \<in> {ErrNonceTooLow, ErrNonceTooHigh, ErrInsufficientFunds, ErrGasLimitReached}
    then worldOf E (st_evm st') = worldOf E m \<and> st_gp st' = gp
    else (\<forall>a. balOf (worldOf E (st_evm st')) a =
           balOf (worldOf E m) a - (if a = msg_From msg then int (unat (msg_Gas msg)) * msg_GasPrice msg else 0))
      \<and> unat (st_gp st') = unat gp - unat (msg_Gas msg)"
  using assms(3)
proof (cases rule: ApplyMessage_cases)
  case (unpaid e')
  with preCheck_state [OF unpaid(1)] show ?thesis by simp
next
  case (paid st e')
  let ?x = "int (unat (msg_Gas msg)) * msg_GasPrice msg" and ?a = "msg_From msg"
  have s: "soundState E m" using assms by (simp add: soundState_def)
  from preCheck_state [OF paid(1)] obtain m1 where m1: "stills E m m1" "worldOf E m1 = worldOf E m"
    "st_evm st = update (SubBalance (rdr E) ?a ?x) m1" by auto
  note b = SubBalance_funds [OF soundState_stills [OF s m1(1)], of ?a ?x]
  have "sames E (st_evm st) (st_evm st')" by (rule stills_sames [OF paid(5)])
  then have "balOf (worldOf E (st_evm st')) a = balOf (worldOf E (st_evm st)) a" for a
    using b(3) m1(3) by (simp add: sames_def sameFunds_def soundState_def worldOf_def)
  then show ?thesis using b(1) m1(2,3) paid(2-4) preCheck_ok(3) [OF paid(1)] by auto
qed simp

subsection \<open>Examples\<close>

text \<open>A message to the identity contract, which succeeds.\<close>

definition demoMsg :: "u64 \<Rightarrow> int \<Rightarrow> Message" where
  "demoMsg gas price = \<lparr>msg_From = 1, msg_To = Some 4, msg_GasPrice = price, msg_Gas = gas, msg_Value = 0, msg_Nonce = 0,
     msg_CheckNonce = True, msg_Data = [42]\<rparr>"

lemma Call_identity:
  assumes "precompile E 4 = Some dataCopy" "\<not> NoRecursion E" "depth m = 0" "wordCount input = 1"
  shows "\<exists>m'. Call E run caller 4 input 100 0 m = Some (Inr (InputSlice, 82, None, m'))"
proof -
  have pre: "runPre E dataCopy input 100 m = Some (Inr (InputSlice, 82, None, m))" for m
    using assms(4) by (simp add: runPre_def RunPrecompiledContract_def dataCopy_RequiredGas_def dataCopy_Run_def params)
  have "\<not> tooDeep m" using assms(3) by (simp add: tooDeep_def params)
  then show ?thesis
    by (simp add: Call_def assms(1,2) callBody_def pre endCall_def split_def Let_def)
qed

lemma demoMsg_checked:
  assumes "rdr E = demoReader" "fst (GetNonce demoReader 1 (statedb m)) = 0" "g \<le> gp"
    "int (unat g) * p \<le> fst (GetBalance demoReader 1 (statedb m))"
  shows "\<exists>st. preCheck E (NewStateTransition m (demoMsg g p) gp) = (None, st) \<and> depth (st_evm st) = depth m"
proof -
  obtain n m1 where q1: "query (GetNonce demoReader 1) m = (n, m1)" by fastforce
  have "worldOf E m1 = worldOf E m"
    using query_same [OF q1, of E] assms(1) by (simp add: queries_quiet)
  then have w: "absState demoReader (statedb m1) = absState demoReader (statedb m)" using assms(1) by (simp add: worldOf_def)
  have n: "n = 0" and d1: "depth m1 = depth m" using q1 assms(2) by (auto simp: query_eq)
  obtain b m2 where q2: "query (GetBalance demoReader 1) m1 = (b, m2)" by fastforce
  have "b = fst (GetBalance demoReader 1 (statedb m))" and d2: "depth m2 = depth m"
    using q2 w d1 by (auto simp: query_eq GetBalance_world)
  with n q1 q2 assms(1,3,4) d2 show ?thesis
    by (auto simp: preCheck_def buyGas_def NewStateTransition_def demoMsg_def SubGas_def update_def Let_def not_less)
qed

lemma identity_message:
  assumes "rdr E = demoReader" "chainRules E = demoRules" "\<not> NoRecursion E" "depth m = 0"
    "fst (GetNonce demoReader 1 (statedb m)) = 0" "0 \<le> fst (GetBalance demoReader 1 (statedb m))" "21116 \<le> gp"
  shows "\<exists>res st'. ApplyMessage E run m (demoMsg 21116 0) gp = Some (Inr (Inr res, st'))"
proof -
  from demoMsg_checked [OF assms(1,5,7), of 0] assms(6) obtain st where
    pc: "preCheck E (NewStateTransition m (demoMsg 21116 0) gp) = (None, st)" and d: "depth (st_evm st) = 0"
    using assms(4) by auto
  note f = preCheck_ok [OF pc]
  have ig: "IntrinsicGas [42] False True True = Inr 21016" by code_simp
  obtain nn m1 where q: "query (GetNonce demoReader 1) (st_evm st) = (nn, m1)" by fastforce
  let ?m2 = "update (SetNonce demoReader 1 (nn + 1)) m1" and ?st = "st\<lparr>st_gas := 100\<rparr>"
  have "depth ?m2 = 0" using q d by (auto simp: query_eq update_def)
  moreover have "precompile E 4 = Some dataCopy"
    by (simp add: precompile_def assms(2) demoRules_def PrecompiledContractsIstanbul_def)
  ultimately obtain m3 where "Call E run (AccountRef 1) 4 [42] 100 0 ?m2 = Some (Inr (InputSlice, 82, None, m3))"
    using Call_identity [OF _ assms(3), where m = ?m2 and input = "[42]"] by (auto simp: wordCount_def)
  with q f assms(1) have x: "execute E run ?st = Some (Inr ([42], None, ?st\<lparr>st_gas := 82, st_evm := m3\<rparr>))"
    by (simp add: execute_def demoMsg_def sliceBytes.simps)
  have "unat (st_gp st) + unat (msg_Gas (demoMsg 21116 0)) < 2 ^ 64" using f(3) unsigned_less [of gp, where ?'a = nat] by simp
  then obtain res st' where "settle E [42] None (?st\<lparr>st_gas := 82, st_evm := m3\<rparr>) = Inr (res, st')"
    using settle_total [of "?st\<lparr>st_gas := 82, st_evm := m3\<rparr>" E "[42]" None] f by (auto simp: demoMsg_def)
  with pc f x ig assms(2) show ?thesis
    by (simp add: ApplyMessage_def TransitionDb_def demoMsg_def demoRules_def)
qed

lemma solvent_demo: "solvent (absState demoReader demoState)"
proof -
  have "0 \<le> balOf (absState demoReader (newStateDB None)) a" for a
    by (simp add: balOf_def liveView_absState liveObj_def peekObj_def viewObj_def newStateDB_def loadAccount_def
      newObject_def demoReader_def)
  moreover have "balOf (absState demoReader demoState) a = balOf (absState demoReader (newStateDB None)) a" for a
    using sameFunds_CreateAccount [of demoReader "newStateDB None" 5] hashInj_demo reachable.init [of demoReader None]
    unfolding sameFunds_def demoState_def by blast
  ultimately show ?thesis by (simp add: solvent_def)
qed

lemma demo_account: "fst (GetNonce demoReader 1 demoState) = 0" "fst (GetBalance demoReader 1 demoState) = 100"
  by code_simp+

lemma demo_parts: "rdr demoEnv = demoReader" "chainRules demoEnv = demoRules" "\<not> NoRecursion demoEnv" "statedb demoEvm = demoState"
  by (simp_all add: demoEnv_def demoEvm_def NewEVM_def)

lemma demo_message: "\<exists>res st'. ApplyMessage demoEnv run demoEvm (demoMsg 21116 0) 30000 = Some (Inr (Inr res, st'))"
  using identity_message [of demoEnv demoEvm] demo_account by (simp add: demo_parts depth_demo)

theorem transaction_gas_witness:
  "\<exists>jt eips globals res st'. NewEVMInterpreter instructionSets demoRules [2315] = Inr (jt, eips, globals)
     \<and> ApplyMessage demoEnv (machine 30000 jt demoEnv) demoEvm (demoMsg 21116 0) 30000 = Some (Inr (Inr res, st'))
     \<and> unat (st_gp st') + unat (UsedGas res) = 30000 \<and> unat (UsedGas res) \<le> 21116"
proof -
  obtain jt eips globals where n: "NewEVMInterpreter instructionSets demoRules [2315] = Inr (jt, eips, globals)"
    using NewEVMInterpreter_demo by blast
  obtain res st' where a: "ApplyMessage demoEnv (machine 30000 jt demoEnv) demoEvm (demoMsg 21116 0) 30000 = Some (Inr (Inr res, st'))"
    using demo_message by blast
  with transaction_gas [OF n, of demoEnv 30000 demoEvm "demoMsg 21116 0" 30000]
  have "unat (st_gp st') + unat (UsedGas res) = 30000 \<and> unat (UsedGas res) \<le> 21116" by (auto simp: demoMsg_def)
  with n a show ?thesis by blast
qed

theorem transaction_creates_no_money_witness:
  "\<exists>jt eips globals res st'. NewEVMInterpreter instructionSets demoRules [2315] = Inr (jt, eips, globals)
     \<and> ApplyMessage demoEnv (machine 30000 jt demoEnv) demoEvm (demoMsg 21116 0) 30000 = Some (Inr (Inr res, st'))
     \<and> totalSupply (worldOf demoEnv (st_evm st')) \<le> totalSupply (worldOf demoEnv demoEvm)"
proof -
  obtain jt eips globals where n: "NewEVMInterpreter instructionSets demoRules [2315] = Inr (jt, eips, globals)"
    using NewEVMInterpreter_demo by blast
  obtain res st' where a: "ApplyMessage demoEnv (machine 30000 jt demoEnv) demoEvm (demoMsg 21116 0) 30000 = Some (Inr (Inr res, st'))"
    using demo_message by blast
  have "totalSupply (worldOf demoEnv (st_evm st')) \<le> totalSupply (worldOf demoEnv demoEvm)"
    using transaction_creates_no_money [OF n _ _ _ _ _ a] hashInj_demo reachable_demoState solvent_demo
    by (simp add: demo_parts worldOf_demo demoMsg_def)
  with n a show ?thesis by blast
qed

theorem refused_message_witness:
  "\<exists>st'. ApplyMessage demoEnv (\<lambda>c input ro m. None) demoEvm (demoMsg 50 1) 80 = Some (Inr (Inl ErrIntrinsicGas, st'))
     \<and> balOf (worldOf demoEnv (st_evm st')) 1 = 50 \<and> unat (st_gp st') = 30"
proof -
  from demoMsg_checked [of demoEnv demoEvm 50 80 1] demo_account obtain st where
    pc: "preCheck demoEnv (NewStateTransition demoEvm (demoMsg 50 1) 80) = (None, st)" by (auto simp: demo_parts)
  note f = preCheck_ok [OF pc]
  have "IntrinsicGas [42] False True True = Inr 21016" by code_simp
  with pc f have a: "ApplyMessage demoEnv (\<lambda>c input ro m. None) demoEvm (demoMsg 50 1) 80 = Some (Inr (Inl ErrIntrinsicGas, st))"
    by (simp add: ApplyMessage_def TransitionDb_def demo_parts demoMsg_def demoRules_def)
  have "balOf (worldOf demoEnv demoEvm) 1 = 100"
    using demo_account(2) GetBalance_world [of demoReader 1 demoState] by (simp add: worldOf_demo)
  with refused_message [OF _ _ a] hashInj_demo reachable_demoState have "balOf (worldOf demoEnv (st_evm st)) 1 = 50 \<and> unat (st_gp st) = 30"
    by (simp add: demo_parts demoMsg_def)
  with a show ?thesis by blast
qed

end
