(* ===== verification/BlockProps.thy ===== *)
theory BlockProps
  imports TransitionProps
begin

text \<open>
  The properties of block processing: the gas of a block adds up and stays below its limit, and a block
  creates no money but its reward.
\<close>

subsection \<open>Gas\<close>

lemma ApplyTransaction_ok:
  assumes "ApplyTransaction P E0 gp s0 tx used = Some (Inr (Inr rc, gp', s', used'))"
  obtains msg result st root where "AsMessage P tx = Inr msg"
    "ApplyMessage (NewEVMContext E0 msg) (runnerOf P (NewEVMContext E0 msg)) (NewEVM s0) msg gp = Some (Inr (Inr result, st))"
    "gp' = st_gp st" "used' = used + UsedGas result" "rc = receiptOf (NewEVMContext E0 msg) root result used' msg tx s'"
    "(root, s') = (if IsByzantium (chainRules E0)
       then ([], Finalise (rdr E0) (dirtyOrder P (statedb (st_evm st))) True (statedb (st_evm st)))
       else IntermediateRoot P (IsEIP158 (chainRules E0)) (statedb (st_evm st)))"
proof (cases "AsMessage P tx")
  case (Inr msg)
  with assms obtain result st where
    am: "ApplyMessage (NewEVMContext E0 msg) (runnerOf P (NewEVMContext E0 msg)) (NewEVM s0) msg gp = Some (Inr (Inr result, st))"
    and rest: "(let s1 = statedb (st_evm st);
       (root, s2) = (if IsByzantium (chainRules E0) then ([], Finalise (rdr E0) (dirtyOrder P s1) True s1)
          else IntermediateRoot P (IsEIP158 (chainRules E0)) s1);
       usedGas = used + UsedGas result
      in (Inr (receiptOf (NewEVMContext E0 msg) root result usedGas msg tx s2) :: applyError + Receipt, st_gp st, s2, usedGas))
      = (Inr rc, gp', s', used')"
    by (auto simp: ApplyTransaction_def fbind_eq_Inr split_sum_ex Let_def split_def NewEVMContext_def)
  from rest that [OF Inr am] show ?thesis by (auto simp: Let_def split_def)
qed (use assms in \<open>simp add: ApplyTransaction_def\<close>)

lemma AsMessage_fields:
  "AsMessage P tx = Inr msg \<Longrightarrow> msg_Gas msg = tx_GasLimit tx \<and> msg_Value msg = Amount tx \<and> msg_GasPrice msg = Price tx"
  by (auto simp: AsMessage_def rbind_eq_Inr)

lemma receiptOf_fields [simp]:
  "GasUsed (receiptOf E root result used msg tx s) = UsedGas result"
  "CumulativeGasUsed (receiptOf E root result used msg tx s) = used"
  "rc_TxHash (receiptOf E root result used msg tx s) = tx_Hash tx"
  by (simp_all add: receiptOf_def NewReceipt_def Let_def)

lemma ApplyTransaction_gas:
  assumes "\<And>E. runsOk E (runnerOf P E)" "ApplyTransaction P E0 gp s0 tx used = Some (Inr (Inr rc, gp', s', used'))"
  shows "unat gp' + unat (GasUsed rc) = unat gp" "used' = used + GasUsed rc" "CumulativeGasUsed rc = used'"
    "unat (GasUsed rc) \<le> unat (tx_GasLimit tx)" "rc_TxHash rc = tx_Hash tx"
proof -
  from ApplyTransaction_ok [OF assms(2)] obtain msg result st root where
    msg: "AsMessage P tx = Inr msg" and
    am: "ApplyMessage (NewEVMContext E0 msg) (runnerOf P (NewEVMContext E0 msg)) (NewEVM s0) msg gp = Some (Inr (Inr result, st))"
    and r: "gp' = st_gp st" "used' = used + UsedGas result" "rc = receiptOf (NewEVMContext E0 msg) root result used' msg tx s'" .
  note g = ApplyMessage_gas [OF assms(1) am]
  show "unat gp' + unat (GasUsed rc) = unat gp" "unat (GasUsed rc) \<le> unat (tx_GasLimit tx)"
    using g AsMessage_fields [OF msg] by (auto simp: r)
  show "used' = used + GasUsed rc" "CumulativeGasUsed rc = used'" "rc_TxHash rc = tx_Hash tx" by (simp_all add: r)
qed

abbreviation gasOf :: "Receipt list \<Rightarrow> nat" where
  "gasOf rcs \<equiv> sum_list (map (unat \<circ> GasUsed) rcs)"

abbreviation receiptFor :: "Receipt \<Rightarrow> Transaction \<Rightarrow> bool" where
  "receiptFor rc tx \<equiv> rc_TxHash rc = tx_Hash tx \<and> unat (GasUsed rc) \<le> unat (tx_GasLimit tx)"

lemma processTxs_gas:
  assumes "\<And>E. runsOk E (runnerOf P E)" "processTxs P E bh i gp s used txs = Some (Inr (Inr rcs, gp', s', used'))"
    "unat used + unat gp < 2 ^ 64"
  shows "list_all2 receiptFor rcs txs \<and> unat used' + unat gp' = unat used + unat gp \<and> unat used' = unat used + gasOf rcs
    \<and> (\<forall>k < length rcs. unat (CumulativeGasUsed (rcs ! k)) = unat used + gasOf (take (Suc k) rcs))"
  using assms(2,3)
proof (induction txs arbitrary: i gp s used rcs)
  case (Cons tx txs)
  from Cons.prems(1) obtain rc gp1 s1 used1 rcs1 where
    t: "ApplyTransaction P E gp (Prepare (tx_Hash tx) bh (int i) s) tx used = Some (Inr (Inr rc, gp1, s1, used1))"
    and p: "processTxs P E bh (Suc i) gp1 s1 used1 txs = Some (Inr (Inr rcs1, gp', s', used'))" and rcs: "rcs = rc # rcs1"
    by (auto simp: fbind_eq_Inr split_sum_ex)
  note g = ApplyTransaction_gas [OF assms(1) t]
  have "unat used1 = unat used + unat (GasUsed rc)"
    using g(1,2) Cons.prems(2) by (simp add: unat_plus_if')
  with Cons.IH [OF p] Cons.prems(2) g rcs show ?case
    by (auto simp: nth_Cons split: nat.splits)
qed simp

lemma Process_gas:
  assumes "\<And>E. runsOk E (runnerOf P E)" "Process P E bh txs s0 = Some (Inr (Inr (rcs, ls, used), s'))"
  shows "list_all2 receiptFor rcs txs \<and> unat used = gasOf rcs \<and> unat used \<le> unat (GasLimit E)
    \<and> ls = concat (map rc_Logs rcs)
    \<and> (\<forall>k < length rcs. unat (CumulativeGasUsed (rcs ! k)) = gasOf (take (Suc k) rcs))"
proof -
  from assms(2) obtain gp s gp' s1 where a: "AddGas (GasLimit E) 0 = Inr gp"
    "processTxs P E bh 0 gp s 0 txs = Some (Inr (Inr rcs, gp', s1, used))" "ls = concat (map rc_Logs rcs)"
    by (auto simp: Process_def fbind_eq_Inr Let_def split_sum_ex)
  have "unat gp = unat (GasLimit E)" using AddGas_Inr [OF a(1)] by simp
  with processTxs_gas [OF assms(1) a(2)] unsigned_less [of gp, where ?'a = nat] a(3) show ?thesis by simp
qed

lemma ApplyTransaction_total:
  assumes "\<And>E. runsOk E (runnerOf P E)" "\<And>E. runsQuiet (runnerOf P E)" "\<And>E. endsBelow (runnerOf P E) n"
    "unat (tx_GasLimit tx) < n"
  shows "\<exists>r. ApplyTransaction P E0 gp s tx used = Some r \<and> r \<noteq> Inl GasPoolPanic"
proof (cases "AsMessage P tx")
  case (Inr msg)
  let ?E = "NewEVMContext E0 msg"
  have "unat (msg_Gas msg) < n" using AsMessage_fields [OF Inr] assms(4) by simp
  from ApplyMessage_total [OF assms(1) assms(2) assms(3) this] obtain r where
    "ApplyMessage ?E (runnerOf P ?E) (NewEVM s) msg gp = Some r" "r \<noteq> Inl GasPoolPanic" by blast
  with Inr show ?thesis by (cases r) (auto simp: ApplyTransaction_def Let_def split: sum.splits prod.splits)
qed (simp add: ApplyTransaction_def)

lemma processTxs_total:
  assumes "\<And>E. runsOk E (runnerOf P E)" "\<And>E. runsQuiet (runnerOf P E)" "\<And>E. endsBelow (runnerOf P E) n"
    "\<forall>tx \<in> set txs. unat (tx_GasLimit tx) < n"
  shows "\<exists>r. processTxs P E bh i gp s used txs = Some r \<and> r \<noteq> Inl GasPoolPanic"
  using assms(4)
proof (induction txs arbitrary: i gp s used)
  case (Cons tx txs)
  obtain r where r: "ApplyTransaction P E gp (Prepare (tx_Hash tx) bh (int i) s) tx used = Some r" "r \<noteq> Inl GasPoolPanic"
    using ApplyTransaction_total [OF assms(1-3)] Cons.prems by (metis list.set_intros(1))
  show ?case
  proof (cases "\<exists>rc gp1 s1 used1. r = Inr (Inr rc, gp1, s1, used1)")
    case True
    then obtain rc gp1 s1 used1 where r1: "r = Inr (Inr rc, gp1, s1, used1)" by blast
    obtain r2 where "processTxs P E bh (Suc i) gp1 s1 used1 txs = Some r2" "r2 \<noteq> Inl GasPoolPanic"
      using Cons by fastforce
    with r r1 show ?thesis by (cases r2) (auto split: prod.splits)
  next
    case False
    with r show ?thesis by (cases r) (auto split: sum.splits prod.splits)
  qed
qed simp

lemma Process_total:
  assumes "\<And>E. runsOk E (runnerOf P E)" "\<And>E. runsQuiet (runnerOf P E)" "\<And>E. endsBelow (runnerOf P E) n"
    "\<forall>tx \<in> set txs. unat (tx_GasLimit tx) < n"
  shows "\<exists>r. Process P E bh txs s0 = Some r \<and> r \<noteq> Inl GasPoolPanic"
proof -
  obtain gp where gp: "AddGas (GasLimit E) 0 = Inr gp" using AddGas_ok [of 0 "GasLimit E"] unsigned_less [of "GasLimit E", where ?'a = nat] by auto
  obtain r where "processTxs P E bh 0 gp (if daoFork P then ApplyDAOHardFork P (rdr E) s0 else s0) 0 txs = Some r" "r \<noteq> Inl GasPoolPanic"
    using processTxs_total [OF assms] by blast
  with gp show ?thesis by (cases r) (auto simp: Process_def Let_def split: prod.splits)
qed

text \<open>
  C30: The gas of a block adds up. When \<^verbatim>\<open>Process\<close> accepts a block there is one receipt per transaction, in
  order; each transaction used at most its gas limit; the cumulative gas of every receipt is the sum of the gas used up to
  and including it; and the gas used by the block is the sum over all receipts, without wrap-around, and at most the gas
  limit of the block. With more fuel than any gas limit, \<^verbatim>\<open>Process\<close> returns and the gas pool never panics.
\<close>

theorem block_gas:
  assumes "NewEVMInterpreter instructionSets rules eips = Inr (jt, eips', globals)" "runnerOf P = machine n jt"
  shows "(\<forall>rcs ls used s'. Process P E bh txs s0 = Some (Inr (Inr (rcs, ls, used), s')) \<longrightarrow>
        list_all2 receiptFor rcs txs \<and> unat used = gasOf rcs \<and> unat used \<le> unat (GasLimit E)
        \<and> ls = concat (map rc_Logs rcs)
        \<and> (\<forall>k < length rcs. unat (CumulativeGasUsed (rcs ! k)) = gasOf (take (Suc k) rcs)))
    \<and> ((\<forall>tx \<in> set txs. unat (tx_GasLimit tx) < n) \<longrightarrow>
        (\<exists>r. Process P E bh txs s0 = Some r \<and> r \<noteq> Inl GasPoolPanic))"
proof -
  have "runsOk E (runnerOf P E)" "runsQuiet (runnerOf P E)" "endsBelow (runnerOf P E) n" for E
    using machine_runsOk [OF NewEVMInterpreter_tableOk [OF assms(1)]] machine_quiet [OF NewEVMInterpreter_stack [OF assms(1)]]
      machine_ends [OF NewEVMInterpreter_tableOk [OF assms(1)]] by (simp_all add: assms(2))
  from Process_gas [OF this(1)] Process_total [OF this] show ?thesis by blast
qed

subsection \<open>Money\<close>

lemma Finalise_accounts:
  "stateObjects (Finalise rd order d s) a = map_option (finalObj rd d ^^ count_list order a) (stateObjects s a)"
  "snap (Finalise rd order d s) = snap s"
proof -
  have "stateObjects (fold (finaliseOne rd d) order s) a = map_option (finalObj rd d ^^ count_list order a) (stateObjects s a)
      \<and> snap (fold (finaliseOne rd d) order s) = snap s" for s
  proof (induction order arbitrary: s)
    case (Cons b order)
    have "stateObjects (finaliseOne rd d b s) a = (if a = b then map_option (finalObj rd d) (stateObjects s a) else stateObjects s a)"
      "snap (finaliseOne rd d b s) = snap s" by (simp_all add: finaliseOne_fields)
    with Cons.IH [of "finaliseOne rd d b s"] show ?case
      by (cases "stateObjects s a"; cases "a = b") (auto simp: funpow_swap1)
  qed (simp add: option.map_id)
  then show "stateObjects (Finalise rd order d s) a = map_option (finalObj rd d ^^ count_list order a) (stateObjects s a)"
    "snap (Finalise rd order d s) = snap s"
    by (auto simp: Finalise_def clearJournalAndRefund_def Let_def)
qed

lemma finalObj_iterate:
  "so_data ((finalObj rd d ^^ k) o1) = so_data o1 \<and> (deleted o1 \<longrightarrow> deleted ((finalObj rd d ^^ k) o1))"
  by (induction k) (auto simp: finalObj_def finaliseObj_def)

lemma Finalise_balOf:
  "balOf (absState rd (Finalise rd order d s)) a \<in> {0, balOf (absState rd s) a}"
proof (cases "stateObjects s a")
  case None
  then have "peekObj rd (Finalise rd order d s) a = peekObj rd s a"
    by (simp add: peekObj_def Finalise_accounts)
  then show ?thesis by (simp add: balOf_def liveView_absState liveObj_def viewObj_def split: option.split)
next
  case (Some o1)
  then have "peekObj rd (Finalise rd order d s) a = Some ((finalObj rd d ^^ count_list order a) o1)" "peekObj rd s a = Some o1"
    by (simp_all add: peekObj_def Finalise_accounts)
  with finalObj_iterate [of "count_list order a" rd d o1] show ?thesis
    by (auto simp: balOf_def liveView_absState liveObj_def viewObj_def)
qed

lemma burnt_supply:
  assumes "\<And>a. balOf w' a \<in> {0, balOf w a}" "solvent w"
  shows "solvent w' \<and> totalSupply w' \<le> totalSupply w"
proof -
  have "0 \<le> balOf w' a \<and> balOf w' a \<le> balOf w a" for a
    using assms(1) [of a] assms(2) by (auto simp: solvent_def)
  then show ?thesis by (simp add: solvent_def totalSupply_def sum_mono)
qed

text \<open>Between two transactions: a reachable database without open snapshots.\<close>

definition settled :: "reader \<Rightarrow> StateDB \<Rightarrow> bool" where
  "settled rd s \<longleftrightarrow> hashInj rd \<and> reachable rd s \<and> validRevisions s = [] \<and> solvent (absState rd s)"

lemma settled_Finalise:
  assumes "hashInj rd" "reachable rd s" "solvent (absState rd s)"
  shows "settled rd (Finalise rd order d s)" "totalSupply (absState rd (Finalise rd order d s)) \<le> totalSupply (absState rd s)"
proof -
  note b = burnt_supply [OF Finalise_balOf assms(3), of order d]
  then show "totalSupply (absState rd (Finalise rd order d s)) \<le> totalSupply (absState rd s)" by blast
  have "reachable rd (Finalise rd order d s)"
    by (rule reachable.step [OF assms(2), of "OpFinalise order d"]) simp_all
  moreover have "validRevisions (Finalise rd order d s) = []"
    by (simp add: Finalise_def clearJournalAndRefund_def Let_def)
  ultimately show "settled rd (Finalise rd order d s)" using assms(1) b by (simp add: settled_def)
qed

lemma settled_Prepare:
  assumes "settled rd s"
  shows "reachable rd (Prepare th bh ti s)" "balOf (absState rd (Prepare th bh ti s)) a = balOf (absState rd s) a"
proof -
  show "reachable rd (Prepare th bh ti s)"
    by (rule reachable.step [of _ s "OpPrepare th bh ti"]) (use assms in \<open>simp_all add: settled_def\<close>)
  show "balOf (absState rd (Prepare th bh ti s)) a = balOf (absState rd s) a"
    by (simp add: balOf_def liveView_absState liveObj_def viewObj_def peekObj_def Prepare_def split: option.split)
qed

lemma ApplyTransaction_supply:
  assumes run: "\<And>E. runsOk E (runnerOf P E)" "\<And>E. runsThrifty E (runnerOf P E)" and byz: "IsByzantium (chainRules E0)"
    and s: "settled (rdr E0) s" and tx: "0 \<le> Amount tx" "0 \<le> Price tx"
    and r: "ApplyTransaction P E0 gp (Prepare th bh ti s) tx used = Some (Inr (Inr rc, gp', s', used'))"
  shows "settled (rdr E0) s' \<and> totalSupply (absState (rdr E0) s') \<le> totalSupply (absState (rdr E0) s)"
proof -
  from ApplyTransaction_ok [OF r] obtain msg result st root where msg: "AsMessage P tx = Inr msg"
    and am: "ApplyMessage (NewEVMContext E0 msg) (runnerOf P (NewEVMContext E0 msg)) (NewEVM (Prepare th bh ti s)) msg gp
      = Some (Inr (Inr result, st))"
    and "gp' = st_gp st" "used' = used + UsedGas result" "rc = receiptOf (NewEVMContext E0 msg) root result used' msg tx s'"
    and s': "(root, s') = (if IsByzantium (chainRules E0)
       then ([], Finalise (rdr E0) (dirtyOrder P (statedb (st_evm st))) True (statedb (st_evm st)))
       else IntermediateRoot P (IsEIP158 (chainRules E0)) (statedb (st_evm st)))" .
  let ?E = "NewEVMContext E0 msg" and ?m = "NewEVM (Prepare th bh ti s)"
  have E: "rdr ?E = rdr E0" by (simp add: NewEVMContext_def)
  note p = settled_Prepare [OF s, of th bh ti]
  have m: "soundState ?E ?m" "solvent (worldOf ?E ?m)" and
    eq: "totalSupply (worldOf ?E ?m) = totalSupply (absState (rdr E0) s)"
    using s p by (simp_all add: soundState_def settled_def worldOf_def NewEVM_def solvent_def totalSupply_def E)
  have a: "reachable (rdr E0) (statedb (st_evm st))" "solvent (absState (rdr E0) (statedb (st_evm st)))"
    "totalSupply (absState (rdr E0) (statedb (st_evm st))) \<le> totalSupply (absState (rdr E0) s)"
    using ApplyMessage_supply [OF run m _ _ am] AsMessage_fields [OF msg] tx eq by (simp_all add: worldOf_def soundState_def E)
  have f: "s' = Finalise (rdr E0) (dirtyOrder P (statedb (st_evm st))) True (statedb (st_evm st))" using s' byz by simp
  have "hashInj (rdr E0)" using s by (simp add: settled_def)
  from settled_Finalise [OF this a(1,2), of "dirtyOrder P (statedb (st_evm st))" True] a(3) show ?thesis
    unfolding f by linarith
qed

lemma processTxs_supply:
  assumes run: "\<And>E. runsOk E (runnerOf P E)" "\<And>E. runsThrifty E (runnerOf P E)" and byz: "IsByzantium (chainRules E)"
    and "settled (rdr E) s" "\<forall>tx \<in> set txs. 0 \<le> Amount tx \<and> 0 \<le> Price tx"
    "processTxs P E bh i gp s used txs = Some (Inr (Inr rcs, gp', s', used'))"
  shows "settled (rdr E) s' \<and> totalSupply (absState (rdr E) s') \<le> totalSupply (absState (rdr E) s)"
  using assms(4-6)
proof (induction txs arbitrary: i gp s used rcs)
  case (Cons tx txs)
  from Cons.prems(3) obtain rc gp1 s1 used1 rcs1 where
    t: "ApplyTransaction P E gp (Prepare (tx_Hash tx) bh (int i) s) tx used = Some (Inr (Inr rc, gp1, s1, used1))"
    and p: "processTxs P E bh (Suc i) gp1 s1 used1 txs = Some (Inr (Inr rcs1, gp', s', used'))"
    by (auto simp: fbind_eq_Inr split_sum_ex)
  have "settled (rdr E) s1 \<and> totalSupply (absState (rdr E) s1) \<le> totalSupply (absState (rdr E) s)"
    by (rule ApplyTransaction_supply [OF run byz Cons.prems(1) _ _ t]) (use Cons.prems(2) in simp_all)
  with Cons.IH [OF _ _ p] Cons.prems(2) show ?case by auto
qed simp

text \<open>The fork that moves the balances of the DAO accounts.\<close>

lemma SetBalance_balOf:
  assumes "objectsOk rd s" "hashInj rd"
  shows "balOf (absState rd (SetBalance rd a x s)) b = (if b = a then x else balOf (absState rd s) b)"
proof -
  obtain o1 s' where g: "GetOrNewStateObject rd a s = (o1, s')" by (cases "GetOrNewStateObject rd a s")
  note n = GetOrNew_balance [OF g assms] and sp = GetOrNewStateObject_changes [OF g assms]
  show ?thesis using g n SetBalanceObj_balOf [OF sp(5,3)] by (simp add: SetBalance_def)
qed

definition drainStep :: "reader \<Rightarrow> address \<Rightarrow> address \<Rightarrow> StateDB \<Rightarrow> StateDB" where
  "drainStep rd r a s = (let (b, s) = GetBalance rd a s in SetBalance rd a 0 (AddBalance rd r b s))"

lemma settled_drainStep:
  assumes "settled rd s"
  shows "settled rd (drainStep rd r a s) \<and> totalSupply (absState rd (drainStep rd r a s)) \<le> totalSupply (absState rd s)"
proof -
  obtain x s1 where g: "GetBalance rd a s = (x, s1)" by fastforce
  let ?t = "AddBalance rd r x s1" let ?u = "SetBalance rd a 0 ?t"
  have s: "hashInj rd" "reachable rd s" "validRevisions s = []" "solvent (absState rd s)" using assms by (simp_all add: settled_def)
  have w: "absState rd s1 = absState rd s" "validRevisions s1 = []" and x: "x = balOf (absState rd s) a"
    using queries_quiet(3) [of rd s a] GetBalance_world [of rd a s] g s(3) by (auto simp: quiet_def sameFrame_def)
  have r1: "reachable rd s1" using calm_reachable [OF calm_queries(3) s(2)] g by (metis snd_conv)
  have r2: "reachable rd ?t" by (rule calm_reachable [OF calm_updates(2) r1])
  have r3: "reachable rd ?u" by (rule calm_reachable [OF calm_updates(4) r2])
  note o1 = reachable_objectsOk [OF r1 s(1)] and o2 = reachable_objectsOk [OF r2 s(1)]
  have v: "validRevisions ?u = []"
    using AddBalance_changes [OF o1 s(1), of r x] SetBalance_changes [OF o2 s(1), of a 0] w(2) by (auto simp: changes_def)
  have "balOf (absState rd ?u) c
      = (if c = a then 0 else balOf (absState rd s) c + (if c = r then balOf (absState rd s) a else 0))" for c
    using SetBalance_balOf [OF o2 s(1), of a 0 c] AddBalance_balOf [OF o1 s(1), of r x c] w(1) x by simp
  from moved_supply [OF this] s r3 v show ?thesis
    by (simp add: drainStep_def g settled_def solvent_def totalSupply_def)
qed

lemma settled_DAO:
  assumes "settled rd s"
  shows "settled rd (ApplyDAOHardFork P rd s) \<and> totalSupply (absState rd (ApplyDAOHardFork P rd s)) \<le> totalSupply (absState rd s)"
proof -
  let ?r = "DAORefundContract P"
  obtain ex s1 where e: "Exist rd ?r s = (ex, s1)" by fastforce
  let ?s2 = "if \<not> ex then CreateAccount rd ?r s1 else s1"
  have s: "hashInj rd" "reachable rd s" "validRevisions s = []" "solvent (absState rd s)" using assms by (simp_all add: settled_def)
  have w: "absState rd s1 = absState rd s" "validRevisions s1 = []"
    using queries_quiet(1) [of rd s ?r] e s(3) by (auto simp: quiet_def sameFrame_def)
  have r1: "reachable rd s1" using calm_reachable [OF calm_queries(1) s(2)] e by (metis snd_conv)
  have f: "sameFunds rd s1 ?s2" by simp
  have "validRevisions ?s2 = []"
    using CreateAccount_changes [OF reachable_objectsOk [OF r1 s(1)] s(1)] w(2) by (auto simp: changes_def)
  moreover have "reachable rd ?s2" "\<And>c. balOf (absState rd ?s2) c = balOf (absState rd s) c"
    using f s(1) r1 calm_reachable [of rd s1 ?s2] unfolding sameFunds_def w(1) by blast+
  ultimately have s2: "settled rd ?s2 \<and> totalSupply (absState rd ?s2) \<le> totalSupply (absState rd s)"
    using s by (simp add: settled_def solvent_def totalSupply_def)
  have "settled rd (fold (drainStep rd ?r) as t) \<and> totalSupply (absState rd (fold (drainStep rd ?r) as t)) \<le> totalSupply (absState rd t)"
    if "settled rd t" for as t
    using that
  proof (induction as arbitrary: t)
    case (Cons a as)
    show ?case using settled_drainStep [OF Cons.prems, of ?r a] Cons.IH [of "drainStep rd ?r a t"] by auto
  qed simp
  from this [of ?s2 "DAODrainList P"] s2 e show ?thesis
    by (simp add: ApplyDAOHardFork_def drainStep_def [abs_def])
qed


subsection \<open>Examples\<close>

definition demoTx :: Transaction where
  "demoTx = \<lparr>AccountNonce = 0, Price = 0, tx_GasLimit = 21116, Recipient = Some 4, Amount = 0, Payload = [42], tx_Hash = 9\<rparr>"

definition demoProcessor :: "JumpTable \<Rightarrow> processor" where
  "demoProcessor jt = \<lparr>Sender = (\<lambda>tx. Inr 1), IntermediateRoot = (\<lambda>b s. ([], s)), dirtyOrder = (\<lambda>s. [1, 4, 7]),
     engineFinalize = (\<lambda>s. s), runnerOf = machine 30000 jt, daoFork = False, DAORefundContract = 3, DAODrainList = [2]\<rparr>"

lemma demo_block:
  "\<exists>rcs ls used s'. Process (demoProcessor jt) demoEnv 8 [demoTx] demoState = Some (Inr (Inr (rcs, ls, used), s'))"
proof -
  have msg: "AsMessage (demoProcessor jt) demoTx = Inr (demoMsg 21116 0)"
    by (simp add: AsMessage_def demoProcessor_def demoTx_def demoMsg_def)
  let ?E = "NewEVMContext demoEnv (demoMsg 21116 0)" and ?m = "NewEVM (Prepare 9 8 0 demoState)"
  have "fst (GetNonce demoReader 1 (Prepare 9 8 0 demoState)) = 0" "fst (GetBalance demoReader 1 (Prepare 9 8 0 demoState)) = 100"
    by code_simp+
  then obtain res st where "ApplyMessage ?E (machine 30000 jt ?E) ?m (demoMsg 21116 0) 8000000 = Some (Inr (Inr res, st))"
    using identity_message [of ?E ?m 8000000 "machine 30000 jt ?E"] by (auto simp: NewEVMContext_def demo_parts NewEVM_def)
  with msg show ?thesis
    by (auto simp: Process_def AddGas_def demoEnv_def [THEN arg_cong [of _ _ GasLimit]] ApplyTransaction_def Let_def
      demoTx_def demoProcessor_def demo_parts split_def)
qed

theorem block_gas_witness:
  "\<exists>jt eips globals rcs ls used s'. NewEVMInterpreter instructionSets demoRules [2315] = Inr (jt, eips, globals)
     \<and> Process (demoProcessor jt) demoEnv 8 [demoTx] demoState = Some (Inr (Inr (rcs, ls, used), s'))
     \<and> list_all2 receiptFor rcs [demoTx] \<and> unat used = gasOf rcs \<and> unat used \<le> 8000000"
proof -
  obtain jt eips globals where n: "NewEVMInterpreter instructionSets demoRules [2315] = Inr (jt, eips, globals)"
    using NewEVMInterpreter_demo by blast
  obtain rcs ls used s' where p: "Process (demoProcessor jt) demoEnv 8 [demoTx] demoState = Some (Inr (Inr (rcs, ls, used), s'))"
    using demo_block by blast
  have "runnerOf (demoProcessor jt) = machine 30000 jt" by (simp add: demoProcessor_def)
  from block_gas [OF n this, of demoEnv 8 "[demoTx]" demoState] p
  have "list_all2 receiptFor rcs [demoTx] \<and> unat used = gasOf rcs \<and> unat used \<le> unat (GasLimit demoEnv)" by blast
  with n p show ?thesis by (auto simp: demoEnv_def)
qed


end
