(* ===== verification/Spec2Isabelle.thy ===== *)
theory Spec2Isabelle
  imports TrieStore StateProps EvmProps OpcodeNames BlockProps
begin

text \<open>
  A model of the MXT chain node (a fork of go-ethereum 1.9) and the theorems that make it correct. It
  covers the path from a message call down to the nodes of the state trie: the virtual machine
  of \<^verbatim>\<open>core/vm\<close> runs code against the state database of \<^verbatim>\<open>core/state\<close>, whose accounts and slots are stored in the
  Merkle Patricia trie of \<^verbatim>\<open>trie\<close>, whose nodes and account records are RLP encoded (\<^verbatim>\<open>rlp\<close>).

  \<^bold>\<open>Conventions.\<close> A Go struct is a record, an enumeration or interface with known implementations a
  datatype, a \<^verbatim>\<open>uintN\<close> an \<open>N word\<close> (so \<open>+\<close> wraps as in Go), a \<^verbatim>\<open>big.Int\<close> an \<open>int\<close> or \<open>nat\<close>, an error a value. A run-time panic is
  the left side of a sum. A loop whose end is not structural has fuel and returns \<open>None\<close> without it;
  theorems state that enough fuel gives a result. Pointers that
  matter (shared trie nodes, shared operations of instruction tables, the input slice returned by the
  identity contract) are modelled where they can be observed.

  \<^bold>\<open>Parts and theories\<close>

  \<^item> \<^verbatim>\<open>Prelude\<close>: types, combinators for errors and fuel, big-endian byte strings.
  \<^item> \<^verbatim>\<open>TrieEncoding\<close>: the key encodings of \<^verbatim>\<open>trie/encoding.go\<close>, with their round trips and the equivalence of the
    in-place variant.
  \<^item> \<^verbatim>\<open>Trie\<close>: lookup, insertion, deletion and node resolution of \<^verbatim>\<open>trie/trie.go\<close> against a node database
    that may miss nodes; \<^verbatim>\<open>TrieCanonical\<close> shows that the nodes depend on the contents only,
    \<^verbatim>\<open>KVStore\<close> is the interface of a key-value store and \<^verbatim>\<open>TrieStore\<close> interprets it by the trie. The fuel is the
    length of the key plus one.
  \<^item> \<^verbatim>\<open>StateDB\<close>: \<^verbatim>\<open>statedb.go\<close>, \<^verbatim>\<open>state_object.go\<close> and \<^verbatim>\<open>journal.go\<close>; \<^verbatim>\<open>StateWorld\<close> maps a database to the world it stands for,
    \<^verbatim>\<open>StateRevert\<close> and \<^verbatim>\<open>StateProps\<close> show that reverting restores this world, \<^verbatim>\<open>StateCalm\<close> gives the machine the interface
    \<open>snapshotting\<close> (snapshot, run anything, revert), \<^verbatim>\<open>StateStill\<close> singles out the operations that change nothing readable.
  \<^item> \<^verbatim>\<open>RLP\<close>: the encoder of \<^verbatim>\<open>rlp/encode.go\<close> and its specification.
  \<^item> \<^verbatim>\<open>Params\<close>, \<^verbatim>\<open>Opcodes\<close>, \<^verbatim>\<open>OpcodeNames\<close>: the constants of \<^verbatim>\<open>params/protocol_params.go\<close> and \<^verbatim>\<open>core/vm/opcodes.go\<close>.
  \<^item> \<^verbatim>\<open>EvmBase\<close> (\<^verbatim>\<open>stack.go\<close>, \<^verbatim>\<open>memory.go\<close>, \<^verbatim>\<open>memory_table.go\<close>, \<^verbatim>\<open>common.go\<close>, \<^verbatim>\<open>errors.go\<close>), \<^verbatim>\<open>Precompiles\<close> (\<^verbatim>\<open>contracts.go\<close>),
    \<^verbatim>\<open>EvmState\<close> (\<^verbatim>\<open>contract.go\<close>, \<^verbatim>\<open>analysis.go\<close>), \<^verbatim>\<open>EvmGas\<close> (\<^verbatim>\<open>gas.go\<close>, \<^verbatim>\<open>gas_table.go\<close>), \<^verbatim>\<open>EvmCalls\<close> (\<^verbatim>\<open>evm.go\<close>),
    \<^verbatim>\<open>EvmOps\<close> (\<^verbatim>\<open>instructions.go\<close>), \<^verbatim>\<open>EvmTable\<close> (\<^verbatim>\<open>jump_table.go\<close>, \<^verbatim>\<open>eips.go\<close>), \<^verbatim>\<open>EvmRun\<close> (\<^verbatim>\<open>interpreter.go\<close>): the virtual
    machine. A call takes the interpreter as an argument and the interpreter calls back;
    \<open>interp\<close> ties the knot with fuel, which also bounds the nested calls. The gas given to a call plus one is
    enough fuel.
  \<^item> \<^verbatim>\<open>EvmEffects\<close>, \<^verbatim>\<open>EvmCharge\<close>, \<^verbatim>\<open>EvmCallEffects\<close>, \<^verbatim>\<open>EvmTermination\<close>, \<^verbatim>\<open>EvmTables\<close>, \<^verbatim>\<open>EvmGasBound\<close>: what every instruction,
    gas function and call does to the gas and to the state database, put together over the instruction
    tables of the eight forks. \<^verbatim>\<open>EvmRevert\<close> and \<^verbatim>\<open>EvmCreateFail\<close>: failed calls and
    creations. \<^verbatim>\<open>EvmStatic\<close>: static calls. \<^verbatim>\<open>EvmStack\<close>: the operand stack. \<^verbatim>\<open>EvmAnalysis\<close>: the jump destination analysis.
    \<^verbatim>\<open>EvmProps\<close>: the properties of the machine.
  \<^item> \<^verbatim>\<open>StateSupply\<close>, \<^verbatim>\<open>EvmSupply\<close>: the sum of all balances (\<open>totalSupply\<close>) and which operations of the database and
    of a call can lower it but never raise it (a burn, or a fee moved to the coinbase), and never make a
    balance negative.
  \<^item> \<^verbatim>\<open>Transition\<close> (\<^verbatim>\<open>core/state_transition.go\<close>, \<^verbatim>\<open>core/gaspool.go\<close>): buying gas, the intrinsic gas of a message,
    the call or creation, the refund and the coinbase fee, and the gas pool with its panic.
    \<^verbatim>\<open>BlockProcess\<close> (\<^verbatim>\<open>core/state_processor.go\<close>, \<^verbatim>\<open>core/types/transaction.go\<close>, \<^verbatim>\<open>core/types/receipt.go\<close>,
    \<^verbatim>\<open>consensus/misc/dao.go\<close>): turning a transaction into a message and its outcome into a receipt, the DAO fork, and
    the loop over the transactions of a block. \<^verbatim>\<open>Bloom\<close> (\<^verbatim>\<open>core/types/bloom9.go\<close>): the log bloom filters of
    receipts and blocks. \<^verbatim>\<open>TransitionProps\<close>, \<^verbatim>\<open>BlockProps\<close>: the properties of a transaction and of a block.

  \<^bold>\<open>Arguments of the model.\<close> The readers of the database below the state (\<open>reader\<close>), the 256-bit arithmetic of the package
  \<^verbatim>\<open>holiman/uint256\<close> (\<open>uint256lib\<close>), hashes and curves (\<open>crypto\<close>), the block context and the chain
  rules (\<open>env\<close>), the signature recovery of a transaction (\<open>Sender\<close>) and, for a block, the final state root
  and the consensus engine's finalisation (\<open>IntermediateRoot\<close>, \<open>engineFinalize\<close>) are arguments. The only
  assumption on them is that the hashes of addresses do not collide (\<open>hashInj\<close>), and, for the block
  money property, that finalisation does not itself create money, where a theorem needs it.

  \<^bold>\<open>Not modelled.\<close> Tracers and printing; hashing, committing, iterating and proving of tries and the
  write-back of the state (they need the Keccak function and the reference-counted node
  cache); the RLP decoder (driven by reflection); persistence, locking and reorganisation in the block
  chain; the transaction pool; the proof-of-authority and proof-of-work consensus engines; network, RPC,
  account and command packages (concurrency, input and output).
\<close>

end
